theory Spec2Isabelle
  imports Complex_Main "HOL-Library.Word" "HOL-Library.Multiset"
begin

section \<open>Data model of gpu-pcie-bench\<close>

text \<open>
  The program is a single C++ translation unit (\<^verbatim>\<open>main.cpp\<close>).  Its integer types are
  modelled as follows.
  \<^item> \<^verbatim>\<open>size_t\<close> is \<open>'a word\<close>, where \<open>'a\<close> is the address width of the build.  The
    preprocessor test \<^verbatim>\<open>UINTPTR_MAX == 0xffffffffffffffff\<close> is \<open>LENGTH('a) = 64\<close>.
  \<^item> \<^verbatim>\<open>cl_ulong\<close> and \<^verbatim>\<open>unsigned long long\<close> are \<open>64 word\<close>, \<^verbatim>\<open>cl_uint\<close> is \<open>32 word\<close>.
  \<^item> \<^verbatim>\<open>int\<close> and \<^verbatim>\<open>cl_int\<close> values are \<open>int\<close>; the only \<^verbatim>\<open>int\<close> arithmetic of the
    program is the loop counter, which stays below \<^verbatim>\<open>rounds\<close>.
  \<^item> a finite \<^verbatim>\<open>double\<close> is the \<open>real\<close> it denotes, and every arithmetic operation rounds
    its exact result to the nearest double (section ``Double-precision arithmetic'');
    the quotients that the reporter prints can also be infinite or no number, and have the
    type \<open>double\<close>.

  The effects of the program are its output, its OpenCL calls and the way it ends.  The
  text of an output statement is not modelled beyond the values it prints, nor are the
  contents of the buffers (\<^verbatim>\<open>memset\<close>), the CPU name and the pause at the end of the
  Windows build.
\<close>

type_synonym cl_int = int
type_synonym cl_uint = "32 word"
type_synonym cl_ulong = "64 word"

definition CL_SUCCESS :: cl_int where
  "CL_SUCCESS = 0"

datatype Direction = HostToDevice | DeviceToHost | Both

datatype Unit = MBps | GBps

text \<open>The exceptions thrown by \<^verbatim>\<open>std::stoull\<close> and \<^verbatim>\<open>std::stoi\<close>.\<close>

datatype exn = invalid_argument | out_of_range

text \<open>What the program writes to \<^verbatim>\<open>std::cerr\<close>.\<close>

datatype diagnostic =
    InvalidSize string
  | UnknownDirection string
  | UnknownUnit string
  | UnknownArgument string
  | CheckFailed string cl_int
  | NoPlatforms
  | NoGpuDevices
  | DeviceBeyond int
  | NoBufferSizesFit

section \<open>Double-precision arithmetic\<close>

text \<open>
  The \<^verbatim>\<open>double\<close> of the targets of the program is IEEE 754 binary64 with rounding to
  nearest, ties to even.  \<open>round_even\<close> is the nearest integer with ties to even, and
  \<open>rnd x\<close> is the double nearest to \<open>x\<close>: a significand of 53 bits (an integer between
  \<open>2 ^ 52\<close> and \<open>2 ^ 53\<close>) times the power of two that puts it in the binade of \<open>x\<close>.
  The exponent is not bounded: the magnitudes that the program computes (nanosecond counts
  divided by \<open>10 ^ 9\<close>, their sums over at most \<open>2 ^ 31\<close> rounds, byte counts below
  \<open>2 ^ 64\<close> and the quotients of these) stay far inside the normal range of binary64.
\<close>

definition round_even :: "real \<Rightarrow> int" where
  "round_even y =
     (let f = \<lfloor>y\<rfloor>; r = y - of_int f in
      if r < 1 / 2 then f else if 1 / 2 < r then f + 1 else if even f then f else f + 1)"

definition pow2 :: "int \<Rightarrow> real" where
  "pow2 e = 2 powr of_int e"

definition rnd :: "real \<Rightarrow> real" where
  "rnd x =
     (if x = 0 then 0
      else of_int (round_even (x / pow2 (\<lfloor>log 2 \<bar>x\<bar>\<rfloor> - 52)))
             * pow2 (\<lfloor>log 2 \<bar>x\<bar>\<rfloor> - 52))"

text \<open>
  The value of an expression of type \<^verbatim>\<open>double\<close> that need not be finite.  \<open>Finite 0\<close> is
  the zero with the positive sign and \<open>NegZero\<close> the one with the negative sign; they
  differ in what a division by them yields.
\<close>

datatype double = Finite real | NegZero | PlusInf | MinusInf | NaN

text \<open>\<^verbatim>\<open>d * c\<close> for a finite constant \<open>c\<close> greater than 0 (here \<^verbatim>\<open>1024.0\<close>).\<close>

fun fmul :: "double \<Rightarrow> real \<Rightarrow> double" where
  "fmul (Finite x) c = Finite (rnd (x * c))"
| "fmul NegZero c = NegZero"
| "fmul PlusInf c = PlusInf"
| "fmul MinusInf c = MinusInf"
| "fmul NaN c = NaN"

text \<open>
  \<^verbatim>\<open>a / d\<close> for a finite \<open>a\<close> (\<open>a = 0\<close> is the positive zero): a division by zero yields
  an infinity, or no number when \<open>a\<close> is zero as well.
\<close>

fun fdiv :: "real \<Rightarrow> double \<Rightarrow> double" where
  "fdiv a (Finite b) =
     (if b = 0 then (if a = 0 then NaN else if 0 < a then PlusInf else MinusInf)
      else if a = 0 \<and> b < 0 then NegZero
      else Finite (rnd (a / b)))"
| "fdiv a NegZero = (if a = 0 then NaN else if 0 < a then MinusInf else PlusInf)"
| "fdiv a PlusInf = (if a < 0 then NegZero else Finite 0)"
| "fdiv a MinusInf = (if a < 0 then Finite 0 else NegZero)"
| "fdiv a NaN = NaN"

section \<open>Parsing of the size list\<close>

subsection \<open>The library functions used by the parser\<close>

text \<open>
  \<^verbatim>\<open>std::getline(ss, item, ',')\<close> in a \<^verbatim>\<open>while\<close> condition: every call that extracts at
  least one character (the delimiter included) yields an item; the call at the end of the
  stream fails.  So a trailing empty piece is not an item, every other empty piece is.
\<close>

fun getline_items :: "string \<Rightarrow> string \<Rightarrow> string list" where
  "getline_items item [] = (if item = [] then [] else [item])"
| "getline_items item (c # cs) =
     (if c = CHR '','' then item # getline_items [] cs else getline_items (item @ [c]) cs)"

definition isspace_c :: "char \<Rightarrow> bool" where
  "isspace_c c = (c \<in> set [CHR '' '', CHR 0x09, CHR 0x0A, CHR 0x0B, CHR 0x0C, CHR 0x0D])"

definition isdigit_c :: "char \<Rightarrow> bool" where
  "isdigit_c c = (c \<in> set ''0123456789'')"

definition digit_val :: "char \<Rightarrow> nat" where
  "digit_val c = of_char c - 48"

definition decimal :: "string \<Rightarrow> nat" where
  "decimal ds = foldl (\<lambda>n c. 10 * n + digit_val c) 0 ds"

text \<open>
  \<^verbatim>\<open>std::stoull(str)\<close> (base 10) of the C++ standard library, which calls \<^verbatim>\<open>strtoull\<close>:
  leading white space is skipped, one sign is accepted, the longest run of digits is
  converted and whatever follows is ignored.  No digit throws \<^verbatim>\<open>std::invalid_argument\<close>, a
  value above \<^verbatim>\<open>ULLONG_MAX\<close> throws \<^verbatim>\<open>std::out_of_range\<close>, and a minus sign negates the
  value in the unsigned type.
\<close>

definition stoull :: "string \<Rightarrow> exn + 64 word" where
  "stoull str =
     (let s1 = dropWhile isspace_c str;
          neg = (s1 \<noteq> [] \<and> hd s1 = CHR ''-'');
          s2 = (if s1 \<noteq> [] \<and> (hd s1 = CHR ''-'' \<or> hd s1 = CHR ''+'') then tl s1 else s1);
          ds = takeWhile isdigit_c s2
      in if ds = [] then Inl invalid_argument
         else if 2 ^ 64 \<le> decimal ds then Inl out_of_range
         else Inr (if neg then - word_of_nat (decimal ds) else word_of_nat (decimal ds)))"

subsection \<open>\<^verbatim>\<open>parse_sizes\<close>\<close>

text \<open>
  \<^verbatim>\<open>parse_sizes\<close>, lines 117 to 145 of \<^verbatim>\<open>main.cpp\<close>.
  The body of the \<^verbatim>\<open>try\<close> block for one item: \<open>Inl\<close> is the exception that reaches
  \<^verbatim>\<open>catch (...)\<close>, \<open>Inr\<close> the value pushed onto \<^verbatim>\<open>result\<close>.  The product is computed in
  \<^verbatim>\<open>size_t\<close> and wraps around.
\<close>

definition parse_item :: "string \<Rightarrow> exn + 'a::len word" where
  "parse_item item =
     (let (multiplier, numberPart) =
        (if item \<noteq> [] then
           (let lastChar = last item in
            if lastChar = CHR ''K'' \<or> lastChar = CHR ''k'' then (1024, butlast item)
            else if lastChar = CHR ''M'' \<or> lastChar = CHR ''m'' then (1024 * 1024, butlast item)
            else if lastChar = CHR ''G'' \<or> lastChar = CHR ''g'' then
              (1024 * 1024 * 1024, butlast item)
            else (1, item))
         else (1, item))
      in case stoull numberPart of
           Inl e \<Rightarrow> Inl e
         | Inr val \<Rightarrow> Inr (ucast val * multiplier))"

text \<open>The \<^verbatim>\<open>while\<close> loop over the items; the second component collects the diagnostics.\<close>

fun parse_loop ::
  "string list \<Rightarrow> 'a::len word list \<Rightarrow> diagnostic list \<Rightarrow> 'a word list \<times> diagnostic list"
where
  "parse_loop [] result diags = (result, diags)"
| "parse_loop (item # items) result diags =
     (case parse_item item of
        Inr v \<Rightarrow> parse_loop items (result @ [v]) diags
      | Inl e \<Rightarrow> parse_loop items result (diags @ [InvalidSize item]))"

definition parse_sizes :: "string \<Rightarrow> 'a::len word list \<times> diagnostic list" where
  "parse_sizes str = parse_loop (getline_items [] str) [] []"

section \<open>The size catalog and its filter\<close>

text \<open>\<^verbatim>\<open>filter_static_sizes_by_gpu_memory\<close>, lines 166 to 192.\<close>

definition staticSizes :: "'a::len word list" where
  "staticSizes =
     [512 * 1024, 1 * 1024 * 1024, 10 * 1024 * 1024, 100 * 1024 * 1024, 512 * 1024 * 1024]
     @ (if LENGTH('a) = 64
        then [1024 * 1024 * 1024, 2048 * 1024 * 1024, 4096 * 1024 * 1024] else [])"

text \<open>
  The range-based \<^verbatim>\<open>for\<close> loop of \<^verbatim>\<open>filter_static_sizes_by_gpu_memory\<close>: erase-remove is
  \<open>removeAll\<close>, \<^verbatim>\<open>std::find(...) == sizes.end()\<close> is \<open>sz \<notin> set sizes\<close>.
\<close>

fun filter_loop :: "'a::len word list \<Rightarrow> 'a word \<Rightarrow> 'a word list \<Rightarrow> 'a word list" where
  "filter_loop [] gpuMemSize sizes = sizes"
| "filter_loop (sz # rest) gpuMemSize sizes =
     filter_loop rest gpuMemSize
       (if sz > gpuMemSize div 4 then removeAll sz sizes
        else if sz \<notin> set sizes then sizes @ [sz]
        else sizes)"

definition filter_static_sizes_by_gpu_memory :: "'a::len word list \<Rightarrow> 'a word \<Rightarrow> 'a word list" where
  "filter_static_sizes_by_gpu_memory sizes gpuMemSize =
     sort (filter_loop staticSizes gpuMemSize sizes)"

section \<open>The command line\<close>

text \<open>
  \<^verbatim>\<open>std::stoi(str)\<close> (base 10) of the C++ standard library, which calls \<^verbatim>\<open>strtol\<close>: the same
  scanning as \<^verbatim>\<open>strtoull\<close>; a value outside the range of \<^verbatim>\<open>int\<close> throws
  \<^verbatim>\<open>std::out_of_range\<close>.
\<close>

definition stoi :: "string \<Rightarrow> exn + int" where
  "stoi str =
     (let s1 = dropWhile isspace_c str;
          neg = (s1 \<noteq> [] \<and> hd s1 = CHR ''-'');
          s2 = (if s1 \<noteq> [] \<and> (hd s1 = CHR ''-'' \<or> hd s1 = CHR ''+'') then tl s1 else s1);
          ds = takeWhile isdigit_c s2
      in if ds = [] then Inl invalid_argument
         else (let v = (if neg then - int (decimal ds) else int (decimal ds)) in
               if v < - (2 ^ 31) \<or> 2 ^ 31 - 1 < v then Inl out_of_range else Inr v))"

definition tolower_c :: "char \<Rightarrow> char" where
  "tolower_c c =
     (if c \<in> set ''ABCDEFGHIJKLMNOPQRSTUVWXYZ'' then char_of (of_char c + (32 :: nat)) else c)"

text \<open>
  \<^verbatim>\<open>parse_direction\<close> and \<^verbatim>\<open>parse_unit\<close>: \<open>Inl d\<close> stands for writing \<open>d\<close> to
  \<^verbatim>\<open>std::cerr\<close> followed by \<^verbatim>\<open>exit(1)\<close>.
\<close>

definition parse_direction :: "string \<Rightarrow> diagnostic + Direction" where
  "parse_direction s =
     (let lower = map tolower_c s in
      if lower = ''host2dev'' then Inr HostToDevice
      else if lower = ''dev2host'' then Inr DeviceToHost
      else if lower = ''both'' then Inr Both
      else Inl (UnknownDirection s))"

definition parse_unit :: "string \<Rightarrow> diagnostic + Unit" where
  "parse_unit s =
     (let lower = map tolower_c s in
      if lower = ''mb'' then Inr MBps
      else if lower = ''gb'' then Inr GBps
      else Inl (UnknownUnit s))"

text \<open>What the program writes to \<^verbatim>\<open>std::cout\<close>, one constructor per output statement.\<close>

datatype out_line =
    HelpText
  | VersionLine
  | CpuLine
  | GpuLine nat
  | BufferSizeLine nat
  | IterationLine int int
  | Endl
  | DirectionHeader string
  | StatLine string double string

text \<open>The OpenCL entry points the program calls; buffer calls carry their byte size.\<close>

datatype cl_call =
    clGetPlatformIDs
  | clGetDeviceIDs
  | clGetDeviceInfo
  | clCreateContext
  | clCreateCommandQueue
  | clCreateBuffer nat
  | clEnqueueMapBuffer nat
  | clEnqueueWriteBuffer nat
  | clEnqueueReadBuffer nat
  | clFinish
  | clEnqueueUnmapMemObject
  | clReleaseMemObject
  | clReleaseCommandQueue
  | clReleaseContext

datatype event = Cout out_line | Cerr diagnostic | Call cl_call

text \<open>
  How the process ends: \<open>Exit n\<close> is \<^verbatim>\<open>return n\<close> from \<^verbatim>\<open>main\<close> or \<^verbatim>\<open>exit(n)\<close>;
  \<open>Terminate e\<close> is an exception that leaves \<^verbatim>\<open>main\<close>, for which the C++ runtime calls
  \<^verbatim>\<open>std::terminate\<close> and the process is aborted instead of returning an exit code.
\<close>

datatype outcome = Exit int | Terminate exn

text \<open>
  The local variables of \<^verbatim>\<open>main\<close> that the argument loop sets; \<open>'s\<close> is \<^verbatim>\<open>size_t\<close>.
\<close>

record 's config =
  rounds :: int
  targetDevice :: int
  direction :: Direction
  unit :: Unit
  userSpecifiedSizes :: bool
  sizes :: "'s list"

definition default_sizes :: "'a::len word list" where
  "default_sizes =
     [512 * 1024, 1 * 1024 * 1024, 10 * 1024 * 1024, 100 * 1024 * 1024, 512 * 1024 * 1024]
     @ (if LENGTH('a) = 64
        then [1024 * 1024 * 1024, 2048 * 1024 * 1024, 4096 * 1024 * 1024] else [])"

definition initial_config :: "'a::len word config" where
  "initial_config =
     \<lparr>rounds = 100, targetDevice = 0, direction = Both, unit = GBps,
      userSpecifiedSizes = False, sizes = default_sizes\<rparr>"

datatype 's parsed = Proceed "'s config" "event list" | Stop outcome "event list"

text \<open>
  The \<^verbatim>\<open>for\<close> loop over \<^verbatim>\<open>argv[1..]\<close>, lines 238 to 262.  \<open>rest \<noteq> []\<close> is \<^verbatim>\<open>i + 1 < argc\<close>, \<open>hd rest\<close> is
  \<^verbatim>\<open>argv[++i]\<close>.  The calls of \<^verbatim>\<open>std::stoi\<close> are not inside any \<^verbatim>\<open>try\<close> block.
\<close>

fun parse_args ::
  "string list \<Rightarrow> 'a::len word config \<Rightarrow> event list \<Rightarrow> 'a word parsed"
where
  "parse_args [] cfg tr = Proceed cfg tr"
| "parse_args (arg # rest) cfg tr =
     (if arg = ''--help'' then Stop (Exit 0) (tr @ [Cout HelpText])
      else if arg = ''--version'' then Stop (Exit 0) (tr @ [Cout VersionLine])
      else if arg = ''--rounds'' \<and> rest \<noteq> [] then
        (case stoi (hd rest) of
           Inl e \<Rightarrow> Stop (Terminate e) tr
         | Inr n \<Rightarrow> parse_args (tl rest) (cfg\<lparr>rounds := n\<rparr>) tr)
      else if arg = ''--sizes'' \<and> rest \<noteq> [] then
        (case parse_sizes (hd rest) of
           (result, diags) \<Rightarrow>
             parse_args (tl rest) (cfg\<lparr>sizes := result, userSpecifiedSizes := True\<rparr>)
               (tr @ map Cerr diags))
      else if arg = ''--direction'' \<and> rest \<noteq> [] then
        (case parse_direction (hd rest) of
           Inl d \<Rightarrow> Stop (Exit 1) (tr @ [Cerr d])
         | Inr dir \<Rightarrow> parse_args (tl rest) (cfg\<lparr>direction := dir\<rparr>) tr)
      else if arg = ''--unit'' \<and> rest \<noteq> [] then
        (case parse_unit (hd rest) of
           Inl d \<Rightarrow> Stop (Exit 1) (tr @ [Cerr d])
         | Inr u \<Rightarrow> parse_args (tl rest) (cfg\<lparr>unit := u\<rparr>) tr)
      else if arg = ''--device'' \<and> rest \<noteq> [] then
        (case stoi (hd rest) of
           Inl e \<Rightarrow> Stop (Terminate e) tr
         | Inr n \<Rightarrow> parse_args (tl rest) (cfg\<lparr>targetDevice := n\<rparr>) tr)
      else Stop (Exit 1) (tr @ [Cerr (UnknownArgument arg), Cout HelpText]))"

section \<open>The OpenCL runtime and the trace of a run\<close>

text \<open>
  The OpenCL runtime and the clock are the environment of the program.  \<open>status_of rt n\<close> is
  the status that the \<open>n\<close>-th OpenCL call of the run reports (calls are counted from 0, in
  program order).  \<open>start_of rt n\<close> and \<open>end_of rt n\<close> are the two readings of
  \<^verbatim>\<open>std::chrono::high_resolution_clock\<close> that \<^verbatim>\<open>measure\<close> takes before and after the
  transfer that is OpenCL call number \<open>n\<close>: the tick counts of the two time points, which
  are signed 64-bit counts of nanoseconds in the standard libraries of GCC, Clang and
  MSVC.  The clock need not be steady (in libstdc++ it is the system clock), so the second
  reading can be below the first.  The other fields are the values the queries store
  through their output pointers.
\<close>

record runtime =
  status_of :: "nat \<Rightarrow> cl_int"
  start_of :: "nat \<Rightarrow> 64 word"
  end_of :: "nat \<Rightarrow> 64 word"
  numPlatforms :: cl_uint
  numDevices :: cl_uint
  gpuMemSize :: cl_ulong

record world =
  ncalls :: nat
  trace :: "event list"

definition emit :: "event \<Rightarrow> world \<Rightarrow> world" where
  "emit e w = w\<lparr>trace := trace w @ [e]\<rparr>"

definition cl :: "runtime \<Rightarrow> cl_call \<Rightarrow> world \<Rightarrow> cl_int \<times> world" where
  "cl rt c w = (status_of rt (ncalls w), w\<lparr>ncalls := Suc (ncalls w), trace := trace w @ [Call c]\<rparr>)"

text \<open>
  The macro \<^verbatim>\<open>CHECK(status, msg)\<close>, lines 31 to 37.  Its argument \<^verbatim>\<open>status\<close> is an
  expression, which the expansion evaluates once in the condition and, when the condition
  holds, once more in the output statement: where \<^verbatim>\<open>main\<close> passes an OpenCL call, a call
  that fails is made a second time and the status of the second call is printed.  Its
  \<^verbatim>\<open>return 1\<close> returns from whatever function the macro is expanded in, so \<open>ret1\<close> is
  the value 1 converted to the return type of that function; \<open>cont\<close> is the code after
  the macro.  \<open>var v\<close> is the expression that reads a local variable whose value is \<open>v\<close>.
\<close>

definition var :: "cl_int \<Rightarrow> world \<Rightarrow> cl_int \<times> world" where
  "var v w = (v, w)"

definition CHECK ::
  "(world \<Rightarrow> cl_int \<times> world) \<Rightarrow> string \<Rightarrow> 'r \<Rightarrow> world \<Rightarrow> (world \<Rightarrow> 'r \<times> world)
     \<Rightarrow> 'r \<times> world"
where
  "CHECK status msg ret1 w0 cont =
     (let (s, w) = status w0 in
      if s \<noteq> CL_SUCCESS then
        (let (s', w) = status w in (ret1, emit (Cerr (CheckFailed msg s')) w))
      else cont w)"

section \<open>The transfer engine\<close>

text \<open>
  \<^verbatim>\<open>std::chrono::duration<double>(end - start).count()\<close>: the difference of the two tick
  counts is taken in the signed 64-bit type, converted to \<^verbatim>\<open>double\<close> and divided by
  \<^verbatim>\<open>1e9\<close>.  A difference outside the 64-bit range (readings more than 292 years apart) is
  taken modulo \<open>2 ^ 64\<close>.
\<close>

definition duration_seconds :: "64 word \<Rightarrow> 64 word \<Rightarrow> real" where
  "duration_seconds start end' = rnd (rnd (real_of_int (sint (end' - start))) / 10 ^ 9)"

text \<open>
  \<^verbatim>\<open>double measure(queue, deviceBuf, hostPtr, size, write)\<close>, lines 206 to 215.  The macro \<^verbatim>\<open>CHECK\<close> is
  expanded in a function that returns \<^verbatim>\<open>double\<close>, so its \<^verbatim>\<open>return 1\<close> returns \<open>1.0\<close>.
\<close>

definition measure_transfer :: "runtime \<Rightarrow> 'a::len word \<Rightarrow> bool \<Rightarrow> world \<Rightarrow> real \<times> world" where
  "measure_transfer rt size' write w0 =
     (let n = ncalls w0;
          start = start_of rt n;
          (status, w) = cl rt (if write then clEnqueueWriteBuffer (unat size')
                               else clEnqueueReadBuffer (unat size')) w0;
          (ignored, w) = cl rt clFinish w
      in CHECK (var status) (if write then ''Write failed'' else ''Read failed'') 1 w
           (\<lambda>w. (duration_seconds start (end_of rt n), w)))"

text \<open>
  The accumulators of one buffer size, lines 342 and 343.  \<open>seenH2D\<close> and \<open>seenD2H\<close> are ghost fields, not in
  the source: the values \<^verbatim>\<open>measure\<close> has returned so far for each direction.
\<close>

record accum =
  sumH2D :: real
  minH2D :: real
  maxH2D :: real
  sumD2H :: real
  minD2H :: real
  maxD2H :: real
  seenH2D :: "real list"
  seenD2H :: "real list"

definition init_accum :: accum where
  "init_accum =
     \<lparr>sumH2D = 0, minH2D = 10 ^ 10, maxH2D = 0, sumD2H = 0, minD2H = 10 ^ 10, maxD2H = 0,
      seenH2D = [], seenD2H = []\<rparr>"

definition round_body ::
  "'a::len word config \<Rightarrow> runtime \<Rightarrow> 'a word \<Rightarrow> int \<Rightarrow> accum \<Rightarrow> world \<Rightarrow> accum \<times> world"
where
  "round_body cfg rt dataSize i acc0 w0 =
     (let w = emit (Cout (IterationLine (i + 1) (rounds cfg))) w0;
          (acc, w) =
            (if direction cfg = HostToDevice \<or> direction cfg = Both then
               (let (t, w) = measure_transfer rt dataSize True w in
                (acc0\<lparr>sumH2D := rnd (sumH2D acc0 + t), minH2D := min (minH2D acc0) t,
                       maxH2D := max (maxH2D acc0) t, seenH2D := seenH2D acc0 @ [t]\<rparr>, w))
             else (acc0, w))
      in if direction cfg = DeviceToHost \<or> direction cfg = Both then
           (let (t, w) = measure_transfer rt dataSize False w in
            (acc\<lparr>sumD2H := rnd (sumD2H acc + t), minD2H := min (minD2H acc) t,
                  maxD2H := max (maxD2H acc) t, seenD2H := seenD2H acc @ [t]\<rparr>, w))
         else (acc, w))"

text \<open>
  \<^verbatim>\<open>for (int i = 0; i < rounds; ++i)\<close>, lines 345 to 361, entered with \<open>i = 0\<close>;
  \<open>round_body\<close> is one iteration.
\<close>

function round_loop ::
  "'a::len word config \<Rightarrow> runtime \<Rightarrow> 'a word \<Rightarrow> int \<Rightarrow> accum \<Rightarrow> world \<Rightarrow> accum \<times> world"
where
  "round_loop cfg rt dataSize i acc w =
     (if i < rounds cfg then
        (case round_body cfg rt dataSize i acc w of
           (acc', w') \<Rightarrow> round_loop cfg rt dataSize (i + 1) acc' w')
      else (acc, w))"
  by pat_completeness auto
termination
  by (relation "measure (\<lambda>(cfg, rt, dataSize, i, acc, w). nat (rounds cfg - i))") auto

declare round_loop.simps [simp del]

section \<open>The aggregator and reporter\<close>

text \<open>
  The lambda \<^verbatim>\<open>convert\<close>, which captures \<^verbatim>\<open>unit\<close> and \<^verbatim>\<open>dataSize\<close>, and the two
  reports, lines 365 to 383.  The division converts \<^verbatim>\<open>dataSize\<close> to \<^verbatim>\<open>double\<close>, as
  \<^verbatim>\<open>sumH2D / rounds\<close> does with \<^verbatim>\<open>rounds\<close>.
\<close>

definition convert :: "Unit \<Rightarrow> 'a::len word \<Rightarrow> double \<Rightarrow> double" where
  "convert u dataSize sec =
     (if u = GBps then
        fdiv (rnd (real (unat dataSize))) (fmul (fmul (fmul sec 1024) 1024) 1024)
      else fdiv (rnd (real (unat dataSize))) (fmul (fmul sec 1024) 1024))"

definition unit_label :: "Unit \<Rightarrow> string" where
  "unit_label u = (if u = GBps then ''GB/s'' else ''MB/s'')"

definition report_H2D :: "'a::len word config \<Rightarrow> 'a word \<Rightarrow> accum \<Rightarrow> event list" where
  "report_H2D cfg dataSize acc =
     (if direction cfg = HostToDevice \<or> direction cfg = Both then
        [Cout (DirectionHeader ''Host to Device:''),
         Cout (StatLine ''Avg''
                 (convert (unit cfg) dataSize
                    (fdiv (sumH2D acc) (Finite (real_of_int (rounds cfg)))))
                 (unit_label (unit cfg))),
         Cout (StatLine ''Min'' (convert (unit cfg) dataSize (Finite (maxH2D acc)))
                 (unit_label (unit cfg))),
         Cout (StatLine ''Max'' (convert (unit cfg) dataSize (Finite (minH2D acc)))
                 (unit_label (unit cfg)))]
      else [])"

definition report_D2H :: "'a::len word config \<Rightarrow> 'a word \<Rightarrow> accum \<Rightarrow> event list" where
  "report_D2H cfg dataSize acc =
     (if direction cfg = DeviceToHost \<or> direction cfg = Both then
        [Cout (DirectionHeader ''Device to Host:''),
         Cout (StatLine ''Avg''
                 (convert (unit cfg) dataSize
                    (fdiv (sumD2H acc) (Finite (real_of_int (rounds cfg)))))
                 (unit_label (unit cfg))),
         Cout (StatLine ''Min'' (convert (unit cfg) dataSize (Finite (maxD2H acc)))
                 (unit_label (unit cfg))),
         Cout (StatLine ''Max'' (convert (unit cfg) dataSize (Finite (minD2H acc)))
                 (unit_label (unit cfg)))]
      else [])"

definition emits :: "event list \<Rightarrow> world \<Rightarrow> world" where
  "emits es w = w\<lparr>trace := trace w @ es\<rparr>"

section \<open>One buffer size, and the loop over the catalog\<close>

text \<open>
  The body of \<^verbatim>\<open>for (size_t dataSize : sizes)\<close> in \<^verbatim>\<open>main\<close>, lines 322 to 391.  \<open>Some oc\<close> is a
  \<^verbatim>\<open>return\<close> from \<^verbatim>\<open>main\<close> inside the body, \<open>None\<close> is reaching the end of the body.
\<close>

definition bench_size ::
  "'a::len word config \<Rightarrow> runtime \<Rightarrow> 'a word \<Rightarrow> world \<Rightarrow> outcome option \<times> world"
where
  "bench_size cfg rt dataSize w0 =
     (let n = unat dataSize;
          w = emit (Cout (BufferSizeLine n)) w0;
          (status, w) = cl rt (clCreateBuffer n) w
      in CHECK (var status) ''Failed to allocate pinned host buffer'' (Some (Exit 1)) w (\<lambda>w.
         let (status, w) = cl rt (clCreateBuffer n) w
         in CHECK (var status) ''Failed to allocate pinned receive buffer'' (Some (Exit 1)) w (\<lambda>w.
         let (status, w) = cl rt (clEnqueueMapBuffer n) w
         in CHECK (var status) ''Failed to map host buffer'' (Some (Exit 1)) w (\<lambda>w.
         let (status, w) = cl rt (clEnqueueMapBuffer n) w
         in CHECK (var status) ''Failed to map recv buffer'' (Some (Exit 1)) w (\<lambda>w.
         let (status, w) = cl rt (clCreateBuffer n) w
         in CHECK (var status) ''Failed to allocate device buffer'' (Some (Exit 1)) w (\<lambda>w.
         let (acc, w) = round_loop cfg rt dataSize 0 init_accum w;
             w = emit (Cout Endl) w;
             w = emits (report_H2D cfg dataSize acc) w;
             w = emits (report_D2H cfg dataSize acc) w;
             (ignored, w) = cl rt clEnqueueUnmapMemObject w;
             (ignored, w) = cl rt clEnqueueUnmapMemObject w;
             (ignored, w) = cl rt clReleaseMemObject w;
             (ignored, w) = cl rt clReleaseMemObject w;
             (ignored, w) = cl rt clReleaseMemObject w
         in (None, w)))))))"

fun sizes_loop ::
  "'a::len word config \<Rightarrow> runtime \<Rightarrow> 'a word list \<Rightarrow> world \<Rightarrow> outcome option \<times> world"
where
  "sizes_loop cfg rt [] w = (None, w)"
| "sizes_loop cfg rt (dataSize # rest) w =
     (case bench_size cfg rt dataSize w of
        (Some oc, w') \<Rightarrow> (Some oc, w')
      | (None, w') \<Rightarrow> sizes_loop cfg rt rest w')"

section \<open>\<^verbatim>\<open>main\<close>\<close>

text \<open>
  Platform and device discovery, from the CPU line to the GPU line of \<^verbatim>\<open>main\<close>, lines
  264 to 303.  Each of the seven queries is the argument of \<^verbatim>\<open>CHECK\<close> itself.  The
  comparison \<^verbatim>\<open>targetDevice >= numDevices\<close> converts the \<^verbatim>\<open>int\<close> to \<^verbatim>\<open>cl_uint\<close>.
\<close>

definition discover :: "'s config \<Rightarrow> runtime \<Rightarrow> world \<Rightarrow> outcome option \<times> world" where
  "discover cfg rt w0 =
     (let w = emit (Cout CpuLine) w0
      in CHECK (cl rt clGetPlatformIDs) ''Failed to get platform count'' (Some (Exit 1)) w (\<lambda>w.
         if numPlatforms rt = 0 then (Some (Exit 1), emit (Cerr NoPlatforms) w)
         else
         CHECK (cl rt clGetPlatformIDs) ''Failed to get platforms'' (Some (Exit 1)) w (\<lambda>w.
         CHECK (cl rt clGetDeviceIDs) ''Failed to get device count'' (Some (Exit 1)) w (\<lambda>w.
         if numDevices rt = 0 then (Some (Exit 1), emit (Cerr NoGpuDevices) w)
         else
         CHECK (cl rt clGetDeviceIDs) ''Failed to get devices'' (Some (Exit 1)) w (\<lambda>w.
         if (word_of_int (targetDevice cfg) :: cl_uint) \<ge> numDevices rt
         then (Some (Exit 1), emit (Cerr (DeviceBeyond (targetDevice cfg))) w)
         else
         CHECK (cl rt clGetDeviceInfo) ''Failed to get GPU name size'' (Some (Exit 1)) w (\<lambda>w.
         CHECK (cl rt clGetDeviceInfo) ''Failed to get GPU name'' (Some (Exit 1)) w (\<lambda>w.
         CHECK (cl rt clGetDeviceInfo) ''Failed to get GPU memory size'' (Some (Exit 1)) w (\<lambda>w.
         (None, emit (Cout (GpuLine (unat (gpuMemSize rt div (1024 * 1024))))) w)))))))))"

text \<open>
  The catalog handed to the transfer loop: \<^verbatim>\<open>sizes\<close> after
  \<^verbatim>\<open>if (!userSpecifiedSizes) filter_static_sizes_by_gpu_memory(sizes,
  static_cast<size_t>(gpuMemSize))\<close>.
\<close>

definition final_sizes :: "'a::len word config \<Rightarrow> runtime \<Rightarrow> 'a word list" where
  "final_sizes cfg rt =
     (if \<not> userSpecifiedSizes cfg
      then filter_static_sizes_by_gpu_memory (sizes cfg) (ucast (gpuMemSize rt))
      else sizes cfg)"

text \<open>\<^verbatim>\<open>main\<close> after the argument loop, lines 264 to 400.\<close>

definition run :: "'a::len word config \<Rightarrow> runtime \<Rightarrow> world \<Rightarrow> outcome \<times> world" where
  "run cfg rt w0 =
     (case discover cfg rt w0 of
        (Some oc, w) \<Rightarrow> (oc, w)
      | (None, w) \<Rightarrow>
          if final_sizes cfg rt = [] then (Exit 1, emit (Cerr NoBufferSizesFit) w)
          else
          let (status, w) = cl rt clCreateContext w
          in CHECK (var status) ''Failed to create context'' (Exit 1) w (\<lambda>w.
             let (status, w) = cl rt clCreateCommandQueue w
             in CHECK (var status) ''Failed to create command queue'' (Exit 1) w (\<lambda>w.
             case sizes_loop cfg rt (final_sizes cfg rt) w of
               (Some oc, w) \<Rightarrow> (oc, w)
             | (None, w) \<Rightarrow>
                 let (ignored, w) = cl rt clReleaseCommandQueue w;
                     (ignored, w) = cl rt clReleaseContext w
                 in (Exit 0, w))))"

text \<open>
  \<^verbatim>\<open>main(argc, argv)\<close> of a build whose \<^verbatim>\<open>size_t\<close> has \<open>LENGTH('a)\<close> bits; \<open>argv\<close> includes
  the program name \<^verbatim>\<open>argv[0]\<close>.  The result is the way the process ends and everything it
  wrote and called, in order.
\<close>

definition main :: "'a::len itself \<Rightarrow> string list \<Rightarrow> runtime \<Rightarrow> outcome \<times> event list" where
  "main width argv rt =
     (case parse_args (drop 1 argv) (initial_config :: 'a word config) [] of
        Stop oc tr \<Rightarrow> (oc, tr)
      | Proceed cfg tr \<Rightarrow>
          (case run cfg rt \<lparr>ncalls = 0, trace = tr\<rparr> of (oc, w) \<Rightarrow> (oc, trace w)))"

section \<open>Concrete runtimes and inputs of the examples\<close>

definition success_status :: "nat \<Rightarrow> cl_int" where
  "success_status n = CL_SUCCESS"

definition clock_zero :: "nat \<Rightarrow> 64 word" where
  "clock_zero n = 0"

definition one_second :: "nat \<Rightarrow> 64 word" where
  "one_second n = 1000000000"

text \<open>
  One platform with one GPU of 8 GiB, on which every call succeeds and every transfer
  takes one second.
\<close>

definition runtime_ok :: runtime where
  "runtime_ok =
     \<lparr>status_of = success_status, start_of = clock_zero, end_of = one_second,
      numPlatforms = 1, numDevices = 1, gpuMemSize = 8589934592\<rparr>"

text \<open>The same machine with a GPU of 2 GiB and of 1 MiB.\<close>

definition runtime_2GiB :: runtime where
  "runtime_2GiB = runtime_ok\<lparr>gpuMemSize := 2147483648\<rparr>"

definition runtime_1MiB :: runtime where
  "runtime_1MiB = runtime_ok\<lparr>gpuMemSize := 1048576\<rparr>"

text \<open>The configuration after \<^verbatim>\<open>--sizes 2M,1M,1M,0\<close>.\<close>

definition config_user_sizes :: "64 word config" where
  "config_user_sizes =
     \<lparr>rounds = 100, targetDevice = 0, direction = Both, unit = GBps,
      userSpecifiedSizes = True, sizes = [2097152, 1048576, 1048576, 0]\<rparr>"

text \<open>A failing first write: OpenCL call number 14 reports \<^verbatim>\<open>CL_OUT_OF_RESOURCES\<close> (-5).\<close>

definition write_fails_status :: "nat \<Rightarrow> cl_int" where
  "write_fails_status n = (if n = 14 then - 5 else CL_SUCCESS)"

definition runtime_write_fails :: runtime where
  "runtime_write_fails = runtime_ok\<lparr>status_of := write_fails_status\<rparr>"

text \<open>The configuration after \<^verbatim>\<open>--sizes 1M --rounds 1 --direction host2dev\<close>.\<close>

definition config_one_write :: "64 word config" where
  "config_one_write =
     \<lparr>rounds = 1, targetDevice = 0, direction = HostToDevice, unit = GBps,
      userSpecifiedSizes = True, sizes = [1048576]\<rparr>"

text \<open>
  A clock that is set back by a second while a transfer is under way: the reading before
  the transfer is 2 s, the reading after it 1 s.
\<close>

definition two_seconds :: "nat \<Rightarrow> 64 word" where
  "two_seconds n = 2000000000"

definition runtime_set_back :: runtime where
  "runtime_set_back = runtime_ok\<lparr>start_of := two_seconds\<rparr>"

text \<open>A clock on which the transfers take 1 s, 2 s, 4 s, 8 s and so on, in this order.\<close>

definition doubling :: "nat \<Rightarrow> 64 word" where
  "doubling n = 1000000000 * 2 ^ (n div 2)"

definition runtime_doubling :: runtime where
  "runtime_doubling = runtime_ok\<lparr>end_of := doubling\<rparr>"

text \<open>A clock on which every transfer takes a tenth of a second, and one on which it takes no time.\<close>

definition tenth_second :: "nat \<Rightarrow> 64 word" where
  "tenth_second n = 100000000"

definition runtime_tenth :: runtime where
  "runtime_tenth = runtime_ok\<lparr>end_of := tenth_second\<rparr>"

definition runtime_instant :: runtime where
  "runtime_instant = runtime_ok\<lparr>end_of := clock_zero\<rparr>"

text \<open>The double nearest to \<open>1 / 10\<close>, which is a little above it.\<close>

definition tenth :: real where
  "tenth = 3602879701896397 / 36028797018963968"

text \<open>
  One and two rounds in both directions, one round of reads, and three rounds from host
  to device.
\<close>

definition config_both_once :: "64 word config" where
  "config_both_once =
     \<lparr>rounds = 1, targetDevice = 0, direction = Both, unit = GBps,
      userSpecifiedSizes = True, sizes = [1048576]\<rparr>"

definition config_both_twice :: "64 word config" where
  "config_both_twice =
     \<lparr>rounds = 2, targetDevice = 0, direction = Both, unit = GBps,
      userSpecifiedSizes = True, sizes = [1048576]\<rparr>"

definition config_d2h_once :: "64 word config" where
  "config_d2h_once =
     \<lparr>rounds = 1, targetDevice = 0, direction = DeviceToHost, unit = GBps,
      userSpecifiedSizes = True, sizes = [1048576]\<rparr>"

definition config_h2d_3 :: "64 word config" where
  "config_h2d_3 =
     \<lparr>rounds = 3, targetDevice = 0, direction = HostToDevice, unit = GBps,
      userSpecifiedSizes = True, sizes = [1048576]\<rparr>"

text \<open>The accumulators and the world that these round loops end with.\<close>

definition accum_set_back :: accum where
  "accum_set_back =
     \<lparr>sumH2D = - 1, minH2D = - 1, maxH2D = 0, sumD2H = - 1, minD2H = - 1, maxD2H = 0,
      seenH2D = [- 1], seenD2H = [- 1]\<rparr>"

definition accum_doubling :: accum where
  "accum_doubling =
     \<lparr>sumH2D = 5, minH2D = 1, maxH2D = 4, sumD2H = 10, minD2H = 2, maxD2H = 8,
      seenH2D = [1, 4], seenD2H = [2, 8]\<rparr>"

definition accum_read_instant :: accum where
  "accum_read_instant =
     \<lparr>sumH2D = 0, minH2D = 10 ^ 10, maxH2D = 0, sumD2H = 0, minD2H = 0, maxD2H = 0,
      seenH2D = [], seenD2H = [0]\<rparr>"

definition accum_tenth :: accum where
  "accum_tenth =
     \<lparr>sumH2D = 1351079888211149 / 4503599627370496, minH2D = tenth, maxH2D = tenth,
      sumD2H = 0, minD2H = 10 ^ 10, maxD2H = 0,
      seenH2D = [tenth, tenth, tenth], seenD2H = []\<rparr>"

definition world_both_once :: world where
  "world_both_once =
     \<lparr>ncalls = 4,
      trace = [Cout (IterationLine 1 1), Call (clEnqueueWriteBuffer 1048576), Call clFinish,
               Call (clEnqueueReadBuffer 1048576), Call clFinish]\<rparr>"

definition world_both_twice :: world where
  "world_both_twice =
     \<lparr>ncalls = 8,
      trace = [Cout (IterationLine 1 2), Call (clEnqueueWriteBuffer 1048576), Call clFinish,
               Call (clEnqueueReadBuffer 1048576), Call clFinish,
               Cout (IterationLine 2 2), Call (clEnqueueWriteBuffer 1048576), Call clFinish,
               Call (clEnqueueReadBuffer 1048576), Call clFinish]\<rparr>"

definition accum_h2d_3 :: accum where
  "accum_h2d_3 =
     \<lparr>sumH2D = 3, minH2D = 1, maxH2D = 1, sumD2H = 0, minD2H = 10 ^ 10, maxD2H = 0,
      seenH2D = [1, 1, 1], seenD2H = []\<rparr>"

definition world_h2d_3 :: world where
  "world_h2d_3 =
     \<lparr>ncalls = 6,
      trace = [Cout (IterationLine 1 3), Call (clEnqueueWriteBuffer 1048576), Call clFinish,
               Cout (IterationLine 2 3), Call (clEnqueueWriteBuffer 1048576), Call clFinish,
               Cout (IterationLine 3 3), Call (clEnqueueWriteBuffer 1048576), Call clFinish]\<rparr>"

section \<open>Vocabulary of the properties\<close>

text \<open>Buffer allocations, mappings and transfers among the events of a trace.\<close>

fun is_buffer_or_transfer :: "event \<Rightarrow> bool" where
  "is_buffer_or_transfer (Call (clCreateBuffer n)) = True"
| "is_buffer_or_transfer (Call (clEnqueueMapBuffer n)) = True"
| "is_buffer_or_transfer (Call (clEnqueueWriteBuffer n)) = True"
| "is_buffer_or_transfer (Call (clEnqueueReadBuffer n)) = True"
| "is_buffer_or_transfer e = False"

fun is_write_call :: "event \<Rightarrow> bool" where
  "is_write_call (Call (clEnqueueWriteBuffer n)) = True"
| "is_write_call e = False"

fun is_read_call :: "event \<Rightarrow> bool" where
  "is_read_call (Call (clEnqueueReadBuffer n)) = True"
| "is_read_call e = False"

fun is_size_diagnostic :: "event \<Rightarrow> bool" where
  "is_size_diagnostic (Cerr (InvalidSize item)) = True"
| "is_size_diagnostic e = False"

text \<open>
  What the accumulators hold in terms of the values \<^verbatim>\<open>measure\<close> has returned: the sum
  rounded after every addition, and the least and the greatest value starting from the
  initial values \<open>10 ^ 10\<close> and \<open>0\<close>.  Every value that \<^verbatim>\<open>measure\<close> returns is a double
  and is at most \<open>10 ^ 10\<close>.
\<close>

definition is_sample :: "real \<Rightarrow> bool" where
  "is_sample t \<longleftrightarrow> rnd t = t \<and> t \<le> 10 ^ 10"

definition accum_inv :: "accum \<Rightarrow> bool" where
  "accum_inv acc \<longleftrightarrow>
     sumH2D acc = foldl (\<lambda>s t. rnd (s + t)) 0 (seenH2D acc)
     \<and> minH2D acc = foldl min (10 ^ 10) (seenH2D acc)
     \<and> maxH2D acc = foldl max 0 (seenH2D acc)
     \<and> sumD2H acc = foldl (\<lambda>s t. rnd (s + t)) 0 (seenD2H acc)
     \<and> minD2H acc = foldl min (10 ^ 10) (seenD2H acc)
     \<and> maxD2H acc = foldl max 0 (seenD2H acc)
     \<and> list_all is_sample (seenH2D acc) \<and> list_all is_sample (seenD2H acc)"

text \<open>
  The comparison \<^verbatim>\<open><=\<close> of IEEE 754: the two zeros are equal, the infinities are the
  least and the greatest value, and no number compares with nothing.
\<close>

fun double_le :: "double \<Rightarrow> double \<Rightarrow> bool" where
  "double_le NaN b = False"
| "double_le a NaN = False"
| "double_le MinusInf b = True"
| "double_le a PlusInf = True"
| "double_le PlusInf b = False"
| "double_le a MinusInf = False"
| "double_le (Finite x) (Finite y) = (x \<le> y)"
| "double_le (Finite x) NegZero = (x \<le> 0)"
| "double_le NegZero (Finite y) = (0 \<le> y)"
| "double_le NegZero NegZero = True"

text \<open>The greatest relative error of one rounding.\<close>

definition unit_roundoff :: real where
  "unit_roundoff = 1 / 2 ^ 53"

text \<open>The value that a report prints under a label.\<close>

fun stat_value :: "string \<Rightarrow> event list \<Rightarrow> double option" where
  "stat_value label [] = None"
| "stat_value label (Cout (StatLine l v u) # es) =
     (if l = label then Some v else stat_value label es)"
| "stat_value label (e # es) = stat_value label es"

text \<open>
  The words of the specification about size tokens: a list of tokens is written with commas
  between them, a suffix stands for a power of 1024, and a token contributes either its
  value or the diagnostic that names it.
\<close>

fun join_commas :: "string list \<Rightarrow> string" where
  "join_commas [] = []"
| "join_commas [t] = t"
| "join_commas (t # u # ts) = t @ CHR '','' # join_commas (u # ts)"

definition suffix_table :: "(string \<times> nat) list" where
  "suffix_table =
     [('''', 0), (''K'', 1), (''k'', 1), (''M'', 2), (''m'', 2), (''G'', 3), (''g'', 3)]"

definition item_result :: "string \<Rightarrow> 'a::len word list \<times> diagnostic list" where
  "item_result item =
     (case parse_item item of Inr v \<Rightarrow> ([v], []) | Inl e \<Rightarrow> ([], [InvalidSize item]))"

text \<open>
  The digits that a token starts with: in the token without a final letter K, M or G (in
  either case), after any white space and after one sign.  And the tokens of a list that
  are read at all: a last token that is empty (nothing after the final comma, or an empty
  list) is not.
\<close>

definition number_part :: "string \<Rightarrow> string" where
  "number_part item =
     (if item \<noteq> [] \<and> last item \<in> set ''KkMmGg'' then butlast item else item)"

definition unsigned_part :: "string \<Rightarrow> string" where
  "unsigned_part s =
     (case dropWhile isspace_c s of
        [] \<Rightarrow> []
      | c # cs \<Rightarrow> if c = CHR ''-'' \<or> c = CHR ''+'' then cs else c # cs)"

definition leading_digits :: "string \<Rightarrow> string" where
  "leading_digits item = takeWhile isdigit_c (unsigned_part (number_part item))"

definition tokens_read :: "string list \<Rightarrow> string list" where
  "tokens_read ts = (if ts \<noteq> [] \<and> last ts = [] then butlast ts else ts)"

text \<open>
  The value given to the last \<^verbatim>\<open>--sizes\<close> option of a command line that consists of
  options with one value each.
\<close>

fun sizes_arg :: "string list \<Rightarrow> string option" where
  "sizes_arg (opt # val # rest) =
     (case sizes_arg rest of
        Some s \<Rightarrow> Some s
      | None \<Rightarrow> if opt = ''--sizes'' then Some val else None)"
| "sizes_arg args = None"

section \<open>Properties of the size catalog\<close>

lemma set_filter_loop:
  "set (filter_loop ss M xs) =
     (set xs - {s \<in> set ss. M div 4 < s}) \<union> {s \<in> set ss. s \<le> M div 4}"
  by (induction ss arbitrary: xs) auto

lemma count_list_removeAll:
  "count_list (removeAll s xs) x = (if x = s then 0 else count_list xs x)"
  by (induction xs) auto

lemma count_filter_loop:
  "x \<notin> set ss \<Longrightarrow> count_list (filter_loop ss M xs) x = count_list xs x"
  by (induction ss arbitrary: xs) (auto simp: count_list_removeAll)

lemma count_list_sort: "count_list (sort xs) x = count_list xs x"
proof -
  have "count (mset (sort xs)) x = count (mset xs) x"
    by simp
  then show ?thesis
    by (simp only: count_mset)
qed

lemma distinct_filter_loop: "distinct xs \<Longrightarrow> distinct (filter_loop ss M xs)"
  by (induction ss arbitrary: xs) (auto simp: distinct_removeAll)

lemma filter_static_member:
  "S \<in> set staticSizes \<Longrightarrow>
     S \<in> set (filter_static_sizes_by_gpu_memory szs M) \<longleftrightarrow> S \<le> M div 4"
  by (auto simp: filter_static_sizes_by_gpu_memory_def set_filter_loop)

lemma set_filter_static_subset:
  "set (filter_static_sizes_by_gpu_memory szs M) \<subseteq> set szs \<union> set staticSizes"
  by (auto simp: filter_static_sizes_by_gpu_memory_def set_filter_loop)

lemma strict_sorted_filter_static:
  "distinct szs \<Longrightarrow> sorted_wrt (<) (filter_static_sizes_by_gpu_memory szs M)"
  by (simp add: strict_sorted_iff filter_static_sizes_by_gpu_memory_def distinct_filter_loop)

text \<open>
  C10.  Whatever the input list and the memory total, the filter neither removes nor adds a
  size outside the standard set: such a size occurs in the output as often as in the input,
  so every non-standard size of the input is still in the output.
\<close>

theorem filter_keeps_non_standard:
  assumes "x \<notin> set staticSizes"
  shows "count_list (filter_static_sizes_by_gpu_memory szs M) x = count_list szs x
         \<and> (x \<in> set szs \<longrightarrow> x \<in> set (filter_static_sizes_by_gpu_memory szs M))"
proof -
  have count: "count_list (filter_static_sizes_by_gpu_memory szs M) x = count_list szs x"
    using assms
    by (simp add: filter_static_sizes_by_gpu_memory_def count_list_sort count_filter_loop)
  moreover have "x \<in> set (filter_static_sizes_by_gpu_memory szs M)" if "x \<in> set szs"
  proof -
    from that have "count_list szs x \<noteq> 0"
      using count_list_0_iff [of szs x] by simp
    with count have "count_list (filter_static_sizes_by_gpu_memory szs M) x \<noteq> 0"
      by simp
    then show ?thesis
      using count_list_0_iff [of "filter_static_sizes_by_gpu_memory szs M" x] by simp
  qed
  ultimately show ?thesis
    by blast
qed

theorem filter_keeps_non_standard_witness:
  "(7 :: 64 word) \<notin> set staticSizes
   \<and> count_list (filter_static_sizes_by_gpu_memory [5, 7, 1048576, 7] (4194304 :: 64 word)) 7 = 2
   \<and> 7 \<in> set (filter_static_sizes_by_gpu_memory [5, 7, 1048576, 7] (4194304 :: 64 word))"
proof -
  have h: "(7 :: 64 word) \<notin> set staticSizes"
    by (simp add: staticSizes_def)
  show ?thesis
    using h filter_keeps_non_standard [OF h, of "[5, 7, 1048576, 7]" 4194304]
    by simp
qed

text \<open>
  On a build with a 64-bit \<^verbatim>\<open>size_t\<close> the conversion of the memory total in \<^verbatim>\<open>main\<close>
  changes nothing, so the catalog of a run without \<^verbatim>\<open>--sizes\<close> holds a standard size if and
  only if it is at most a quarter of the total; with a total of 2 GiB (Scenario B) the
  catalog is 512 KiB, 1 MiB, 10 MiB, 100 MiB and 512 MiB.
\<close>

lemma le_quarter_64:
  fixes S M :: "64 word"
  shows "S \<le> M div 4 \<longleftrightarrow> unat S \<le> unat M div 4"
  by (simp add: word_le_nat_alt unat_div)

lemma final_sizes_member_64:
  fixes cfg :: "64 word config"
  assumes "\<not> userSpecifiedSizes cfg" and "S \<in> set staticSizes"
  shows "S \<in> set (final_sizes cfg rt) \<longleftrightarrow> unat S \<le> unat (gpuMemSize rt) div 4"
  using assms by (simp add: final_sizes_def filter_static_member le_quarter_64)

lemma scenario_B_64:
  "final_sizes (initial_config :: 64 word config) runtime_2GiB =
     [524288, 1048576, 10485760, 104857600, 536870912]"
  by (simp add: final_sizes_def initial_config_def runtime_2GiB_def runtime_ok_def
      filter_static_sizes_by_gpu_memory_def default_sizes_def staticSizes_def)

section \<open>Properties of the argument loop\<close>

text \<open>The second equation of \<open>parse_args\<close> with the five guarded conditions named.\<close>

lemma parse_args_unfold:
  "parse_args (arg # rest) cfg tr = R \<Longrightarrow>
   cr = (arg = ''--rounds'' \<and> rest \<noteq> []) \<Longrightarrow> cs = (arg = ''--sizes'' \<and> rest \<noteq> []) \<Longrightarrow>
   cd = (arg = ''--direction'' \<and> rest \<noteq> []) \<Longrightarrow> cu = (arg = ''--unit'' \<and> rest \<noteq> []) \<Longrightarrow>
   cv = (arg = ''--device'' \<and> rest \<noteq> []) \<Longrightarrow>
     (if arg = ''--help'' then Stop (Exit 0) (tr @ [Cout HelpText])
      else if arg = ''--version'' then Stop (Exit 0) (tr @ [Cout VersionLine])
      else if cr then
        (case stoi (hd rest) of
           Inl e \<Rightarrow> Stop (Terminate e) tr
         | Inr n \<Rightarrow> parse_args (tl rest) (cfg\<lparr>rounds := n\<rparr>) tr)
      else if cs then
        (case parse_sizes (hd rest) of
           (result, diags) \<Rightarrow>
             parse_args (tl rest) (cfg\<lparr>sizes := result, userSpecifiedSizes := True\<rparr>)
               (tr @ map Cerr diags))
      else if cd then
        (case parse_direction (hd rest) of
           Inl d \<Rightarrow> Stop (Exit 1) (tr @ [Cerr d])
         | Inr dir \<Rightarrow> parse_args (tl rest) (cfg\<lparr>direction := dir\<rparr>) tr)
      else if cu then
        (case parse_unit (hd rest) of
           Inl d \<Rightarrow> Stop (Exit 1) (tr @ [Cerr d])
         | Inr u \<Rightarrow> parse_args (tl rest) (cfg\<lparr>unit := u\<rparr>) tr)
      else if cv then
        (case stoi (hd rest) of
           Inl e \<Rightarrow> Stop (Terminate e) tr
         | Inr n \<Rightarrow> parse_args (tl rest) (cfg\<lparr>targetDevice := n\<rparr>) tr)
      else Stop (Exit 1) (tr @ [Cerr (UnknownArgument arg), Cout HelpText])) = R"
  by (simp only: parse_args.simps)

text \<open>Without \<^verbatim>\<open>--sizes\<close> the argument loop leaves \<^verbatim>\<open>sizes\<close> as it was.\<close>

lemma parse_args_default_sizes:
  "parse_args args cfg tr = Proceed cfg' tr' \<Longrightarrow> \<not> userSpecifiedSizes cfg' \<Longrightarrow>
     sizes cfg' = sizes cfg \<and> \<not> userSpecifiedSizes cfg"
proof (induction args cfg tr rule: parse_args.induct)
  case (1 cfg tr)
  then show ?case by simp
next
  case (2 arg rest cfg tr)
  define cr where "cr \<longleftrightarrow> arg = ''--rounds'' \<and> rest \<noteq> []"
  define cs where "cs \<longleftrightarrow> arg = ''--sizes'' \<and> rest \<noteq> []"
  define cd where "cd \<longleftrightarrow> arg = ''--direction'' \<and> rest \<noteq> []"
  define cu where "cu \<longleftrightarrow> arg = ''--unit'' \<and> rest \<noteq> []"
  define cv where "cv \<longleftrightarrow> arg = ''--device'' \<and> rest \<noteq> []"
  note conds = cr_def cs_def cd_def cu_def cv_def
  note IH = "2.IH" [folded conds]
  note run = parse_args_unfold [OF "2.prems"(1) conds]
  show ?case
    using run "2.prems"(2) IH
    by (simp split: if_split_asm sum.split_asm prod.split_asm)
qed

lemma parse_loop_diags:
  "\<exists>ts. snd (parse_loop items r d) = d @ map InvalidSize ts"
proof (induction items arbitrary: r d)
  case Nil
  show ?case by simp
next
  case (Cons item items)
  show ?case
  proof (cases "parse_item item :: exn + 'a word")
    case (Inl e)
    from Cons [of r "d @ [InvalidSize item]"] obtain ts
      where "snd (parse_loop items r (d @ [InvalidSize item]))
               = (d @ [InvalidSize item]) @ map InvalidSize ts"
      by blast
    then have "snd (parse_loop (item # items) r d) = d @ map InvalidSize (item # ts)"
      using Inl by simp
    then show ?thesis by blast
  next
    case (Inr v)
    then show ?thesis using Cons [of "r @ [v]" d] by simp
  qed
qed

text \<open>All that a completed argument loop has written are diagnostics about size items.\<close>

lemma parse_args_trace:
  "parse_args args cfg tr = Proceed cfg' tr' \<Longrightarrow>
     \<exists>items. tr' = tr @ map (\<lambda>item. Cerr (InvalidSize item)) items"
proof (induction args cfg tr rule: parse_args.induct)
  case (1 cfg tr)
  then show ?case by simp
next
  case (2 arg rest cfg tr)
  define cr where "cr \<longleftrightarrow> arg = ''--rounds'' \<and> rest \<noteq> []"
  define cs where "cs \<longleftrightarrow> arg = ''--sizes'' \<and> rest \<noteq> []"
  define cd where "cd \<longleftrightarrow> arg = ''--direction'' \<and> rest \<noteq> []"
  define cu where "cu \<longleftrightarrow> arg = ''--unit'' \<and> rest \<noteq> []"
  define cv where "cv \<longleftrightarrow> arg = ''--device'' \<and> rest \<noteq> []"
  note conds = cr_def cs_def cd_def cu_def cv_def
  note IH = "2.IH" [folded conds]
  note run = parse_args_unfold [OF "2.prems"(1) conds]
  show ?case
  proof (cases cs)
    case True
    obtain result :: "'a word list" and diags where ps: "parse_sizes (hd rest) = (result, diags)"
      by (cases "parse_sizes (hd rest) :: 'a word list \<times> diagnostic list") blast
    from parse_loop_diags [of "getline_items [] (hd rest)" "[] :: 'a word list" "[]"] ps
    obtain ts where ts: "diags = map InvalidSize ts"
      by (auto simp: parse_sizes_def)
    from run True ps have "arg \<noteq> ''--help''" "arg \<noteq> ''--version''" "\<not> cr"
      and rec: "parse_args (tl rest) (cfg\<lparr>sizes := result, userSpecifiedSizes := True\<rparr>)
             (tr @ map Cerr diags) = Proceed cfg' tr'"
      by (simp_all split: if_split_asm add: conds)
    from IH(2) [OF this(1,2,3) True ps [symmetric] rec] obtain items
      where "tr' = (tr @ map Cerr diags) @ map (\<lambda>item. Cerr (InvalidSize item)) items"
      by blast
    then have "tr' = tr @ map (\<lambda>item. Cerr (InvalidSize item)) (ts @ items)"
      using ts by simp
    then show ?thesis by blast
  next
    case False
    then show ?thesis
      using run IH(1,3,4,5)
      by (simp split: if_split_asm sum.split_asm)
  qed
qed

lemmas parse_defs = initial_config_def parse_sizes_def parse_item_def stoull_def stoi_def
  isspace_c_def isdigit_c_def decimal_def digit_val_def parse_direction_def parse_unit_def
  tolower_c_def Let_def

section \<open>The catalog handed to the transfer loop\<close>

lemma distinct_default_sizes_64: "distinct (default_sizes :: 64 word list)"
  by (simp add: default_sizes_def)

lemma distinct_default_sizes_32: "distinct (default_sizes :: 32 word list)"
  by (simp add: default_sizes_def)

lemma positive_sizes_64: "\<forall>s \<in> set (default_sizes :: 64 word list) \<union> set staticSizes. 0 < s"
  by (simp add: default_sizes_def staticSizes_def)

lemma positive_sizes_32: "\<forall>s \<in> set (default_sizes :: 32 word list) \<union> set staticSizes. 0 < s"
  by (simp add: default_sizes_def staticSizes_def)

lemma default_catalog:
  fixes cfg :: "'a::len word config"
  assumes parse: "parse_args args initial_config [] = Proceed cfg tr"
    and user: "\<not> userSpecifiedSizes cfg"
    and dist: "distinct (default_sizes :: 'a word list)"
    and pos: "\<forall>s \<in> set (default_sizes :: 'a word list) \<union> set staticSizes. 0 < s"
  shows "sorted_wrt (<) (final_sizes cfg rt) \<and> (\<forall>s \<in> set (final_sizes cfg rt). 0 < s)"
proof -
  from parse_args_default_sizes [OF parse user] have szs: "sizes cfg = default_sizes"
    by (simp add: initial_config_def)
  have fin: "final_sizes cfg rt =
      filter_static_sizes_by_gpu_memory default_sizes (ucast (gpuMemSize rt))"
    using user szs by (simp add: final_sizes_def)
  have "sorted_wrt (<) (final_sizes cfg rt)"
    unfolding fin using dist by (rule strict_sorted_filter_static)
  moreover have "\<forall>s \<in> set (final_sizes cfg rt). 0 < s"
    unfolding fin using pos set_filter_static_subset [of default_sizes "ucast (gpuMemSize rt)"]
    by blast
  ultimately show ?thesis
    by blast
qed

text \<open>
  C3, as stated, fails for user-specified sizes: after \<^verbatim>\<open>--sizes 2M,1M,1M,0\<close> device
  discovery succeeds on a machine with one GPU and the transfer loop is handed the list
  2097152, 1048576, 1048576, 0, which is not ascending, holds a duplicate and holds 0.
\<close>

theorem user_sizes_counterexample:
  "parse_args [''--sizes'', ''2M,1M,1M,0''] (initial_config :: 64 word config) []
     = Proceed config_user_sizes []
   \<and> fst (discover config_user_sizes runtime_ok \<lparr>ncalls = 0, trace = []\<rparr>) = None
   \<and> final_sizes config_user_sizes runtime_ok = [2097152, 1048576, 1048576, 0]
   \<and> \<not> sorted (final_sizes config_user_sizes runtime_ok)
   \<and> \<not> distinct (final_sizes config_user_sizes runtime_ok)
   \<and> 0 \<in> set (final_sizes config_user_sizes runtime_ok)"
proof -
  have "parse_args [''--sizes'', ''2M,1M,1M,0''] (initial_config :: 64 word config) []
     = Proceed config_user_sizes []"
    by (simp add: parse_defs config_user_sizes_def)
  moreover have "fst (discover config_user_sizes runtime_ok \<lparr>ncalls = 0, trace = []\<rparr>) = None"
    by (simp add: discover_def CHECK_def cl_def emit_def runtime_ok_def success_status_def
        config_user_sizes_def Let_def)
  moreover have "final_sizes config_user_sizes runtime_ok = [2097152, 1048576, 1048576, 0]"
    by (simp add: final_sizes_def config_user_sizes_def)
  ultimately show ?thesis
    by simp
qed

text \<open>
  The argument loop sets \<^verbatim>\<open>sizes\<close> and \<^verbatim>\<open>userSpecifiedSizes\<close> for \<^verbatim>\<open>--sizes\<close> only: when it
  completes, \<^verbatim>\<open>sizes\<close> is what \<^verbatim>\<open>parse_sizes\<close> returns for the value of the last \<^verbatim>\<open>--sizes\<close>
  option, or is unchanged if there is none.
\<close>

lemma parse_args_sizes_arg:
  "parse_args args cfg tr = Proceed cfg' tr' \<Longrightarrow>
     (case sizes_arg args of
        None \<Rightarrow> sizes cfg' = sizes cfg \<and> userSpecifiedSizes cfg' = userSpecifiedSizes cfg
      | Some str \<Rightarrow> sizes cfg' = fst (parse_sizes str) \<and> userSpecifiedSizes cfg')"
proof (induction args cfg tr rule: parse_args.induct)
  case (1 cfg tr)
  then show ?case by simp
next
  case (2 arg rest cfg tr)
  define cr where "cr \<longleftrightarrow> arg = ''--rounds'' \<and> rest \<noteq> []"
  define cs where "cs \<longleftrightarrow> arg = ''--sizes'' \<and> rest \<noteq> []"
  define cd where "cd \<longleftrightarrow> arg = ''--direction'' \<and> rest \<noteq> []"
  define cu where "cu \<longleftrightarrow> arg = ''--unit'' \<and> rest \<noteq> []"
  define cv where "cv \<longleftrightarrow> arg = ''--device'' \<and> rest \<noteq> []"
  note conds = cr_def cs_def cd_def cu_def cv_def
  note IH = "2.IH" [folded conds]
  note run = parse_args_unfold [OF "2.prems"(1) conds]
  show ?case
  proof (cases rest)
    case Nil
    with run show ?thesis
      by (simp add: conds split: if_split_asm)
  next
    case (Cons val rest')
    have sa: "sizes_arg (arg # rest) =
        (case sizes_arg rest' of
           Some s \<Rightarrow> Some s
         | None \<Rightarrow> if cs then Some val else None)"
      using Cons by (simp add: cs_def)
    have other: "\<not> cs" if "cr \<or> cd \<or> cu \<or> cv"
      using that by (auto simp: conds)
    show ?thesis
      unfolding sa
      using run IH other Cons
      by (simp split: if_split_asm sum.split_asm prod.split_asm option.splits)
  qed
qed

text \<open>
  C3, amended.  For every run without \<^verbatim>\<open>--sizes\<close> that gets past the argument loop, on a
  64-bit and on a 32-bit build and whatever the memory total, the catalog handed to the
  transfer loop is strictly ascending (ordered and free of duplicates) and each of its
  entries is greater than 0.  For every run with \<^verbatim>\<open>--sizes\<close> that gets past the argument
  loop, the catalog is the list that \<^verbatim>\<open>parse_sizes\<close> returns for the value of the last
  \<^verbatim>\<open>--sizes\<close> option, as it is.
\<close>

theorem default_catalog_strictly_ascending:
  "(parse_args args64 (initial_config :: 64 word config) [] = Proceed cfg64 tr64
      \<and> \<not> userSpecifiedSizes cfg64 \<longrightarrow>
    sorted_wrt (<) (final_sizes cfg64 rt) \<and> (\<forall>s \<in> set (final_sizes cfg64 rt). 0 < s))
   \<and> (parse_args args32 (initial_config :: 32 word config) [] = Proceed cfg32 tr32
      \<and> \<not> userSpecifiedSizes cfg32 \<longrightarrow>
    sorted_wrt (<) (final_sizes cfg32 rt) \<and> (\<forall>s \<in> set (final_sizes cfg32 rt). 0 < s))
   \<and> (parse_args args (initial_config :: 'a::len word config) [] = Proceed cfg tr
      \<and> userSpecifiedSizes cfg \<longrightarrow>
    (\<exists>str. sizes_arg args = Some str \<and> final_sizes cfg rt = fst (parse_sizes str)))"
proof -
  have "\<exists>str. sizes_arg args = Some str \<and> final_sizes cfg rt = fst (parse_sizes str)"
    if "parse_args args (initial_config :: 'a word config) [] = Proceed cfg tr"
      and "userSpecifiedSizes cfg"
    using parse_args_sizes_arg [OF that(1)] that(2)
    by (auto simp: final_sizes_def initial_config_def split: option.splits)
  then show ?thesis
    using default_catalog [of args64 cfg64 tr64 rt, OF _ _ distinct_default_sizes_64 positive_sizes_64]
      default_catalog [of args32 cfg32 tr32 rt, OF _ _ distinct_default_sizes_32 positive_sizes_32]
    by blast
qed

theorem default_catalog_strictly_ascending_witness:
  "parse_args [''--rounds'', ''3''] (initial_config :: 64 word config) []
     = Proceed (initial_config\<lparr>rounds := 3\<rparr>) []
   \<and> \<not> userSpecifiedSizes (initial_config\<lparr>rounds := 3\<rparr> :: 64 word config)
   \<and> sorted_wrt (<) (final_sizes (initial_config\<lparr>rounds := 3\<rparr> :: 64 word config) runtime_2GiB)
   \<and> list_all (\<lambda>s. 0 < s)
        (final_sizes (initial_config\<lparr>rounds := 3\<rparr> :: 64 word config) runtime_2GiB)
   \<and> parse_args [''--unit'', ''mb''] (initial_config :: 32 word config) []
     = Proceed (initial_config\<lparr>unit := MBps\<rparr>) []
   \<and> \<not> userSpecifiedSizes (initial_config\<lparr>unit := MBps\<rparr> :: 32 word config)
   \<and> sorted_wrt (<) (final_sizes (initial_config\<lparr>unit := MBps\<rparr> :: 32 word config) runtime_2GiB)
   \<and> parse_args [''--sizes'', ''7'', ''--sizes'', ''2M,1M,1M,0''] (initial_config :: 64 word config) []
     = Proceed config_user_sizes []
   \<and> userSpecifiedSizes config_user_sizes
   \<and> sizes_arg [''--sizes'', ''7'', ''--sizes'', ''2M,1M,1M,0''] = Some ''2M,1M,1M,0''
   \<and> (fst (parse_sizes ''2M,1M,1M,0'') :: 64 word list) = [2097152, 1048576, 1048576, 0]
   \<and> final_sizes config_user_sizes runtime_2GiB = [2097152, 1048576, 1048576, 0]"
proof -
  have p64: "parse_args [''--rounds'', ''3''] (initial_config :: 64 word config) []
     = Proceed (initial_config\<lparr>rounds := 3\<rparr>) []"
    by (simp add: parse_defs)
  have p32: "parse_args [''--unit'', ''mb''] (initial_config :: 32 word config) []
     = Proceed (initial_config\<lparr>unit := MBps\<rparr>) []"
    by (simp add: parse_defs)
  have pus: "parse_args [''--sizes'', ''7'', ''--sizes'', ''2M,1M,1M,0'']
      (initial_config :: 64 word config) [] = Proceed config_user_sizes []"
    by (simp add: parse_defs config_user_sizes_def)
  have u64: "\<not> userSpecifiedSizes (initial_config\<lparr>rounds := 3\<rparr> :: 64 word config)"
    and u32: "\<not> userSpecifiedSizes (initial_config\<lparr>unit := MBps\<rparr> :: 32 word config)"
    and us: "userSpecifiedSizes config_user_sizes"
    by (simp_all add: initial_config_def config_user_sizes_def)
  have ps: "(fst (parse_sizes ''2M,1M,1M,0'') :: 64 word list) = [2097152, 1048576, 1048576, 0]"
    by (simp add: parse_defs)
  note inst = default_catalog_strictly_ascending
      [of "[''--rounds'', ''3'']" "initial_config\<lparr>rounds := 3\<rparr>" "[]" runtime_2GiB
          "[''--unit'', ''mb'']" "initial_config\<lparr>unit := MBps\<rparr>" "[]"
          "[''--sizes'', ''7'', ''--sizes'', ''2M,1M,1M,0'']" config_user_sizes "[]"]
  show ?thesis
    using p64 p32 pus u64 u32 us ps inst
    by (simp add: list_all_iff)
qed

section \<open>Properties of the size parser\<close>

lemma getline_items_comma_free:
  "CHR '','' \<notin> set t \<Longrightarrow> getline_items acc (t @ rest) = getline_items (acc @ t) rest"
  by (induction t arbitrary: acc) auto

lemma getline_items_last:
  "CHR '','' \<notin> set t \<Longrightarrow> getline_items acc t = (if acc @ t = [] then [] else [acc @ t])"
  using getline_items_comma_free [of t acc "[]"] by simp

text \<open>
  The items that \<^verbatim>\<open>std::getline\<close> yields for tokens written with commas between them are
  these tokens, apart from a last token that is empty.
\<close>

lemma getline_items_join:
  "\<forall>t \<in> set ts. CHR '','' \<notin> set t \<Longrightarrow> getline_items [] (join_commas ts) = tokens_read ts"
proof (induction ts rule: join_commas.induct)
  case 1
  show ?case by (simp add: tokens_read_def)
next
  case (2 t)
  then show ?case by (simp add: getline_items_last tokens_read_def)
next
  case (3 t u ts)
  then show ?case by (simp add: getline_items_comma_free tokens_read_def)
qed

lemma parse_loop_item_results:
  fixes r :: "'a::len word list"
  shows "parse_loop items r d =
     (r @ concat (map (fst \<circ> (item_result :: string \<Rightarrow> 'a word list \<times> diagnostic list)) items),
      d @ concat (map (snd \<circ> (item_result :: string \<Rightarrow> 'a word list \<times> diagnostic list)) items))"
  by (induction items arbitrary: r d) (auto simp: item_result_def split: sum.splits)

lemma digit_facts:
  "isdigit_c c \<Longrightarrow> \<not> isspace_c c \<and> c \<noteq> CHR ''-'' \<and> c \<noteq> CHR ''+''
     \<and> c \<noteq> CHR ''K'' \<and> c \<noteq> CHR ''k'' \<and> c \<noteq> CHR ''M'' \<and> c \<noteq> CHR ''m''
     \<and> c \<noteq> CHR ''G'' \<and> c \<noteq> CHR ''g''"
  by (auto simp: isdigit_c_def isspace_c_def)

lemma stoull_digits:
  assumes "ds \<noteq> []" and "\<forall>c \<in> set ds. isdigit_c c" and "decimal ds < 2 ^ 64"
  shows "stoull ds = Inr (word_of_nat (decimal ds))"
proof -
  obtain c cs where ds: "ds = c # cs"
    using assms(1) by (cases ds) auto
  with assms(2) have c: "isdigit_c c"
    by simp
  have tw: "takeWhile isdigit_c ds = ds"
    using assms(2) by (simp add: takeWhile_eq_all_conv)
  show ?thesis
    using digit_facts [OF c] assms(3) tw
    by (simp add: stoull_def ds Let_def)
qed

text \<open>
  \<^verbatim>\<open>std::stoull\<close> throws exactly when no digit follows the white space and the sign, or
  when the digits denote a number that does not fit 64 bits; and a token is dropped with
  the diagnostic exactly when \<^verbatim>\<open>std::stoull\<close> throws on its number part.
\<close>

lemma stoull_throws_iff:
  "(\<exists>e. stoull str = Inl e) \<longleftrightarrow>
     takeWhile isdigit_c (unsigned_part str) = []
     \<or> 2 ^ 64 \<le> decimal (takeWhile isdigit_c (unsigned_part str))"
proof -
  define s1 where "s1 = dropWhile isspace_c str"
  have u: "(if s1 \<noteq> [] \<and> (hd s1 = CHR ''-'' \<or> hd s1 = CHR ''+'') then tl s1 else s1)
      = unsigned_part str"
    by (cases s1) (simp_all add: unsigned_part_def s1_def [symmetric])
  have "stoull str =
     (if takeWhile isdigit_c (unsigned_part str) = [] then Inl invalid_argument
      else if 2 ^ 64 \<le> decimal (takeWhile isdigit_c (unsigned_part str)) then Inl out_of_range
      else Inr (if s1 \<noteq> [] \<and> hd s1 = CHR ''-''
                then - word_of_nat (decimal (takeWhile isdigit_c (unsigned_part str)))
                else word_of_nat (decimal (takeWhile isdigit_c (unsigned_part str)))))"
    unfolding stoull_def Let_def s1_def [symmetric] u by (rule refl)
  then show ?thesis
    by (simp split: if_splits)
qed

lemma parse_item_number_part:
  "(\<exists>e. (parse_item item :: exn + 'a::len word) = Inl e)
     \<longleftrightarrow> (\<exists>e. stoull (number_part item) = Inl e)"
  by (auto simp: parse_item_def number_part_def Let_def split: sum.splits if_splits)

lemma item_dropped_iff:
  "(item_result item :: 'a::len word list \<times> diagnostic list) = ([], [InvalidSize item]) \<longleftrightarrow>
     leading_digits item = [] \<or> 2 ^ 64 \<le> decimal (leading_digits item)"
proof -
  have "(item_result item :: 'a word list \<times> diagnostic list) = ([], [InvalidSize item]) \<longleftrightarrow>
      (\<exists>e. (parse_item item :: exn + 'a word) = Inl e)"
    by (auto simp: item_result_def split: sum.splits)
  then show ?thesis
    by (simp only: parse_item_number_part stoull_throws_iff leading_digits_def)
qed

lemma item_result_cases:
  "(\<exists>v. (item_result item :: 'a::len word list \<times> diagnostic list) = ([v], []))
   \<or> (item_result item :: 'a word list \<times> diagnostic list) = ([], [InvalidSize item])"
  by (auto simp: item_result_def split: sum.splits)

lemma ucast_word_of_nat:
  "n < 2 ^ 64 \<Longrightarrow> (ucast (word_of_nat n :: 64 word) :: 'a::len word) = word_of_nat n"
  by (simp add: unsigned_of_nat take_bit_nat_eq_self)

lemma parse_item_value:
  assumes ds: "ds \<noteq> []" "\<forall>c \<in> set ds. isdigit_c c"
    and suf: "(suf, k) \<in> set suffix_table"
    and width: "LENGTH('a::len) \<le> 64"
    and range: "decimal ds * 1024 ^ k < 2 ^ LENGTH('a)"
  shows "(parse_item (ds @ suf) :: exn + 'a word) = Inr (word_of_nat (decimal ds * 1024 ^ k))
     \<and> unat (word_of_nat (decimal ds * 1024 ^ k) :: 'a word) = decimal ds * 1024 ^ k"
proof -
  have "decimal ds \<le> decimal ds * 1024 ^ k"
    by simp
  also have "\<dots> < 2 ^ LENGTH('a)"
    by (rule range)
  also have "(2 :: nat) ^ LENGTH('a) \<le> 2 ^ 64"
    using width by (intro power_increasing) simp_all
  finally have small: "decimal ds < 2 ^ 64" .
  note st = stoull_digits [OF ds small]
  have last_digit: "isdigit_c (last ds)"
    using ds by simp
  note ld = digit_facts [OF last_digit]
  have "(parse_item (ds @ suf) :: exn + 'a word) = Inr (word_of_nat (decimal ds * 1024 ^ k))"
    using suf ds(1) st ld
    by (auto simp: suffix_table_def parse_item_def Let_def ucast_word_of_nat [OF small])
  moreover have "unat (word_of_nat (decimal ds * 1024 ^ k) :: 'a word) = decimal ds * 1024 ^ k"
    using range by (simp only: unat_of_nat mod_less)
  ultimately show ?thesis
    by blast
qed

text \<open>
  C2, as stated, fails in four ways.  The malformed token \<^verbatim>\<open>10MB\<close> is not dropped: its last
  character is no suffix and \<^verbatim>\<open>std::stoull\<close> converts the leading digits, so it yields 10
  without any diagnostic.  The token \<^verbatim>\<open>-5\<close> is neither dropped nor valued as its number:
  \<^verbatim>\<open>std::stoull\<close> negates in the unsigned type.  The well-formed token \<^verbatim>\<open>17179869184G\<close>
  on a 64-bit build yields 0, not \<open>17179869184 * 1024 ^ 3 = 2 ^ 64\<close>: the product wraps
  around.  And the empty token at the end of \<^verbatim>\<open>1M,\<close>, like the empty token that is the
  whole of an empty list, is dropped without a diagnostic: \<^verbatim>\<open>std::getline\<close> does not yield
  it.
\<close>

theorem parse_sizes_counterexample:
  "(parse_sizes ''10MB'' :: 64 word list \<times> diagnostic list) = ([10], [])
   \<and> (parse_sizes ''-5'' :: 64 word list \<times> diagnostic list) = ([18446744073709551611], [])
   \<and> (parse_sizes ''17179869184G'' :: 64 word list \<times> diagnostic list) = ([0], [])
   \<and> decimal ''17179869184'' * 1024 ^ 3 = 2 ^ 64
   \<and> join_commas [''1M'', []] = ''1M,''
   \<and> (parse_sizes ''1M,'' :: 64 word list \<times> diagnostic list) = ([1048576], [])
   \<and> join_commas [[]] = []
   \<and> (parse_sizes [] :: 64 word list \<times> diagnostic list) = ([], [])"
  by (simp add: parse_defs)

text \<open>
  C2, amended.  On a build whose \<^verbatim>\<open>size_t\<close> has at most 64 bits:
  \<^item> a token that consists of a decimal integer \<open>N\<close> (the digits \<open>ds\<close>) and an optional
    suffix K, M or G in either case contributes the byte value \<open>N * 1024 ^ k\<close> with
    \<open>k = 0, 1, 2, 3\<close> for no suffix, K, M, G, and no diagnostic, provided this value is
    below \<open>2 ^ LENGTH('a)\<close>, that is, fits \<^verbatim>\<open>size_t\<close>;
  \<^item> a token in which no number can be read (without its suffix letter, and after any
    white space and one sign, it does not start with a digit: \<^verbatim>\<open>abc\<close>, the empty token,
    \<^verbatim>\<open>-x\<close>, \<^verbatim>\<open>+\<close>, \<^verbatim>\<open>K\<close>), and a token whose digits denote a number of \<open>2 ^ 64\<close> or more,
    contributes no value and the diagnostic that names it;
  \<^item> every token contributes either one value and no diagnostic, or no value and the
    diagnostic that names it;
  \<^item> \<^verbatim>\<open>parse_sizes\<close> of tokens written with commas between them is the values and the
    diagnostics that the tokens contribute one by one, in order, except that a last token
    that is empty contributes nothing: no token aborts or affects the others.
\<close>

theorem parse_sizes_tokens:
  "(ds \<noteq> [] \<and> (\<forall>c \<in> set ds. isdigit_c c) \<and> (suf, k) \<in> set suffix_table
      \<and> LENGTH('a::len) \<le> 64 \<and> decimal ds * 1024 ^ k < 2 ^ LENGTH('a) \<longrightarrow>
    (item_result (ds @ suf) :: 'a word list \<times> diagnostic list)
      = ([word_of_nat (decimal ds * 1024 ^ k)], [])
    \<and> unat (word_of_nat (decimal ds * 1024 ^ k) :: 'a word) = decimal ds * 1024 ^ k)
   \<and> (leading_digits item = [] \<or> 2 ^ 64 \<le> decimal (leading_digits item) \<longrightarrow>
    (item_result item :: 'a word list \<times> diagnostic list) = ([], [InvalidSize item]))
   \<and> ((\<exists>v. (item_result item :: 'a word list \<times> diagnostic list) = ([v], []))
      \<or> (item_result item :: 'a word list \<times> diagnostic list) = ([], [InvalidSize item]))
   \<and> ((\<forall>t \<in> set ts. CHR '','' \<notin> set t) \<longrightarrow>
    (parse_sizes (join_commas ts) :: 'a word list \<times> diagnostic list)
      = (concat (map (fst \<circ> (item_result :: string \<Rightarrow> 'a word list \<times> diagnostic list))
                  (tokens_read ts)),
         concat (map (snd \<circ> (item_result :: string \<Rightarrow> 'a word list \<times> diagnostic list))
                  (tokens_read ts))))"
proof (intro conjI impI)
  assume a: "ds \<noteq> [] \<and> (\<forall>c \<in> set ds. isdigit_c c) \<and> (suf, k) \<in> set suffix_table
      \<and> LENGTH('a) \<le> 64 \<and> decimal ds * 1024 ^ k < 2 ^ LENGTH('a)"
  then have v: "(parse_item (ds @ suf) :: exn + 'a word) = Inr (word_of_nat (decimal ds * 1024 ^ k))
     \<and> unat (word_of_nat (decimal ds * 1024 ^ k) :: 'a word) = decimal ds * 1024 ^ k"
    by (intro parse_item_value) simp_all
  from v show "(item_result (ds @ suf) :: 'a word list \<times> diagnostic list)
      = ([word_of_nat (decimal ds * 1024 ^ k)], [])"
    by (simp add: item_result_def)
  from v show "unat (word_of_nat (decimal ds * 1024 ^ k) :: 'a word) = decimal ds * 1024 ^ k"
    by simp
next
  assume "leading_digits item = [] \<or> 2 ^ 64 \<le> decimal (leading_digits item)"
  then show "(item_result item :: 'a word list \<times> diagnostic list) = ([], [InvalidSize item])"
    by (simp only: item_dropped_iff)
next
  show "(\<exists>v. (item_result item :: 'a word list \<times> diagnostic list) = ([v], []))
      \<or> (item_result item :: 'a word list \<times> diagnostic list) = ([], [InvalidSize item])"
    by (rule item_result_cases)
next
  assume "\<forall>t \<in> set ts. CHR '','' \<notin> set t"
  then have "getline_items [] (join_commas ts) = tokens_read ts"
    by (rule getline_items_join)
  then show "(parse_sizes (join_commas ts) :: 'a word list \<times> diagnostic list)
      = (concat (map (fst \<circ> (item_result :: string \<Rightarrow> 'a word list \<times> diagnostic list))
                  (tokens_read ts)),
         concat (map (snd \<circ> (item_result :: string \<Rightarrow> 'a word list \<times> diagnostic list))
                  (tokens_read ts)))"
    by (simp add: parse_sizes_def parse_loop_item_results)
qed

theorem parse_sizes_tokens_witness:
  "''10'' \<noteq> [] \<and> list_all isdigit_c ''10'' \<and> (''M'', 2) \<in> set suffix_table
   \<and> LENGTH(64) \<le> 64 \<and> decimal ''10'' * 1024 ^ 2 < 2 ^ LENGTH(64)
   \<and> (item_result ''10M'' :: 64 word list \<times> diagnostic list) = ([10485760], [])
   \<and> unat (10485760 :: 64 word) = 10 * 1024 ^ 2
   \<and> leading_digits '' -xK'' = []
   \<and> (item_result '' -xK'' :: 64 word list \<times> diagnostic list) = ([], [InvalidSize '' -xK''])
   \<and> leading_digits ''18446744073709551616'' = ''18446744073709551616''
   \<and> 2 ^ 64 \<le> decimal ''18446744073709551616''
   \<and> (item_result ''18446744073709551616'' :: 64 word list \<times> diagnostic list)
       = ([], [InvalidSize ''18446744073709551616''])
   \<and> list_all (\<lambda>t. CHR '','' \<notin> set t) [''1M'', ''abc'', [], ''512k'', []]
   \<and> tokens_read [''1M'', ''abc'', [], ''512k'', []] = [''1M'', ''abc'', [], ''512k'']
   \<and> join_commas [''1M'', ''abc'', [], ''512k'', []] = ''1M,abc,,512k,''
   \<and> (parse_sizes ''1M,abc,,512k,'' :: 64 word list \<times> diagnostic list)
       = ([1048576, 524288], [InvalidSize ''abc'', InvalidSize []])"
proof -
  have h1: "''10'' \<noteq> [] \<and> (\<forall>c \<in> set ''10''. isdigit_c c) \<and> (''M'', 2) \<in> set suffix_table
      \<and> LENGTH(64) \<le> 64 \<and> decimal ''10'' * 1024 ^ 2 < 2 ^ LENGTH(64)"
    by (simp add: isdigit_c_def suffix_table_def decimal_def digit_val_def)
  have h2: "leading_digits '' -xK'' = []"
    by (simp add: leading_digits_def number_part_def unsigned_part_def isspace_c_def
        isdigit_c_def)
  have h3: "leading_digits ''18446744073709551616'' = ''18446744073709551616''"
    "2 ^ 64 \<le> decimal ''18446744073709551616''"
    by (simp_all add: leading_digits_def number_part_def unsigned_part_def isspace_c_def
        isdigit_c_def decimal_def digit_val_def)
  have h4: "\<forall>t \<in> set [''1M'', ''abc'', [], ''512k'', []]. CHR '','' \<notin> set t"
    by simp
  have tr: "tokens_read [''1M'', ''abc'', [], ''512k'', []] = [''1M'', ''abc'', [], ''512k'']"
    by (simp add: tokens_read_def)
  have d: "decimal ''10'' = 10"
    by (simp add: decimal_def digit_val_def)
  have items: "(item_result ''1M'' :: 64 word list \<times> diagnostic list) = ([1048576], [])"
    "(item_result ''abc'' :: 64 word list \<times> diagnostic list) = ([], [InvalidSize ''abc''])"
    "(item_result [] :: 64 word list \<times> diagnostic list) = ([], [InvalidSize []])"
    "(item_result ''512k'' :: 64 word list \<times> diagnostic list) = ([524288], [])"
    by (simp_all add: item_result_def parse_defs)
  note inst = parse_sizes_tokens [where ?'a = "64" and ds = "''10''" and suf = "''M''" and k = 2
      and ts = "[''1M'', ''abc'', [], ''512k'', []]"]
  from inst [of "'' -xK''"] h1 have c1:
    "(item_result ''10M'' :: 64 word list \<times> diagnostic list) = ([10485760], [])"
    by (simp add: d)
  from inst [of "'' -xK''"] h2 have c2:
    "(item_result '' -xK'' :: 64 word list \<times> diagnostic list) = ([], [InvalidSize '' -xK''])"
    by blast
  from h3 have "2 ^ 64 \<le> decimal (leading_digits ''18446744073709551616'')"
    by (simp only:)
  with inst [of "''18446744073709551616''"] have c3:
    "(item_result ''18446744073709551616'' :: 64 word list \<times> diagnostic list)
       = ([], [InvalidSize ''18446744073709551616''])"
    by blast
  from inst [of "'' -xK''"] h4 have c4:
    "(parse_sizes ''1M,abc,,512k,'' :: 64 word list \<times> diagnostic list)
       = ([1048576, 524288], [InvalidSize ''abc'', InvalidSize []])"
    by (simp add: items tr)
  show ?thesis
    using h1 h2 h3 h4 tr c1 c2 c3 c4 by (simp add: list_all_iff)
qed

section \<open>Errors on the command line\<close>

text \<open>
  C9: the claim is right and the code misses it.  \<^verbatim>\<open>std::stoi\<close> throws on a value that is
  not a number or does not fit \<^verbatim>\<open>int\<close>, and \<^verbatim>\<open>main\<close> has no handler around the two calls
  (unlike \<^verbatim>\<open>parse_sizes\<close>, which catches, and \<^verbatim>\<open>parse_direction\<close> and \<^verbatim>\<open>parse_unit\<close>, which
  print and \<^verbatim>\<open>exit(1)\<close>).  The process is terminated through \<^verbatim>\<open>std::terminate\<close> before it has
  written anything: no diagnostic of the program and no exit code 1.
\<close>

theorem non_numeric_rounds_terminates:
  "main TYPE('a::len) [''gpu-pcie-bench'', ''--rounds'', ''abc''] rt
     = (Terminate invalid_argument, [])
   \<and> main TYPE('a) [''gpu-pcie-bench'', ''--device'', ''x1''] rt
     = (Terminate invalid_argument, [])
   \<and> main TYPE('a) [''gpu-pcie-bench'', ''--rounds'', ''99999999999''] rt
     = (Terminate out_of_range, [])"
  by (simp add: main_def parse_defs)

section \<open>Properties of device discovery and of the empty catalog\<close>

lemma discover_result:
  assumes "discover cfg rt w = (r, w')"
  shows "(r = None \<or> r = Some (Exit 1))
     \<and> (\<exists>es. trace w' = trace w @ es \<and> (\<forall>e \<in> set es. \<not> is_buffer_or_transfer e))
     \<and> (r = None \<longrightarrow> trace w' = trace w @
           [Cout CpuLine, Call clGetPlatformIDs, Call clGetPlatformIDs, Call clGetDeviceIDs,
            Call clGetDeviceIDs, Call clGetDeviceInfo, Call clGetDeviceInfo, Call clGetDeviceInfo,
            Cout (GpuLine (unat (gpuMemSize rt div (1024 * 1024))))])"
  using assms
  by (auto simp: discover_def CHECK_def cl_def emit_def Let_def split: if_splits)

lemma size_diagnostic_not_buffer:
  "\<forall>e \<in> set (map (\<lambda>item. Cerr (InvalidSize item)) items).
      is_size_diagnostic e \<and> \<not> is_buffer_or_transfer e"
  by simp

text \<open>
  C7.  Take any run whose argument loop completes and whose catalog, after the filter, is
  empty.  Then the process ends with exit code 1 and its trace holds no buffer allocation,
  mapping or transfer.  If the run gets through device discovery, and so reaches the check
  of the catalog, then all it has written to \<^verbatim>\<open>std::cerr\<close> before are diagnostics about
  size items, and the trace ends with the diagnostic \<open>NoBufferSizesFit\<close>, which is not the
  report of a failed OpenCL call (\<open>CheckFailed\<close>) nor of a missing platform or device.
\<close>

theorem empty_catalog_exits_before_transfers:
  fixes cfg :: "'a::len word config"
  assumes parse: "parse_args (drop 1 argv) initial_config [] = Proceed cfg tr"
    and empty: "final_sizes cfg rt = []"
  shows "fst (main TYPE('a) argv rt) = Exit 1
     \<and> (\<forall>e \<in> set (snd (main TYPE('a) argv rt)). \<not> is_buffer_or_transfer e)
     \<and> (fst (discover cfg rt \<lparr>ncalls = 0, trace = tr\<rparr>) = None \<longrightarrow>
          (\<forall>e \<in> set tr. is_size_diagnostic e)
          \<and> snd (main TYPE('a) argv rt) = tr @
              [Cout CpuLine, Call clGetPlatformIDs, Call clGetPlatformIDs, Call clGetDeviceIDs,
               Call clGetDeviceIDs, Call clGetDeviceInfo, Call clGetDeviceInfo,
               Call clGetDeviceInfo, Cout (GpuLine (unat (gpuMemSize rt div (1024 * 1024)))),
               Cerr NoBufferSizesFit])"
proof -
  obtain r w where disc: "discover cfg rt \<lparr>ncalls = 0, trace = tr\<rparr> = (r, w)"
    by (cases "discover cfg rt \<lparr>ncalls = 0, trace = tr\<rparr>") blast
  note d = discover_result [OF disc]
  from parse_args_trace [OF parse] obtain items
    where tr: "tr = map (\<lambda>item. Cerr (InvalidSize item)) items"
    by auto
  have tr_ok: "\<forall>e \<in> set tr. is_size_diagnostic e \<and> \<not> is_buffer_or_transfer e"
    unfolding tr by (rule size_diagnostic_not_buffer)
  from d obtain es where es: "trace w = tr @ es" "\<forall>e \<in> set es. \<not> is_buffer_or_transfer e"
    by auto
  have m: "main TYPE('a) argv rt =
      (if r = None then (Exit 1, trace w @ [Cerr NoBufferSizesFit]) else (Exit 1, trace w))"
    using d parse disc empty
    by (auto simp: main_def run_def emit_def)
  show ?thesis
    using m d tr_ok es disc
    by auto
qed

text \<open>Scenario D: a GPU of 1 MiB and no \<^verbatim>\<open>--sizes\<close>.\<close>

theorem empty_catalog_exits_before_transfers_witness:
  "parse_args (drop 1 [''gpu-pcie-bench'']) (initial_config :: 64 word config) []
     = Proceed initial_config []
   \<and> final_sizes (initial_config :: 64 word config) runtime_1MiB = []
   \<and> fst (discover (initial_config :: 64 word config) runtime_1MiB \<lparr>ncalls = 0, trace = []\<rparr>)
       = None
   \<and> fst (main TYPE(64) [''gpu-pcie-bench''] runtime_1MiB) = Exit 1
   \<and> snd (main TYPE(64) [''gpu-pcie-bench''] runtime_1MiB) =
       [Cout CpuLine, Call clGetPlatformIDs, Call clGetPlatformIDs, Call clGetDeviceIDs,
        Call clGetDeviceIDs, Call clGetDeviceInfo, Call clGetDeviceInfo, Call clGetDeviceInfo,
        Cout (GpuLine 1), Cerr NoBufferSizesFit]"
proof -
  have p: "parse_args (drop 1 [''gpu-pcie-bench'']) (initial_config :: 64 word config) []
     = Proceed initial_config []"
    by simp
  have e: "final_sizes (initial_config :: 64 word config) runtime_1MiB = []"
    by (simp add: final_sizes_def initial_config_def runtime_1MiB_def runtime_ok_def
        filter_static_sizes_by_gpu_memory_def default_sizes_def staticSizes_def)
  have d: "fst (discover (initial_config :: 64 word config) runtime_1MiB
                  \<lparr>ncalls = 0, trace = []\<rparr>) = None"
    by (simp add: discover_def CHECK_def cl_def emit_def runtime_1MiB_def runtime_ok_def
        success_status_def initial_config_def Let_def)
  have g: "unat (gpuMemSize runtime_1MiB div 1048576) = Suc 0"
    by (simp add: runtime_1MiB_def runtime_ok_def)
  show ?thesis
    using p e d empty_catalog_exits_before_transfers [OF p e]
    by (simp add: g)
qed

section \<open>The memory total on a build with a 32-bit \<^verbatim>\<open>size_t\<close>\<close>

lemma discover_ok_32:
  "discover (initial_config :: 32 word config) runtime_ok \<lparr>ncalls = 0, trace = []\<rparr> =
     (None,
      \<lparr>ncalls = 7,
       trace = [Cout CpuLine, Call clGetPlatformIDs, Call clGetPlatformIDs, Call clGetDeviceIDs,
                Call clGetDeviceIDs, Call clGetDeviceInfo, Call clGetDeviceInfo,
                Call clGetDeviceInfo, Cout (GpuLine 8192)]\<rparr>)"
  by (simp add: discover_def CHECK_def cl_def emit_def runtime_ok_def success_status_def
      initial_config_def CL_SUCCESS_def Let_def)

lemma final_sizes_8GiB:
  "final_sizes (initial_config :: 32 word config) runtime_ok = []"
  "final_sizes (initial_config :: 64 word config) runtime_ok =
     [524288, 1048576, 10485760, 104857600, 536870912, 1073741824, 2147483648]"
  by (simp_all add: final_sizes_def initial_config_def runtime_ok_def
      filter_static_sizes_by_gpu_memory_def default_sizes_def staticSizes_def)

text \<open>
  C5: the claim is right and the code misses it on a build whose \<^verbatim>\<open>size_t\<close> has 32 bits.
  The memory total is a \<^verbatim>\<open>cl_ulong\<close>, and \<^verbatim>\<open>main\<close> prints it in full (line 303) but hands
  \<^verbatim>\<open>static_cast<size_t>(gpuMemSize)\<close> to the filter.  Run without \<^verbatim>\<open>--sizes\<close> on a GPU of
  8 GiB, the total reaches the filter as 0: although each of the five standard sizes of
  this build is at most a quarter of the total, none is kept, and the run ends with ``No
  buffer sizes fit'' and exit code 1.  On a 64-bit build the same run keeps every standard
  size up to 2 GiB.
\<close>

theorem truncated_memory_total:
  "main TYPE(32) [''gpu-pcie-bench''] runtime_ok =
     (Exit 1,
      [Cout CpuLine, Call clGetPlatformIDs, Call clGetPlatformIDs, Call clGetDeviceIDs,
       Call clGetDeviceIDs, Call clGetDeviceInfo, Call clGetDeviceInfo, Call clGetDeviceInfo,
       Cout (GpuLine 8192), Cerr NoBufferSizesFit])
   \<and> (staticSizes :: 32 word list) = [524288, 1048576, 10485760, 104857600, 536870912]
   \<and> unat (gpuMemSize runtime_ok) div 4 = 2147483648
   \<and> list_all (\<lambda>S. unat S \<le> unat (gpuMemSize runtime_ok) div 4) (staticSizes :: 32 word list)
   \<and> final_sizes (initial_config :: 32 word config) runtime_ok = []
   \<and> final_sizes (initial_config :: 64 word config) runtime_ok =
        [524288, 1048576, 10485760, 104857600, 536870912, 1073741824, 2147483648]"
proof -
  have "main TYPE(32) [''gpu-pcie-bench''] runtime_ok =
     (Exit 1,
      [Cout CpuLine, Call clGetPlatformIDs, Call clGetPlatformIDs, Call clGetDeviceIDs,
       Call clGetDeviceIDs, Call clGetDeviceInfo, Call clGetDeviceInfo, Call clGetDeviceInfo,
       Cout (GpuLine 8192), Cerr NoBufferSizesFit])"
    by (simp add: main_def run_def discover_ok_32 final_sizes_8GiB emit_def)
  moreover have "(staticSizes :: 32 word list) = [524288, 1048576, 10485760, 104857600, 536870912]"
    by (simp add: staticSizes_def)
  moreover have "unat (gpuMemSize runtime_ok) div 4 = 2147483648"
    by (simp add: runtime_ok_def)
  moreover have "list_all (\<lambda>S. unat S \<le> unat (gpuMemSize runtime_ok) div 4)
      (staticSizes :: 32 word list)"
    by (simp add: staticSizes_def runtime_ok_def)
  ultimately show ?thesis
    using final_sizes_8GiB by blast
qed

section \<open>Properties of double-precision arithmetic\<close>

lemma round_even_of_int: "round_even (of_int n) = n"
  by (simp add: round_even_def)

lemma round_even_mono: "y \<le> z \<Longrightarrow> round_even y \<le> round_even z"
proof -
  assume yz: "y \<le> z"
  then have fl: "\<lfloor>y\<rfloor> \<le> \<lfloor>z\<rfloor>"
    by (rule floor_mono)
  show ?thesis
  proof (cases "\<lfloor>y\<rfloor> = \<lfloor>z\<rfloor>")
    case True
    with yz show ?thesis
      by (auto simp: round_even_def Let_def)
  next
    case False
    with fl have "\<lfloor>y\<rfloor> + 1 \<le> \<lfloor>z\<rfloor>"
      by simp
    moreover have "round_even y \<le> \<lfloor>y\<rfloor> + 1"
      by (simp add: round_even_def Let_def)
    moreover have "\<lfloor>z\<rfloor> \<le> round_even z"
      by (simp add: round_even_def Let_def)
    ultimately show ?thesis
      by linarith
  qed
qed

lemma round_even_minus: "round_even (- y) = - round_even y"
proof (cases "y \<in> \<int>")
  case True
  then obtain n where "y = of_int n"
    by (auto elim: Ints_cases)
  then have "- y = of_int (- n)"
    by simp
  then show ?thesis
    using \<open>y = of_int n\<close> by (simp only: round_even_of_int)
next
  case False
  then have ne: "y \<noteq> of_int \<lfloor>y\<rfloor>"
    by (metis Ints_of_int)
  then have fl: "\<lfloor>- y\<rfloor> = - \<lfloor>y\<rfloor> - 1"
    by (simp add: floor_minus ceiling_altdef)
  show ?thesis
    unfolding round_even_def Let_def fl
    using ne by (auto simp: field_simps)
qed

lemma round_even_ge: "of_int n \<le> y \<Longrightarrow> n \<le> round_even y"
  using round_even_mono [of "of_int n" y] by (simp add: round_even_of_int)

lemma round_even_le: "y \<le> of_int n \<Longrightarrow> round_even y \<le> n"
  using round_even_mono [of y "of_int n"] by (simp add: round_even_of_int)

lemma pow2_pos: "0 < pow2 e"
  by (simp add: pow2_def)

lemma pow2_add: "pow2 (a + b) = pow2 a * pow2 b"
  by (simp add: pow2_def powr_add)

lemma pow2_mono: "a \<le> b \<Longrightarrow> pow2 a \<le> pow2 b"
  by (simp add: pow2_def)

lemma pow2_le_iff: "pow2 a \<le> pow2 b \<longleftrightarrow> a \<le> b"
  by (simp add: pow2_def)

lemma pow2_nat: "pow2 (int n) = 2 ^ n"
  by (simp add: pow2_def powr_realpow)

lemma binade_unique:
  assumes "pow2 k \<le> \<bar>x\<bar>" and "\<bar>x\<bar> < pow2 (k + 1)"
  shows "\<lfloor>log 2 \<bar>x\<bar>\<rfloor> = k" and "x \<noteq> 0"
proof -
  from assms(1) pow2_pos [of k] show "x \<noteq> 0"
    by auto
  then have "0 < \<bar>x\<bar>"
    by simp
  then show "\<lfloor>log 2 \<bar>x\<bar>\<rfloor> = k"
    using assms by (simp add: floor_log_eq_powr_iff pow2_def)
qed

lemma binade_exists:
  assumes "x \<noteq> 0"
  shows "pow2 \<lfloor>log 2 \<bar>x\<bar>\<rfloor> \<le> \<bar>x\<bar> \<and> \<bar>x\<bar> < pow2 (\<lfloor>log 2 \<bar>x\<bar>\<rfloor> + 1)"
  using assms floor_log_eq_powr_iff [of "\<bar>x\<bar>" 2 "\<lfloor>log 2 \<bar>x\<bar>\<rfloor>"]
  by (simp add: pow2_def)

lemma rnd_eqI:
  assumes "pow2 k \<le> \<bar>x\<bar>" and "\<bar>x\<bar> < pow2 (k + 1)"
  shows "rnd x = of_int (round_even (x / pow2 (k - 52))) * pow2 (k - 52)"
  using binade_unique [OF assms] by (simp add: rnd_def)

lemma rnd_0: "rnd 0 = 0"
  by (simp add: rnd_def)

lemma rnd_minus: "rnd (- x) = - rnd x"
  by (simp add: rnd_def round_even_minus)

text \<open>A positive number and its rounding lie in the same closed binade.\<close>

lemma rnd_binade:
  assumes "pow2 k \<le> x" and "x < pow2 (k + 1)"
  shows "pow2 k \<le> rnd x \<and> rnd x \<le> pow2 (k + 1)"
proof -
  have x: "0 < x"
    using assms(1) pow2_pos [of k] by linarith
  then have ax: "\<bar>x\<bar> = x"
    by simp
  note r = rnd_eqI [of k x, unfolded ax, OF assms]
  have u: "0 < pow2 (k - 52)"
    by (rule pow2_pos)
  have lo: "pow2 k = of_int (2 ^ 52) * pow2 (k - 52)"
    using pow2_add [of 52 "k - 52"] pow2_nat [of 52] by simp
  have hi: "pow2 (k + 1) = of_int (2 ^ 53) * pow2 (k - 52)"
    using pow2_add [of 53 "k - 52"] pow2_nat [of 53] by (simp add: add.commute)
  have "of_int (2 ^ 52) \<le> x / pow2 (k - 52)"
    using assms(1) u unfolding lo by (simp add: field_simps)
  then have a: "2 ^ 52 \<le> round_even (x / pow2 (k - 52))"
    by (rule round_even_ge)
  have "x / pow2 (k - 52) \<le> of_int (2 ^ 53)"
    using assms(2) u unfolding hi by (simp add: field_simps)
  then have b: "round_even (x / pow2 (k - 52)) \<le> 2 ^ 53"
    by (rule round_even_le)
  from a have "of_int (2 ^ 52) * pow2 (k - 52) \<le> rnd x"
    unfolding r using u by (intro mult_right_mono) simp_all
  moreover from b have "rnd x \<le> of_int (2 ^ 53) * pow2 (k - 52)"
    unfolding r using u by (intro mult_right_mono) simp_all
  ultimately show ?thesis
    unfolding lo hi by blast
qed

lemma rnd_pos: "0 < x \<Longrightarrow> 0 < rnd x"
proof -
  assume x: "0 < x"
  then have "x \<noteq> 0" and ax: "\<bar>x\<bar> = x"
    by simp_all
  from binade_exists [OF this(1)] rnd_binade [of "\<lfloor>log 2 \<bar>x\<bar>\<rfloor>" x] ax
  have "pow2 \<lfloor>log 2 \<bar>x\<bar>\<rfloor> \<le> rnd x"
    by simp
  with pow2_pos [of "\<lfloor>log 2 \<bar>x\<bar>\<rfloor>"] show ?thesis
    by linarith
qed

lemma rnd_mono_pos:
  assumes "0 < x" and "x \<le> y"
  shows "rnd x \<le> rnd y"
proof -
  define k where "k = \<lfloor>log 2 \<bar>x\<bar>\<rfloor>"
  define l where "l = \<lfloor>log 2 \<bar>y\<bar>\<rfloor>"
  from assms have y: "0 < y"
    by simp
  have bx: "pow2 k \<le> x" "x < pow2 (k + 1)"
    using binade_exists [of x] assms(1) by (simp_all add: k_def)
  have by': "pow2 l \<le> y" "y < pow2 (l + 1)"
    using binade_exists [of y] y by (simp_all add: l_def)
  have kl: "k \<le> l"
    unfolding k_def l_def using assms by (intro floor_mono) simp
  show ?thesis
  proof (cases "k = l")
    case True
    have u: "0 < pow2 (k - 52)"
      by (rule pow2_pos)
    have "x / pow2 (k - 52) \<le> y / pow2 (k - 52)"
      using assms(2) u by (simp add: divide_right_mono)
    then have "round_even (x / pow2 (k - 52)) \<le> round_even (y / pow2 (k - 52))"
      by (rule round_even_mono)
    then have "of_int (round_even (x / pow2 (k - 52))) * pow2 (k - 52)
        \<le> of_int (round_even (y / pow2 (k - 52))) * pow2 (k - 52)"
      using u by (intro mult_right_mono) simp_all
    then show ?thesis
      using rnd_eqI [of k x] rnd_eqI [of k y] bx by' assms(1) y True by simp
  next
    case False
    with kl have "k + 1 \<le> l"
      by simp
    then have "pow2 (k + 1) \<le> pow2 l"
      by (rule pow2_mono)
    with rnd_binade [OF bx] rnd_binade [OF by'] show ?thesis
      by linarith
  qed
qed

lemma rnd_mono: "x \<le> y \<Longrightarrow> rnd x \<le> rnd y"
proof -
  assume xy: "x \<le> y"
  consider "0 < x" | "x \<le> 0" "0 \<le> y" | "y < 0"
    using xy by linarith
  then show ?thesis
  proof cases
    case 1
    then show ?thesis using xy by (rule rnd_mono_pos)
  next
    case 2
    have "rnd x \<le> 0"
    proof (cases "x = 0")
      case True
      then show ?thesis by (simp add: rnd_0)
    next
      case False
      with 2 have "0 < - x" by simp
      from rnd_pos [OF this] show ?thesis by (simp add: rnd_minus)
    qed
    moreover have "0 \<le> rnd y"
    proof (cases "y = 0")
      case True
      then show ?thesis by (simp add: rnd_0)
    next
      case False
      with 2 have "0 < y" by simp
      from rnd_pos [OF this] show ?thesis by simp
    qed
    ultimately show ?thesis by linarith
  next
    case 3
    then have "0 < - y" "- y \<le> - x"
      using xy by simp_all
    from rnd_mono_pos [OF this] show ?thesis
      by (simp add: rnd_minus)
  qed
qed


lemma rnd_scale: "rnd (x * pow2 j) = rnd x * pow2 j"
proof (cases "x = 0")
  case True
  then show ?thesis by (simp add: rnd_0)
next
  case False
  define k where "k = \<lfloor>log 2 \<bar>x\<bar>\<rfloor>"
  have b: "pow2 k \<le> \<bar>x\<bar>" "\<bar>x\<bar> < pow2 (k + 1)"
    using binade_exists [OF False] by (simp_all add: k_def)
  have pj: "0 < pow2 j"
    by (rule pow2_pos)
  have abs: "\<bar>x * pow2 j\<bar> = \<bar>x\<bar> * pow2 j"
    using pj by (simp add: abs_mult)
  have b': "pow2 (k + j) \<le> \<bar>x * pow2 j\<bar>" "\<bar>x * pow2 j\<bar> < pow2 (k + j + 1)"
    using b pj pow2_add [of k j] pow2_add [of "k + 1" j] unfolding abs
    by (simp_all add: add.commute add.left_commute)
  have u: "pow2 (k + j - 52) = pow2 (k - 52) * pow2 j"
    using pow2_add [of "k - 52" j] by (simp add: algebra_simps)
  have "x * pow2 j / pow2 (k + j - 52) = x / pow2 (k - 52)"
    unfolding u using pj by simp
  then show ?thesis
    using rnd_eqI [OF b] rnd_eqI [OF b'] u by simp
qed

lemma rnd_of_int:
  assumes "\<bar>m\<bar> \<le> 2 ^ 53"
  shows "rnd (of_int m) = of_int m"
proof (cases "m = 0")
  case True
  then show ?thesis by (simp add: rnd_0)
next
  case False
  define x :: real where "x = of_int m"
  define k where "k = \<lfloor>log 2 \<bar>x\<bar>\<rfloor>"
  have x0: "x \<noteq> 0"
    using False by (simp add: x_def)
  have b: "pow2 k \<le> \<bar>x\<bar>" "\<bar>x\<bar> < pow2 (k + 1)"
    using binade_exists [OF x0] by (simp_all add: k_def)
  have ax: "\<bar>x\<bar> \<le> 2 ^ 53"
  proof -
    have "\<bar>x\<bar> = of_int \<bar>m\<bar>"
      by (simp add: x_def)
    also have "\<dots> \<le> of_int (2 ^ 53)"
      using assms by (simp only: of_int_le_iff)
    finally show ?thesis by simp
  qed
  have "pow2 k \<le> pow2 53"
    using b(1) ax pow2_nat [of 53] by simp
  then have k53: "k \<le> 53"
    by (simp only: pow2_le_iff)
  show ?thesis
  proof (cases "k \<le> 52")
    case True
    define d where "d = nat (52 - k)"
    have kd: "k - 52 = - int d"
      using True by (simp add: d_def)
    have u: "pow2 (k - 52) = 1 / 2 ^ d"
      unfolding kd pow2_def by (simp add: powr_minus powr_realpow inverse_eq_divide)
    have "x / pow2 (k - 52) = of_int (m * 2 ^ d)"
      unfolding u by (simp add: x_def)
    then have "round_even (x / pow2 (k - 52)) = m * 2 ^ d"
      by (simp only: round_even_of_int)
    then have "rnd x = of_int (m * 2 ^ d) * (1 / 2 ^ d)"
      using rnd_eqI [OF b] u by simp
    then show ?thesis
      by (simp add: x_def)
  next
    case False
    with k53 have k: "k = 53"
      by simp
    have "\<bar>x\<bar> = 2 ^ 53"
      using b(1) ax pow2_nat [of 53] unfolding k by simp
    then have m: "x = 2 ^ 53 \<or> x = - (2 ^ 53)"
      by (simp add: abs_if split: if_splits)
    have u: "pow2 (k - 52) = 2"
      unfolding k pow2_def by simp
    from m have "round_even (x / pow2 (k - 52)) * 2 = \<lfloor>x\<rfloor>"
      unfolding u
    proof
      assume "x = 2 ^ 53"
      then have "x / 2 = of_int (2 ^ 52)" "x = of_int (2 ^ 53)"
        by simp_all
      then show "round_even (x / 2) * 2 = \<lfloor>x\<rfloor>"
        by (simp only: round_even_of_int floor_of_int)
    next
      assume "x = - (2 ^ 53)"
      then have "x / 2 = of_int (- (2 ^ 52))" "x = of_int (- (2 ^ 53))"
        by simp_all
      then show "round_even (x / 2) * 2 = \<lfloor>x\<rfloor>"
        by (simp only: round_even_of_int floor_of_int)
    qed
    moreover have "\<lfloor>x\<rfloor> = m"
      by (simp add: x_def)
    ultimately have "of_int (round_even (x / pow2 (k - 52))) * pow2 (k - 52) = of_int m"
      unfolding u by (metis of_int_mult of_int_numeral)
    then show ?thesis
      using rnd_eqI [OF b] by (simp add: x_def)
  qed
qed

lemma rnd_exact: "\<bar>m\<bar> \<le> 2 ^ 53 \<Longrightarrow> rnd (of_int m * pow2 j) = of_int m * pow2 j"
  by (simp add: rnd_scale rnd_of_int)

lemma rnd_rnd: "rnd (rnd x) = rnd x"
proof (cases "x = 0")
  case True
  then show ?thesis by (simp add: rnd_0)
next
  case False
  define k where "k = \<lfloor>log 2 \<bar>x\<bar>\<rfloor>"
  define n where "n = round_even (x / pow2 (k - 52))"
  have b: "pow2 k \<le> \<bar>x\<bar>" "\<bar>x\<bar> < pow2 (k + 1)"
    using binade_exists [OF False] by (simp_all add: k_def)
  have r: "rnd x = of_int n * pow2 (k - 52)"
    using rnd_eqI [OF b] by (simp add: n_def)
  have u: "0 < pow2 (k - 52)"
    by (rule pow2_pos)
  have hi: "pow2 (k + 1) = of_int (2 ^ 53) * pow2 (k - 52)"
    using pow2_add [of 53 "k - 52"] pow2_nat [of 53] by (simp add: add.commute)
  have "x \<le> of_int (2 ^ 53) * pow2 (k - 52)" "- (of_int (2 ^ 53) * pow2 (k - 52)) \<le> x"
    using b(2) unfolding hi by linarith+
  then have "x / pow2 (k - 52) \<le> of_int (2 ^ 53)" "of_int (- (2 ^ 53)) \<le> x / pow2 (k - 52)"
    using u by (simp_all add: field_simps)
  then have "n \<le> 2 ^ 53" "- (2 ^ 53) \<le> n"
    unfolding n_def by (simp_all only: round_even_le round_even_ge)
  then have "\<bar>n\<bar> \<le> 2 ^ 53"
    by simp
  then show ?thesis
    unfolding r by (rule rnd_exact)
qed

lemma rnd_numeral: "numeral n \<le> (2 ^ 53 :: int) \<Longrightarrow> rnd (numeral n) = numeral n"
  using rnd_of_int [of "numeral n"] by simp

lemma rnd_1: "rnd 1 = 1"
  using rnd_of_int [of 1] by simp

lemma rnd_times_1024: "rnd (x * 1024) = rnd x * 1024"
  using rnd_scale [of x 10] pow2_nat [of 10] by simp

lemma rnd_half: "rnd (x / 2) = rnd x / 2"
  using rnd_scale [of x "- 1"] by (simp add: pow2_def powr_minus inverse_eq_divide)

lemma rnd_eval:
  assumes "pow2 k \<le> \<bar>x\<bar>" and "\<bar>x\<bar> < pow2 (k + 1)"
    and "round_even (x / pow2 (k - 52)) = n"
  shows "rnd x = of_int n * pow2 (k - 52)"
  using rnd_eqI [OF assms(1,2)] assms(3) by simp

lemma round_even_near: "\<bar>real_of_int (round_even y) - y\<bar> \<le> 1 / 2"
  by (auto simp: round_even_def Let_def abs_le_iff)

text \<open>The relative error of rounding is at most \<open>2 ^ - 53\<close>.\<close>

lemma rnd_error: "\<bar>rnd x - x\<bar> \<le> \<bar>x\<bar> / 2 ^ 53"
proof (cases "x = 0")
  case True
  then show ?thesis by (simp add: rnd_0)
next
  case False
  define k where "k = \<lfloor>log 2 \<bar>x\<bar>\<rfloor>"
  define u where "u = pow2 (k - 52)"
  have b: "pow2 k \<le> \<bar>x\<bar>" "\<bar>x\<bar> < pow2 (k + 1)"
    using binade_exists [OF False] by (simp_all add: k_def)
  have u: "0 < u"
    unfolding u_def by (rule pow2_pos)
  have lo: "pow2 k = 2 ^ 52 * u"
    using pow2_add [of 52 "k - 52"] pow2_nat [of 52] by (simp add: u_def)
  have r: "rnd x = of_int (round_even (x / u)) * u"
    using rnd_eqI [OF b] by (simp add: u_def)
  have "rnd x - x = (of_int (round_even (x / u)) - x / u) * u"
    using u by (simp add: r field_simps)
  then have "\<bar>rnd x - x\<bar> = \<bar>of_int (round_even (x / u)) - x / u\<bar> * u"
    using u by (simp add: abs_mult)
  also have "\<dots> \<le> 1 / 2 * u"
    using round_even_near [of "x / u"] u by (intro mult_right_mono) simp_all
  also have "\<dots> = pow2 k / 2 ^ 53"
    by (simp add: lo)
  also have "\<dots> \<le> \<bar>x\<bar> / 2 ^ 53"
    using b(1) by (simp add: divide_right_mono)
  finally show ?thesis .
qed

lemma rnd_bounds:
  assumes "0 \<le> x"
  shows "x * (1 - 1 / 2 ^ 53) \<le> rnd x" and "rnd x \<le> x * (1 + 1 / 2 ^ 53)"
proof -
  from rnd_error [of x] assms have "\<bar>rnd x - x\<bar> \<le> x / 2 ^ 53"
    by simp
  then have "- (x / 2 ^ 53) \<le> rnd x - x" "rnd x - x \<le> x / 2 ^ 53"
    by linarith+
  then show "x * (1 - 1 / 2 ^ 53) \<le> rnd x" and "rnd x \<le> x * (1 + 1 / 2 ^ 53)"
    by (simp_all add: algebra_simps)
qed


lemma unit_roundoff_bounds: "0 < unit_roundoff" "unit_roundoff < 1"
  by (simp_all add: unit_roundoff_def)

lemma rnd_roundoff:
  assumes "0 \<le> x"
  shows "x * (1 - unit_roundoff) \<le> rnd x" and "rnd x \<le> x * (1 + unit_roundoff)"
  using rnd_bounds [OF assms] by (simp_all add: unit_roundoff_def)

lemma rnd_10_10: "rnd 10000000000 = 10000000000"
  by (simp add: rnd_numeral)

lemma sint_less_2_63: "real_of_int (sint (d :: 64 word)) \<le> 2 ^ 63"
proof -
  have "sint d < 2 ^ (LENGTH(64) - 1)"
    by (rule sint_lt)
  then have "sint d \<le> 2 ^ 63"
    by simp
  then have "real_of_int (sint d) \<le> real_of_int (2 ^ 63)"
    by (simp only: of_int_le_iff)
  then show ?thesis
    by simp
qed

text \<open>
  Whatever the two clock readings are, the duration is a double and is below the initial
  value \<open>10 ^ 10\<close> of the minimum.
\<close>

lemma duration_seconds_sample: "is_sample (duration_seconds s e)"
proof -
  have "rnd (real_of_int (sint (e - s))) \<le> rnd (2 ^ 63)"
    by (intro rnd_mono sint_less_2_63)
  also have "rnd (2 ^ 63) = 2 ^ 63"
    using rnd_exact [of 1 63] pow2_nat [of 63] by simp
  finally have "rnd (real_of_int (sint (e - s))) / 10 ^ 9 \<le> 10000000000"
    by simp
  then have "rnd (rnd (real_of_int (sint (e - s))) / 10 ^ 9) \<le> rnd 10000000000"
    by (rule rnd_mono)
  then show ?thesis
    by (simp add: is_sample_def duration_seconds_def rnd_rnd rnd_10_10)
qed

lemma is_sample_1: "is_sample 1"
  by (simp add: is_sample_def rnd_1)

section \<open>Properties of the round loop\<close>

lemma accum_inv_init: "accum_inv init_accum"
  by (simp add: accum_inv_def init_accum_def)

lemma foldl_min_Min: "foldl min a xs = Min (insert a (set xs))" for a :: real
proof (induction xs rule: rev_induct)
  case Nil
  show ?case by simp
next
  case (snoc t xs)
  have "insert a (set (xs @ [t])) = insert t (insert a (set xs))"
    by auto
  with snoc show ?case
    by (simp add: min.commute)
qed

lemma foldl_max_Max: "foldl max a xs = Max (insert a (set xs))" for a :: real
proof (induction xs rule: rev_induct)
  case Nil
  show ?case by simp
next
  case (snoc t xs)
  have "insert a (set (xs @ [t])) = insert t (insert a (set xs))"
    by auto
  with snoc show ?case
    by (simp add: max.commute)
qed

text \<open>
  \<^verbatim>\<open>measure\<close> always returns a value, also when the transfer fails, and the value is a
  double that is at most \<open>10 ^ 10\<close>.
\<close>

lemma measure_transfer_sample:
  assumes "measure_transfer rt sz wr w = (t, w')"
  shows "is_sample t"
  using assms duration_seconds_sample is_sample_1
  by (auto simp: measure_transfer_def cl_def CHECK_def var_def emit_def Let_def
      split: if_splits)

text \<open>
  One iteration: every active direction appends exactly one value to its samples, and the
  accumulators follow.
\<close>

lemma round_body_accum:
  assumes "round_body cfg rt ds i acc w = (acc', w')" and "accum_inv acc"
  shows "accum_inv acc'"
    and "length (seenH2D acc') = length (seenH2D acc)
           + (if direction cfg = HostToDevice \<or> direction cfg = Both then 1 else 0)"
    and "length (seenD2H acc') = length (seenD2H acc)
           + (if direction cfg = DeviceToHost \<or> direction cfg = Both then 1 else 0)"
proof -
  have "accum_inv acc'
    \<and> length (seenH2D acc') = length (seenH2D acc)
           + (if direction cfg = HostToDevice \<or> direction cfg = Both then 1 else 0)
    \<and> length (seenD2H acc') = length (seenD2H acc)
           + (if direction cfg = DeviceToHost \<or> direction cfg = Both then 1 else 0)"
  proof (cases "direction cfg")
    case HostToDevice
    with assms show ?thesis
      by (auto simp: round_body_def accum_inv_def Let_def split: prod.splits
          dest: measure_transfer_sample)
  next
    case DeviceToHost
    with assms show ?thesis
      by (auto simp: round_body_def accum_inv_def Let_def split: prod.splits
          dest: measure_transfer_sample)
  next
    case Both
    with assms show ?thesis
      by (auto simp: round_body_def accum_inv_def Let_def split: prod.splits
          dest: measure_transfer_sample)
  qed
  then show "accum_inv acc'"
    and "length (seenH2D acc') = length (seenH2D acc)
           + (if direction cfg = HostToDevice \<or> direction cfg = Both then 1 else 0)"
    and "length (seenD2H acc') = length (seenD2H acc)
           + (if direction cfg = DeviceToHost \<or> direction cfg = Both then 1 else 0)"
    by blast+
qed

lemma round_loop_accum:
  "round_loop cfg rt ds i acc w = (acc', w') \<Longrightarrow> accum_inv acc \<Longrightarrow>
     accum_inv acc'
     \<and> length (seenH2D acc') = length (seenH2D acc)
           + (if direction cfg = HostToDevice \<or> direction cfg = Both then nat (rounds cfg - i) else 0)
     \<and> length (seenD2H acc') = length (seenD2H acc)
           + (if direction cfg = DeviceToHost \<or> direction cfg = Both then nat (rounds cfg - i) else 0)"
proof (induction cfg rt ds i acc w rule: round_loop.induct)
  case (1 cfg rt ds i acc w)
  show ?case
  proof (cases "i < rounds cfg")
    case False
    with "1.prems" show ?thesis
      by (simp add: round_loop.simps [of cfg rt ds i])
  next
    case True
    obtain acc1 w1 where body: "round_body cfg rt ds i acc w = (acc1, w1)"
      by (cases "round_body cfg rt ds i acc w") blast
    with True "1.prems"(1) have rest: "round_loop cfg rt ds (i + 1) acc1 w1 = (acc', w')"
      by (simp add: round_loop.simps [of cfg rt ds i])
    note b = round_body_accum [OF body "1.prems"(2)]
    from "1.IH" [OF True body [symmetric] rest b(1)] b(2,3) True
    show ?thesis
      by (auto simp: nat_diff_distrib)
  qed
qed

lemma measure_transfer_calls:
  assumes "measure_transfer rt sz wr w = (t, w')"
  shows "length (filter is_write_call (trace w'))
           = length (filter is_write_call (trace w)) + (if wr then 1 else 0)
    \<and> length (filter is_read_call (trace w'))
           = length (filter is_read_call (trace w)) + (if wr then 0 else 1)"
  using assms
  by (auto simp: measure_transfer_def cl_def CHECK_def var_def emit_def Let_def split: if_splits)

lemma round_body_calls:
  assumes "round_body cfg rt ds i acc w = (acc', w')"
  shows "length (filter is_write_call (trace w')) = length (filter is_write_call (trace w))
           + (if direction cfg = HostToDevice \<or> direction cfg = Both then 1 else 0)
    \<and> length (filter is_read_call (trace w')) = length (filter is_read_call (trace w))
           + (if direction cfg = DeviceToHost \<or> direction cfg = Both then 1 else 0)"
proof (cases "direction cfg")
  case HostToDevice
  with assms show ?thesis
    by (auto simp: round_body_def Let_def emit_def split: prod.splits
        dest!: measure_transfer_calls)
next
  case DeviceToHost
  with assms show ?thesis
    by (auto simp: round_body_def Let_def emit_def split: prod.splits
        dest!: measure_transfer_calls)
next
  case Both
  with assms show ?thesis
    by (auto simp: round_body_def Let_def emit_def split: prod.splits
        dest!: measure_transfer_calls)
qed

lemma round_loop_calls:
  "round_loop cfg rt ds i acc w = (acc', w') \<Longrightarrow>
     length (filter is_write_call (trace w')) = length (filter is_write_call (trace w))
       + (if direction cfg = HostToDevice \<or> direction cfg = Both then nat (rounds cfg - i) else 0)
     \<and> length (filter is_read_call (trace w')) = length (filter is_read_call (trace w))
       + (if direction cfg = DeviceToHost \<or> direction cfg = Both then nat (rounds cfg - i) else 0)"
proof (induction cfg rt ds i acc w rule: round_loop.induct)
  case (1 cfg rt ds i acc w)
  show ?case
  proof (cases "i < rounds cfg")
    case False
    with "1.prems" show ?thesis
      by (simp add: round_loop.simps [of cfg rt ds i])
  next
    case True
    obtain acc1 w1 where body: "round_body cfg rt ds i acc w = (acc1, w1)"
      by (cases "round_body cfg rt ds i acc w") blast
    with True "1.prems"(1) have rest: "round_loop cfg rt ds (i + 1) acc1 w1 = (acc', w')"
      by (simp add: round_loop.simps [of cfg rt ds i])
    from "1.IH" [OF True body [symmetric] rest] round_body_calls [OF body] True
    show ?thesis
      by (auto simp: nat_diff_distrib)
  qed
qed

text \<open>The durations that the clocks of the examples give.\<close>

lemma duration_examples:
  "duration_seconds 0 1000000000 = 1"
  "duration_seconds 2000000000 1000000000 = - 1"
  "duration_seconds 0 0 = 0"
  "duration_seconds 0 4000000000 = 4"
  "duration_seconds 0 2000000000 = 2"
  "duration_seconds 0 8000000000 = 8"
  by (simp_all add: duration_seconds_def rnd_numeral rnd_1 rnd_0 rnd_minus)

lemma doubling_examples:
  "doubling 0 = 1000000000"
  "doubling (Suc (Suc 0)) = 2000000000"
  "doubling (Suc (Suc (Suc (Suc 0)))) = 4000000000"
  "doubling (Suc (Suc (Suc (Suc (Suc (Suc 0)))))) = 8000000000"
proof -
  have "doubling 0 = 1000000000" "doubling 2 = 2000000000"
    "doubling 4 = 4000000000" "doubling 6 = 8000000000"
    by (simp_all add: doubling_def)
  then show "doubling 0 = 1000000000"
    "doubling (Suc (Suc 0)) = 2000000000"
    "doubling (Suc (Suc (Suc (Suc 0)))) = 4000000000"
    "doubling (Suc (Suc (Suc (Suc (Suc (Suc 0)))))) = 8000000000"
    by (simp_all add: eval_nat_numeral)
qed

lemma rnd_examples:
  "rnd (1 / 1024) = 1 / 1024" "rnd (1 / 2048) = 1 / 2048"
  "rnd (1 / 4096) = 1 / 4096" "rnd (1 / 8192) = 1 / 8192"
  using rnd_exact [of 1 "- 10"] rnd_exact [of 1 "- 11"] rnd_exact [of 1 "- 12"]
    rnd_exact [of 1 "- 13"]
  by (simp_all add: pow2_def powr_neg_numeral)

lemmas run_defs = round_body_def measure_transfer_def cl_def CHECK_def var_def emit_def
  runtime_ok_def success_status_def clock_zero_def one_second_def init_accum_def Let_def
  duration_examples rnd_numeral rnd_1 rnd_0 rnd_minus

lemma round_loop_h2d_3:
  "round_loop config_h2d_3 runtime_ok 1048576 0 init_accum \<lparr>ncalls = 0, trace = []\<rparr>
     = (accum_h2d_3, world_h2d_3)"
proof -
  have cfg: "rounds config_h2d_3 = 3" "direction config_h2d_3 = HostToDevice"
    by (simp_all add: config_h2d_3_def)
  show ?thesis
    by (simp add: round_loop.simps [of _ _ _ 0] round_loop.simps [of _ _ _ 1]
        round_loop.simps [of _ _ _ 2] round_loop.simps [of _ _ _ 3] run_defs cfg
        accum_h2d_3_def world_h2d_3_def)
qed

text \<open>
  C8.  For every buffer size, runtime and configuration, the round loop entered with
  \<open>i = 0\<close> and fresh accumulators takes exactly \<^verbatim>\<open>rounds\<close> samples for each active
  direction (\<open>nat\<close> of it: none when \<^verbatim>\<open>rounds\<close> is not positive) and none for an inactive
  one, and it enqueues as many write and read transfers.  This holds whether or not a
  transfer fails.
\<close>

theorem round_loop_sample_counts:
  assumes "round_loop cfg rt dataSize 0 init_accum w = (acc, w')"
  shows "length (seenH2D acc)
           = (if direction cfg = HostToDevice \<or> direction cfg = Both then nat (rounds cfg) else 0)
     \<and> length (seenD2H acc)
           = (if direction cfg = DeviceToHost \<or> direction cfg = Both then nat (rounds cfg) else 0)
     \<and> length (filter is_write_call (trace w')) = length (filter is_write_call (trace w))
           + (if direction cfg = HostToDevice \<or> direction cfg = Both then nat (rounds cfg) else 0)
     \<and> length (filter is_read_call (trace w')) = length (filter is_read_call (trace w))
           + (if direction cfg = DeviceToHost \<or> direction cfg = Both then nat (rounds cfg) else 0)"
  using round_loop_accum [OF assms accum_inv_init] round_loop_calls [OF assms]
  by (simp add: init_accum_def)

text \<open>Scenario C: \<^verbatim>\<open>--direction host2dev --rounds 3\<close> on a buffer of 1 MiB.\<close>

theorem round_loop_sample_counts_witness:
  "round_loop config_h2d_3 runtime_ok 1048576 0 init_accum \<lparr>ncalls = 0, trace = []\<rparr>
     = (accum_h2d_3, world_h2d_3)
   \<and> direction config_h2d_3 = HostToDevice \<and> rounds config_h2d_3 = 3
   \<and> length (seenH2D accum_h2d_3) = 3
   \<and> length (seenD2H accum_h2d_3) = 0
   \<and> length (filter is_write_call (trace world_h2d_3)) = 3
   \<and> length (filter is_read_call (trace world_h2d_3)) = 0"
  using round_loop_sample_counts [OF round_loop_h2d_3] round_loop_h2d_3
  by (simp add: config_h2d_3_def)

section \<open>Properties of the report\<close>

lemma config_both_once_simps:
  "rounds config_both_once = 1"
  "direction config_both_once = Both"
  "unit config_both_once = GBps"
  by (simp_all add: config_both_once_def)

lemma config_both_twice_simps:
  "rounds config_both_twice = 2"
  "direction config_both_twice = Both"
  "unit config_both_twice = GBps"
  by (simp_all add: config_both_twice_def)

lemma round_loop_doubling:
  "round_loop config_both_twice runtime_doubling 1048576 0 init_accum \<lparr>ncalls = 0, trace = []\<rparr>
     = (accum_doubling, world_both_twice)"
  by (simp add: round_loop.simps [of _ _ _ 0] round_loop.simps [of _ _ _ 1]
      round_loop.simps [of _ _ _ 2] run_defs config_both_twice_simps runtime_doubling_def
      doubling_examples accum_doubling_def world_both_twice_def)

lemma round_loop_set_back:
  "round_loop config_both_once runtime_set_back 1048576 0 init_accum \<lparr>ncalls = 0, trace = []\<rparr>
     = (accum_set_back, world_both_once)"
  by (simp add: round_loop.simps [of _ _ _ 0] round_loop.simps [of _ _ _ 1] run_defs
      config_both_once_simps runtime_set_back_def two_seconds_def accum_set_back_def
      world_both_once_def)

lemma convert_examples:
  "convert GBps (1048576 :: 64 word) (Finite 1) = Finite (1 / 1024)"
  "convert GBps (1048576 :: 64 word) (Finite 2) = Finite (1 / 2048)"
  "convert GBps (1048576 :: 64 word) (Finite 4) = Finite (1 / 4096)"
  "convert GBps (1048576 :: 64 word) (Finite 8) = Finite (1 / 8192)"
  "convert GBps (1048576 :: 64 word) (Finite (- 1)) = Finite (- (1 / 1024))"
  "convert GBps (1048576 :: 64 word) (Finite 0) = PlusInf"
  by (simp_all add: convert_def rnd_numeral rnd_1 rnd_0 rnd_minus rnd_examples)

text \<open>
  C4, as stated, fails when the clock is set back while a transfer is under way, so that
  the elapsed time of a sample is negative: the maximum is accumulated from the initial
  value \<^verbatim>\<open>maxD2H = 0\<close>, which then stays.  With one round and a read measured as \<open>- 1\<close>
  second, the value under ``Min'' for device to host is computed from \<open>0\<close> (a division
  by zero, which yields infinity), not from the maximum sample \<open>- 1\<close>.
\<close>

theorem sentinel_counterexample:
  "fst (round_loop config_both_once runtime_set_back 1048576 0 init_accum
          \<lparr>ncalls = 0, trace = []\<rparr>) = accum_set_back
   \<and> seenD2H accum_set_back = [- 1]
   \<and> report_D2H config_both_once 1048576 accum_set_back ! 2
       = Cout (StatLine ''Min'' PlusInf ''GB/s'')
   \<and> convert GBps (1048576 :: 64 word) (Finite (Max (set (seenD2H accum_set_back))))
       = Finite (- (1 / 1024))"
  by (simp add: round_loop_set_back accum_set_back_def report_D2H_def
      config_both_once_simps convert_examples unit_label_def)

text \<open>
  C4, amended.  Let the round loop of one buffer size end with the accumulators \<open>acc\<close>.
  For each direction that has at least one sample and whose greatest sample is not
  negative, the report of that direction is its header followed by ``Avg'' (computed
  from the accumulated sum), by ``Min'' with the throughput computed from the maximum
  elapsed-time sample, and by ``Max'' with the throughput computed from the minimum
  elapsed-time sample.
\<close>

theorem report_pairs_extremes:
  assumes run: "round_loop cfg rt dataSize 0 init_accum w = (acc, w')"
  shows "(seenH2D acc \<noteq> [] \<and> 0 \<le> Max (set (seenH2D acc)) \<longrightarrow>
      report_H2D cfg dataSize acc =
        [Cout (DirectionHeader ''Host to Device:''),
         Cout (StatLine ''Avg''
                 (convert (unit cfg) dataSize
                    (fdiv (sumH2D acc) (Finite (real_of_int (rounds cfg)))))
                 (unit_label (unit cfg))),
         Cout (StatLine ''Min'' (convert (unit cfg) dataSize (Finite (Max (set (seenH2D acc)))))
                 (unit_label (unit cfg))),
         Cout (StatLine ''Max'' (convert (unit cfg) dataSize (Finite (Min (set (seenH2D acc)))))
                 (unit_label (unit cfg)))])
   \<and> (seenD2H acc \<noteq> [] \<and> 0 \<le> Max (set (seenD2H acc)) \<longrightarrow>
      report_D2H cfg dataSize acc =
        [Cout (DirectionHeader ''Device to Host:''),
         Cout (StatLine ''Avg''
                 (convert (unit cfg) dataSize
                    (fdiv (sumD2H acc) (Finite (real_of_int (rounds cfg)))))
                 (unit_label (unit cfg))),
         Cout (StatLine ''Min'' (convert (unit cfg) dataSize (Finite (Max (set (seenD2H acc)))))
                 (unit_label (unit cfg))),
         Cout (StatLine ''Max'' (convert (unit cfg) dataSize (Finite (Min (set (seenD2H acc)))))
                 (unit_label (unit cfg)))])"
proof -
  note facts = round_loop_accum [OF run accum_inv_init]
  from facts have inv: "accum_inv acc"
    by blast
  have h2d: "direction cfg = HostToDevice \<or> direction cfg = Both" if "seenH2D acc \<noteq> []"
    using facts that by (auto simp: init_accum_def split: if_splits)
  have d2h: "direction cfg = DeviceToHost \<or> direction cfg = Both" if "seenD2H acc \<noteq> []"
    using facts that by (auto simp: init_accum_def split: if_splits)
  have mx: "foldl max 0 xs = Max (set xs)" if "xs \<noteq> []" "0 \<le> Max (set xs)" for xs :: "real list"
    using that by (simp add: foldl_max_Max)
  have mn: "foldl min 10000000000 xs = Min (set xs)"
    if "xs \<noteq> []" "list_all is_sample xs" for xs :: "real list"
  proof -
    from that have "hd xs \<in> set xs" "hd xs \<le> 10000000000"
      by (auto simp: list_all_iff is_sample_def)
    then have "Min (set xs) \<le> 10000000000"
      using Min_le [of "set xs" "hd xs"] by (simp del: Min_le)
    with that(1) show ?thesis
      by (simp add: foldl_min_Min)
  qed
  show ?thesis
    using inv h2d d2h
    by (auto simp: accum_inv_def report_H2D_def report_D2H_def mx mn)
qed

text \<open>
  Two rounds in both directions on a clock that measures 1 s and 4 s for the writes and
  2 s and 8 s for the reads: ``Min'' is computed from 4 s and from 8 s, ``Max'' from 1 s
  and from 2 s.
\<close>

theorem report_pairs_extremes_witness:
  "round_loop config_both_twice runtime_doubling 1048576 0 init_accum \<lparr>ncalls = 0, trace = []\<rparr>
     = (accum_doubling, world_both_twice)
   \<and> seenH2D accum_doubling = [1, 4] \<and> 0 \<le> Max (set (seenH2D accum_doubling))
   \<and> report_H2D config_both_twice 1048576 accum_doubling =
        [Cout (DirectionHeader ''Host to Device:''),
         Cout (StatLine ''Avg'' (convert GBps (1048576 :: 64 word) (fdiv 5 (Finite 2))) ''GB/s''),
         Cout (StatLine ''Min'' (convert GBps (1048576 :: 64 word) (Finite 4)) ''GB/s''),
         Cout (StatLine ''Max'' (convert GBps (1048576 :: 64 word) (Finite 1)) ''GB/s'')]
   \<and> convert GBps (1048576 :: 64 word) (Finite 4) = Finite (1 / 4096)
   \<and> convert GBps (1048576 :: 64 word) (Finite 1) = Finite (1 / 1024)
   \<and> seenD2H accum_doubling = [2, 8] \<and> 0 \<le> Max (set (seenD2H accum_doubling))
   \<and> report_D2H config_both_twice 1048576 accum_doubling =
        [Cout (DirectionHeader ''Device to Host:''),
         Cout (StatLine ''Avg'' (convert GBps (1048576 :: 64 word) (fdiv 10 (Finite 2))) ''GB/s''),
         Cout (StatLine ''Min'' (convert GBps (1048576 :: 64 word) (Finite 8)) ''GB/s''),
         Cout (StatLine ''Max'' (convert GBps (1048576 :: 64 word) (Finite 2)) ''GB/s'')]
   \<and> convert GBps (1048576 :: 64 word) (Finite 8) = Finite (1 / 8192)
   \<and> convert GBps (1048576 :: 64 word) (Finite 2) = Finite (1 / 2048)"
proof -
  have seen: "seenH2D accum_doubling = [1, 4]" "seenD2H accum_doubling = [2, 8]"
    "sumH2D accum_doubling = 5" "sumD2H accum_doubling = 10"
    by (simp_all add: accum_doubling_def)
  have ext: "Max (set [1, 4 :: real]) = 4" "Min (set [1, 4 :: real]) = 1"
    "Max (set [2, 8 :: real]) = 8" "Min (set [2, 8 :: real]) = 2"
    by simp_all
  show ?thesis
    using report_pairs_extremes [OF round_loop_doubling] round_loop_doubling
    by (simp add: seen ext config_both_twice_simps unit_label_def convert_examples
        del: fdiv.simps)
qed

section \<open>The order of the reported throughputs\<close>

text \<open>
  The three multiplications by \<^verbatim>\<open>1024.0\<close> are exact on a double, and the throughput
  falls when the elapsed time grows: rounding keeps the order.
\<close>

lemma rnd_double: "rnd (x * 2) = rnd x * 2"
  using rnd_scale [of x 1] pow2_nat [of 1] by simp

lemma rnd_nonneg: "0 \<le> x \<Longrightarrow> 0 \<le> rnd x"
  using rnd_mono [of 0 x] by (simp add: rnd_0)

lemma convert_Finite:
  "convert u ds (Finite x) =
     fdiv (rnd (real (unat ds))) (Finite (rnd x * (if u = GBps then 1073741824 else 1048576)))"
proof -
  have m: "fmul (Finite y) 1024 = Finite (rnd y * 1024)" for y
    by (simp only: fmul.simps rnd_times_1024)
  have g: "fmul (fmul (fmul (Finite x) 1024) 1024) 1024 = Finite (rnd x * 1073741824)"
    by (simp only: m rnd_times_1024 rnd_rnd) simp
  have h: "fmul (fmul (Finite x) 1024) 1024 = Finite (rnd x * 1048576)"
    by (simp only: m rnd_times_1024 rnd_rnd) simp
  show ?thesis
  proof (cases "u = GBps")
    case True
    then show ?thesis
      by (simp add: convert_def g del: fmul.simps fdiv.simps)
  next
    case False
    then show ?thesis
      by (simp add: convert_def h del: fmul.simps fdiv.simps)
  qed
qed

lemma fdiv_antimono:
  assumes "0 \<le> S" and "0 \<le> x" and "x \<le> y" and "0 < c" and "0 < S \<or> 0 < x"
  shows "double_le (fdiv S (Finite (y * c))) (fdiv S (Finite (x * c)))"
proof (cases "x = 0")
  case True
  with assms(5) have "0 < S"
    by simp
  with True assms(3,4) show ?thesis
    by simp
next
  case False
  with assms(2,3) have pos: "0 < x" "0 < y"
    by simp_all
  with assms(4) have c: "0 < x * c" "0 < y * c" "x * c \<le> y * c"
    using assms(3) by simp_all
  with assms(1) have "S / (y * c) \<le> S / (x * c)"
    by (intro divide_left_mono) simp_all
  then have "rnd (S / (y * c)) \<le> rnd (S / (x * c))"
    by (rule rnd_mono)
  moreover from c have "\<not> x * c < 0" "\<not> y * c < 0" "x * c \<noteq> 0" "y * c \<noteq> 0"
    by linarith+
  ultimately show ?thesis
    by (simp only: fdiv.simps double_le.simps if_False simp_thms)
qed

lemma convert_antimono:
  assumes "0 \<le> x" and "x \<le> y" and "0 < unat ds \<or> 0 < x"
  shows "double_le (convert u ds (Finite y)) (convert u ds (Finite x))"
proof -
  have S: "0 \<le> rnd (real (unat ds))"
    by (rule rnd_nonneg) (rule of_nat_0_le_iff)
  have x: "0 \<le> rnd x" and xy: "rnd x \<le> rnd y"
    using assms(1,2) by (simp_all add: rnd_nonneg rnd_mono)
  have "0 < real (unat ds)" if "0 < unat ds"
    using that by (simp only: of_nat_0_less_iff)
  then have p: "0 < rnd (real (unat ds)) \<or> 0 < rnd x"
    using assms(3) rnd_pos [of "real (unat ds)"] rnd_pos [of x] by metis
  show ?thesis
    unfolding convert_Finite
    by (intro fdiv_antimono S x xy p) simp
qed

text \<open>
  The accumulators of one direction after the samples \<open>seen\<close>, none of them negative: the
  minimum is at most the maximum, and the rounded average of one or of two samples lies
  between them.
\<close>

lemma extremes_of_samples:
  fixes seen :: "real list"
  assumes "seen \<noteq> []" and "list_all (\<lambda>t. 0 \<le> t) seen"
  shows "0 \<le> foldl min 10000000000 seen"
    and "foldl min 10000000000 seen \<le> foldl max 0 seen"
    and "list_all (\<lambda>t. 0 < t) seen \<Longrightarrow> 0 < foldl min 10000000000 seen"
proof -
  from assms(1) have hd: "hd seen \<in> set seen"
    by simp
  show "0 \<le> foldl min 10000000000 seen"
    using assms by (simp add: foldl_min_Min list_all_iff)
  have "foldl min 10000000000 seen \<le> hd seen"
    using hd by (simp add: foldl_min_Min)
  moreover have "hd seen \<le> foldl max 0 seen"
    using hd by (simp add: foldl_max_Max)
  ultimately show "foldl min 10000000000 seen \<le> foldl max 0 seen"
    by linarith
  show "0 < foldl min 10000000000 seen" if "list_all (\<lambda>t. 0 < t) seen"
    using that by (simp add: foldl_min_Min list_all_iff)
qed

lemma average_of_samples:
  fixes seen :: "real list"
  assumes "seen \<noteq> []" and "length seen \<le> 2" and "list_all is_sample seen"
    and "list_all (\<lambda>t. 0 \<le> t) seen"
  shows "\<exists>a. fdiv (foldl (\<lambda>s t. rnd (s + t)) 0 seen) (Finite (real (length seen))) = Finite a
           \<and> foldl min 10000000000 seen \<le> a \<and> a \<le> foldl max 0 seen"
proof -
  consider t where "seen = [t]" | t u where "seen = [t, u]"
    using assms(1,2) by (cases seen; cases "tl seen"; cases "tl (tl seen)") auto
  then show ?thesis
  proof cases
    case 1
    with assms(3,4) have "rnd t = t" "t \<le> 10000000000" "0 \<le> t"
      by (simp_all add: is_sample_def)
    with 1 show ?thesis
      by simp
  next
    case 2
    with assms(3,4) have t: "rnd t = t" "t \<le> 10000000000" "0 \<le> t"
      and u: "rnd u = u" "u \<le> 10000000000" "0 \<le> u"
      by (simp_all add: is_sample_def)
    define lo where "lo = min t u"
    define hi where "hi = max t u"
    have r: "rnd lo = lo" "rnd hi = hi"
      using t(1) u(1) by (simp_all add: lo_def hi_def min_def max_def)
    have "lo * 2 \<le> t + u" "t + u \<le> hi * 2"
      by (simp_all add: lo_def hi_def min_def max_def)
    then have "rnd (lo * 2) \<le> rnd (t + u)" "rnd (t + u) \<le> rnd (hi * 2)"
      by (simp_all only: rnd_mono)
    then have b: "lo \<le> rnd (t + u) / 2" "rnd (t + u) / 2 \<le> hi"
      by (simp_all add: rnd_double r)
    have mn: "foldl min 10000000000 seen = lo" and mx: "foldl max 0 seen = hi"
      using 2 t(2,3) u(2,3) by (simp_all add: lo_def hi_def min_def max_def)
    have "fdiv (foldl (\<lambda>s t. rnd (s + t)) 0 seen) (Finite (real (length seen)))
        = Finite (rnd (t + u) / 2)"
      using 2 t(1) by (simp add: rnd_half rnd_rnd)
    with b show ?thesis
      unfolding mn mx by blast
  qed
qed

lemma stats_ordered:
  fixes seen :: "real list"
  assumes "seen \<noteq> []" and "list_all is_sample seen" and "list_all (\<lambda>t. 0 \<le> t) seen"
    and "0 < unat ds \<or> list_all (\<lambda>t. 0 < t) seen"
  shows "double_le (convert u ds (Finite (foldl max 0 seen)))
           (convert u ds (Finite (foldl min 10000000000 seen)))"
    and "length seen \<le> 2 \<Longrightarrow>
         double_le (convert u ds (Finite (foldl max 0 seen)))
           (convert u ds (fdiv (foldl (\<lambda>s t. rnd (s + t)) 0 seen) (Finite (real (length seen)))))
         \<and> double_le
           (convert u ds (fdiv (foldl (\<lambda>s t. rnd (s + t)) 0 seen) (Finite (real (length seen)))))
           (convert u ds (Finite (foldl min 10000000000 seen)))"
proof -
  note e = extremes_of_samples [OF assms(1,3)]
  have p: "0 < unat ds \<or> 0 < foldl min 10000000000 seen"
    using assms(4) e(3) by blast
  show "double_le (convert u ds (Finite (foldl max 0 seen)))
           (convert u ds (Finite (foldl min 10000000000 seen)))"
    using e(1,2) p by (rule convert_antimono)
  show "double_le (convert u ds (Finite (foldl max 0 seen)))
           (convert u ds (fdiv (foldl (\<lambda>s t. rnd (s + t)) 0 seen) (Finite (real (length seen)))))
         \<and> double_le
           (convert u ds (fdiv (foldl (\<lambda>s t. rnd (s + t)) 0 seen) (Finite (real (length seen)))))
           (convert u ds (Finite (foldl min 10000000000 seen)))"
    if "length seen \<le> 2"
  proof -
    from average_of_samples [OF assms(1) that assms(2,3)] obtain a
      where a: "fdiv (foldl (\<lambda>s t. rnd (s + t)) 0 seen) (Finite (real (length seen))) = Finite a"
        "foldl min 10000000000 seen \<le> a" "a \<le> foldl max 0 seen"
      by blast
    from e(1) a(2) have a0: "0 \<le> a"
      by linarith
    from p a(2) have pa: "0 < unat ds \<or> 0 < a"
      by auto
    show ?thesis
      unfolding a(1)
      using convert_antimono [OF a0 a(3) pa] convert_antimono [OF e(1) a(2) p]
      by blast
  qed
qed

text \<open>
  The sum of \<open>k\<close> samples between \<open>lo\<close> and \<open>hi\<close>, rounded after every addition, is
  \<open>k\<close> times a value between \<open>lo\<close> and \<open>hi\<close> up to \<open>k\<close> roundings.
\<close>

lemma rounded_sum_bounds:
  fixes xs :: "real list"
  assumes "\<forall>t \<in> set xs. lo \<le> t \<and> t \<le> hi" and "0 \<le> lo" and "lo \<le> hi"
  shows "real (length xs) * lo * (1 - unit_roundoff) ^ length xs
           \<le> foldl (\<lambda>s t. rnd (s + t)) 0 xs
     \<and> foldl (\<lambda>s t. rnd (s + t)) 0 xs
           \<le> real (length xs) * hi * (1 + unit_roundoff) ^ length xs"
  using assms(1)
proof (induction xs rule: rev_induct)
  case Nil
  show ?case by simp
next
  case (snoc t xs)
  define e where "e = unit_roundoff"
  define k where "k = length xs"
  define s where "s = foldl (\<lambda>s t. rnd (s + t)) 0 xs"
  have e: "0 < e" "e < 1"
    using unit_roundoff_bounds by (simp_all add: e_def)
  from snoc have IH: "real k * lo * (1 - e) ^ k \<le> s" "s \<le> real k * hi * (1 + e) ^ k"
    and t: "lo \<le> t" "t \<le> hi"
    by (simp_all add: e_def k_def s_def)
  have hi: "0 \<le> hi"
    using assms(2,3) by linarith
  have p1: "(1 - e) ^ k \<le> 1" "0 \<le> (1 - e) ^ k"
    using e by (simp_all add: power_le_one)
  have p2: "1 \<le> (1 + e) ^ k"
    using e by (simp add: one_le_power)
  have s0: "0 \<le> s"
    using IH(1) assms(2) p1(2) by (meson mult_nonneg_nonneg of_nat_0_le_iff order_trans)
  then have st: "0 \<le> s + t"
    using t(1) assms(2) by linarith
  have "lo * (1 - e) ^ k \<le> lo"
    using assms(2) p1(1) by (simp add: mult_left_le)
  then have "real (Suc k) * lo * (1 - e) ^ k \<le> s + t"
    using IH(1) t(1) by (simp add: algebra_simps)
  then have "real (Suc k) * lo * (1 - e) ^ k * (1 - e) \<le> (s + t) * (1 - e)"
    using e by (intro mult_right_mono) simp_all
  also have "\<dots> \<le> rnd (s + t)"
    using rnd_roundoff(1) [OF st] by (simp add: e_def)
  finally have lower: "real (Suc k) * lo * (1 - e) ^ Suc k \<le> rnd (s + t)"
    by (simp add: mult_ac)
  have "hi \<le> hi * (1 + e) ^ k"
    using hi p2 by (simp add: mult_le_cancel_left1)
  then have "s + t \<le> real (Suc k) * hi * (1 + e) ^ k"
    using IH(2) t(2) by (simp add: algebra_simps)
  then have "(s + t) * (1 + e) \<le> real (Suc k) * hi * (1 + e) ^ k * (1 + e)"
    using e by (intro mult_right_mono) simp_all
  with rnd_roundoff(2) [OF st] have upper: "rnd (s + t) \<le> real (Suc k) * hi * (1 + e) ^ Suc k"
    by (simp add: e_def mult_ac)
  show ?case
    using lower upper by (simp add: e_def k_def s_def)
qed


text \<open>
  The throughput computed from the rounded average of \<open>n\<close> positive samples lies between
  the throughputs computed from the greatest and from the least sample, up to the \<open>n\<close>
  additions, the division by \<open>n\<close> and the two divisions of the conversions.
\<close>

lemma average_throughput_bounds:
  fixes S c lo hi s :: real and n :: nat
  assumes S: "0 \<le> S" and c: "0 < c" and lo: "0 < lo" and lohi: "lo \<le> hi" and n: "0 < n"
    and s1: "real n * lo * (1 - unit_roundoff) ^ n \<le> s"
    and s2: "s \<le> real n * hi * (1 + unit_roundoff) ^ n"
  shows "0 < rnd (s / real n)"
    and "rnd (S / (hi * c)) * (1 - unit_roundoff)
           \<le> rnd (S / (rnd (s / real n) * c)) * (1 + unit_roundoff) ^ (n + 2)"
    and "rnd (S / (rnd (s / real n) * c)) * (1 - unit_roundoff) ^ (n + 2)
           \<le> rnd (S / (lo * c)) * (1 + unit_roundoff)"
proof -
  define e where "e = unit_roundoff"
  define P where "P = (1 + e) ^ (n + 1)"
  define R where "R = (1 - e) ^ (n + 1)"
  define avg where "avg = rnd (s / real n)"
  define q where "q = S / (avg * c)"
  have e: "0 < e" "e < 1"
    using unit_roundoff_bounds by (simp_all add: e_def)
  have P: "0 < P" and R: "0 < R"
    using e by (simp_all add: P_def R_def)
  have hi: "0 < hi"
    using lo lohi by linarith
  have rn: "0 < real n"
    using n by simp
  have sn1: "lo * (1 - e) ^ n \<le> s / real n"
    using s1 rn by (simp add: e_def field_simps)
  have sn2: "s / real n \<le> hi * (1 + e) ^ n"
    using s2 rn by (simp add: e_def field_simps)
  have "0 < lo * (1 - e) ^ n"
    using lo e by simp
  with sn1 have sn0: "0 < s / real n"
    by linarith
  then have sn0': "0 \<le> s / real n"
    by simp
  have "lo * (1 - e) ^ n * (1 - e) \<le> s / real n * (1 - e)"
    using sn1 e by (intro mult_right_mono) simp_all
  with rnd_roundoff(1) [OF sn0'] have a1: "lo * R \<le> avg"
    by (simp add: avg_def R_def e_def mult_ac)
  have "s / real n * (1 + e) \<le> hi * (1 + e) ^ n * (1 + e)"
    using sn2 e by (intro mult_right_mono) simp_all
  with rnd_roundoff(2) [OF sn0'] have a2: "avg \<le> hi * P"
    by (simp add: avg_def P_def e_def mult_ac)
  have avg: "0 < avg"
    using a1 lo R by (meson less_le_trans mult_pos_pos)
  then show "0 < rnd (s / real n)"
    by (simp add: avg_def)
  have q: "0 \<le> q"
    using S avg c by (simp add: q_def)
  have qm: "0 \<le> S / (hi * c)" and qM: "0 \<le> S / (lo * c)"
    using S hi lo c by simp_all
  have "S * P / (hi * P * c) \<le> S * P / (avg * c)"
    using S P avg c a2 by (intro divide_left_mono) simp_all
  then have i: "S / (hi * c) \<le> q * P"
    using P by (simp add: q_def)
  have "S * R / (avg * c) \<le> S * R / (lo * R * c)"
    using S R lo c a1 avg by (intro divide_left_mono) simp_all
  then have ii: "q * R \<le> S / (lo * c)"
    using R by (simp add: q_def)
  note a = rnd_roundoff [OF q, folded e_def]
  note m = rnd_roundoff(2) [OF qm, folded e_def]
  note M = rnd_roundoff(1) [OF qM, folded e_def]
  have "rnd (S / (hi * c)) * (1 - e) \<le> S / (hi * c) * (1 + e) * (1 - e)"
    using m e by (intro mult_right_mono) simp_all
  also have "\<dots> \<le> q * P * (1 + e) * (1 - e)"
    using i e by (intro mult_right_mono) simp_all
  also have "\<dots> = q * (1 - e) * (P * (1 + e))"
    by simp
  also have "\<dots> \<le> rnd q * (P * (1 + e))"
    using a(1) P e by (intro mult_right_mono) simp_all
  finally show "rnd (S / (hi * c)) * (1 - unit_roundoff)
           \<le> rnd (S / (rnd (s / real n) * c)) * (1 + unit_roundoff) ^ (n + 2)"
    by (simp add: q_def avg_def P_def e_def mult_ac)
  have "rnd q * (R * (1 - e)) \<le> q * (1 + e) * (R * (1 - e))"
    using a(2) R e by (intro mult_right_mono) simp_all
  also have "\<dots> = q * R * (1 - e) * (1 + e)"
    by simp
  also have "\<dots> \<le> S / (lo * c) * (1 - e) * (1 + e)"
    using ii e by (intro mult_right_mono) simp_all
  also have "\<dots> \<le> rnd (S / (lo * c)) * (1 + e)"
    using M e by (intro mult_right_mono) simp_all
  finally show "rnd (S / (rnd (s / real n) * c)) * (1 - unit_roundoff) ^ (n + 2)
           \<le> rnd (S / (lo * c)) * (1 + unit_roundoff)"
    by (simp add: q_def avg_def R_def e_def mult_ac)
qed

lemma foldl_min_member: "foldl min a xs \<in> insert a (set xs)" for a :: real
  by (induction xs rule: rev_induct) (auto simp: min_def)

lemma foldl_max_member: "foldl max a xs \<in> insert a (set xs)" for a :: real
  by (induction xs rule: rev_induct) (auto simp: max_def)

lemma stats_within_rounding:
  fixes seen :: "real list"
  assumes "seen \<noteq> []" and "list_all is_sample seen" and "list_all (\<lambda>t. 0 < t) seen"
  shows "\<exists>m a M.
      convert u ds (Finite (foldl max 0 seen)) = Finite m
      \<and> convert u ds (fdiv (foldl (\<lambda>s t. rnd (s + t)) 0 seen) (Finite (real (length seen))))
          = Finite a
      \<and> convert u ds (Finite (foldl min 10000000000 seen)) = Finite M
      \<and> m * (1 - unit_roundoff) \<le> a * (1 + unit_roundoff) ^ (length seen + 2)
      \<and> a * (1 - unit_roundoff) ^ (length seen + 2) \<le> M * (1 + unit_roundoff)"
proof -
  define lo where "lo = foldl min 10000000000 seen"
  define hi where "hi = foldl max 0 seen"
  define s where "s = foldl (\<lambda>s t. rnd (s + t)) 0 seen"
  define n where "n = length seen"
  define c :: real where "c = (if u = GBps then 1073741824 else 1048576)"
  define S where "S = rnd (real (unat ds))"
  have pos: "\<forall>t \<in> set seen. 0 < t" and rep: "\<forall>t \<in> set seen. rnd t = t"
    using assms(2,3) by (simp_all add: list_all_iff is_sample_def)
  have n: "0 < n"
    using assms(1) by (simp add: n_def)
  have c: "0 < c"
    by (simp add: c_def)
  have S: "0 \<le> S"
    unfolding S_def by (rule rnd_nonneg) (rule of_nat_0_le_iff)
  have lo_pos: "0 < lo"
    using assms(1) pos by (simp add: lo_def foldl_min_Min)
  have between: "\<forall>t \<in> set seen. lo \<le> t \<and> t \<le> hi"
    by (simp add: lo_def hi_def foldl_min_Min foldl_max_Max)
  have lohi: "lo \<le> hi"
    using between assms(1) by (metis hd_in_set order_trans)
  have "lo \<in> insert 10000000000 (set seen)" "hi \<in> insert 0 (set seen)"
    unfolding lo_def hi_def by (rule foldl_min_member, rule foldl_max_member)
  with rep have r: "rnd lo = lo" "rnd hi = hi"
    by (auto simp: rnd_10_10 rnd_0)
  from rounded_sum_bounds [OF between _ lohi] lo_pos
  have sum: "real n * lo * (1 - unit_roundoff) ^ n \<le> s"
    "s \<le> real n * hi * (1 + unit_roundoff) ^ n"
    by (simp_all add: n_def s_def)
  note b = average_throughput_bounds [OF S c lo_pos lohi n sum]
  have hi_pos: "0 < hi"
    using lo_pos lohi by linarith
  have fin: "fdiv S (Finite (x * c)) = Finite (rnd (S / (x * c)))" if "0 < x" for x
  proof -
    from that c have "0 < x * c"
      by simp
    then have "x * c \<noteq> 0" "\<not> x * c < 0"
      by linarith+
    then show ?thesis
      by (simp only: fdiv.simps if_False simp_thms)
  qed
  have cm: "convert u ds (Finite hi) = Finite (rnd (S / (hi * c)))"
    unfolding convert_Finite r S_def [symmetric] c_def [symmetric] using hi_pos by (rule fin)
  have cM: "convert u ds (Finite lo) = Finite (rnd (S / (lo * c)))"
    unfolding convert_Finite r S_def [symmetric] c_def [symmetric] using lo_pos by (rule fin)
  have av: "fdiv s (Finite (real n)) = Finite (rnd (s / real n))"
    using n by simp
  have ca: "convert u ds (Finite (rnd (s / real n))) = Finite (rnd (S / (rnd (s / real n) * c)))"
    unfolding convert_Finite rnd_rnd S_def [symmetric] c_def [symmetric] using b(1) by (rule fin)
  show ?thesis
    unfolding lo_def [symmetric] hi_def [symmetric] s_def [symmetric] n_def [symmetric]
      cm cM av ca
    using b(2,3) by blast
qed

lemma stat_value_report:
  "stat_value ''Avg''
     [Cout (DirectionHeader h), Cout (StatLine ''Avg'' a l), Cout (StatLine ''Min'' b l),
      Cout (StatLine ''Max'' c l)] = Some a"
  "stat_value ''Min''
     [Cout (DirectionHeader h), Cout (StatLine ''Avg'' a l), Cout (StatLine ''Min'' b l),
      Cout (StatLine ''Max'' c l)] = Some b"
  "stat_value ''Max''
     [Cout (DirectionHeader h), Cout (StatLine ''Avg'' a l), Cout (StatLine ''Min'' b l),
      Cout (StatLine ''Max'' c l)] = Some c"
  by simp_all

lemma config_h2d_3_simps:
  "rounds config_h2d_3 = 3"
  "direction config_h2d_3 = HostToDevice"
  "unit config_h2d_3 = GBps"
  by (simp_all add: config_h2d_3_def)

lemma config_d2h_once_simps:
  "rounds config_d2h_once = 1"
  "direction config_d2h_once = DeviceToHost"
  "unit config_d2h_once = GBps"
  by (simp_all add: config_d2h_once_def)

lemma rnd_tenth: "rnd (1 / 10) = tenth"
  unfolding tenth_def
  by (rule trans [OF rnd_eval [of "- 4" _ 7205759403792794]])
     (simp_all add: pow2_def powr_neg_numeral round_even_def)

lemma rnd_tenth_sums:
  "rnd tenth = tenth"
  "rnd (tenth + tenth) = tenth * 2"
  "rnd (tenth * 2 + tenth) = 1351079888211149 / 4503599627370496"
proof -
  show r: "rnd tenth = tenth"
    using rnd_rnd [of "1 / 10"] by (simp only: rnd_tenth)
  have "rnd (tenth * 2) = tenth * 2"
    by (simp only: rnd_double r)
  then show "rnd (tenth + tenth) = tenth * 2"
    by (simp add: mult.commute)
  show "rnd (tenth * 2 + tenth) = 1351079888211149 / 4503599627370496"
    unfolding tenth_def
    by (rule trans [OF rnd_eval [of "- 2" _ 5404319552844596]])
       (simp_all add: pow2_def powr_neg_numeral round_even_def)
qed

lemma rnd_tenth_average:
  "rnd (1351079888211149 / 4503599627370496 / 3) = 7205759403792795 / 72057594037927936"
  by (rule trans [OF rnd_eval [of "- 4" _ 7205759403792795]])
     (simp_all add: pow2_def powr_neg_numeral round_even_def)

lemma rnd_tenth_average_double:
  "rnd (7205759403792795 / 72057594037927936) = 7205759403792795 / 72057594037927936"
  using rnd_rnd [of "1351079888211149 / 4503599627370496 / 3"]
  by (simp only: rnd_tenth_average)

lemma rnd_tenth_throughputs:
  "rnd (1048576 / (tenth * 1073741824)) = 5 / 512"
  "rnd (1048576 / (7205759403792795 / 72057594037927936 * 1073741824))
     = 5629499534213119 / 576460752303423488"
proof -
  show "rnd (1048576 / (tenth * 1073741824)) = 5 / 512"
    unfolding tenth_def
    by (rule trans [OF rnd_eval [of "- 7" _ 5629499534213120]])
       (simp_all add: pow2_def powr_neg_numeral round_even_def)
  show "rnd (1048576 / (7205759403792795 / 72057594037927936 * 1073741824))
     = 5629499534213119 / 576460752303423488"
    by (rule trans [OF rnd_eval [of "- 7" _ 5629499534213119]])
       (simp_all add: pow2_def powr_neg_numeral round_even_def)
qed

lemma tenth_bounds: "0 < tenth" "tenth \<le> 10000000000" "tenth \<noteq> 0"
  by (simp_all add: tenth_def)

lemma duration_tenth: "duration_seconds 0 100000000 = tenth"
  by (simp add: duration_seconds_def rnd_numeral rnd_tenth)

lemma round_loop_tenth:
  "round_loop config_h2d_3 runtime_tenth 1048576 0 init_accum \<lparr>ncalls = 0, trace = []\<rparr>
     = (accum_tenth, world_h2d_3)"
  using rnd_tenth_sums
  by (simp add: round_loop.simps [of _ _ _ 0] round_loop.simps [of _ _ _ 1]
      round_loop.simps [of _ _ _ 2] round_loop.simps [of _ _ _ 3] run_defs
      config_h2d_3_simps runtime_tenth_def tenth_second_def duration_tenth
      tenth_bounds accum_tenth_def world_h2d_3_def)

lemma round_loop_instant:
  "fst (round_loop config_d2h_once runtime_instant 0 0 init_accum \<lparr>ncalls = 0, trace = []\<rparr>)
     = accum_read_instant"
  by (simp add: round_loop.simps [of _ _ _ 0] round_loop.simps [of _ _ _ 1] run_defs
      config_d2h_once_simps runtime_instant_def accum_read_instant_def)

lemma convert_tenth_examples:
  "convert GBps (1048576 :: 64 word) (Finite tenth) = Finite (5 / 512)"
  "convert GBps (1048576 :: 64 word) (Finite (7205759403792795 / 72057594037927936))
     = Finite (5629499534213119 / 576460752303423488)"
  "convert GBps (0 :: 64 word) (Finite 0) = NaN"
proof -
  have nz: "tenth * 1073741824 \<noteq> 0" "\<not> tenth * 1073741824 < 0"
    using tenth_bounds(1) by simp_all
  show "convert GBps (1048576 :: 64 word) (Finite tenth) = Finite (5 / 512)"
    unfolding convert_Finite
    using nz rnd_tenth_throughputs(1) by (simp add: rnd_numeral rnd_tenth_sums)
  show "convert GBps (1048576 :: 64 word) (Finite (7205759403792795 / 72057594037927936))
     = Finite (5629499534213119 / 576460752303423488)"
    unfolding convert_Finite rnd_tenth_average_double
    using rnd_tenth_throughputs(2) by (simp add: rnd_numeral)
  show "convert GBps (0 :: 64 word) (Finite 0) = NaN"
    unfolding convert_Finite by (simp add: rnd_0)
qed

lemma direction_stats_ordered:
  fixes seen :: "real list" and ds :: "'a::len word"
  assumes "seen \<noteq> []" and "list_all is_sample seen" and "list_all (\<lambda>t. 0 \<le> t) seen"
    and "0 < ds \<or> list_all (\<lambda>t. 0 < t) seen" and "length seen = nat r"
    and "report =
      [Cout (DirectionHeader h),
       Cout (StatLine ''Avg''
               (convert u ds (fdiv (foldl (\<lambda>s t. rnd (s + t)) 0 seen) (Finite (real_of_int r)))) l),
       Cout (StatLine ''Min'' (convert u ds (Finite (foldl max 0 seen))) l),
       Cout (StatLine ''Max'' (convert u ds (Finite (foldl min 10000000000 seen))) l)]"
  shows "\<exists>mn av mx.
      stat_value ''Min'' report = Some mn \<and> stat_value ''Avg'' report = Some av
      \<and> stat_value ''Max'' report = Some mx \<and> double_le mn mx
      \<and> (r \<le> 2 \<longrightarrow> double_le mn av \<and> double_le av mx)
      \<and> (list_all (\<lambda>t. 0 < t) seen \<longrightarrow>
           (\<exists>m a M. mn = Finite m \<and> av = Finite a \<and> mx = Finite M
              \<and> m * (1 - unit_roundoff) \<le> a * (1 + unit_roundoff) ^ (nat r + 2)
              \<and> a * (1 - unit_roundoff) ^ (nat r + 2) \<le> M * (1 + unit_roundoff)))"
proof -
  have p: "0 < unat ds \<or> list_all (\<lambda>t. 0 < t) seen"
    using assms(4) by (auto simp: word_greater_zero_iff unat_gt_0)
  from assms(1,5) have r: "real_of_int r = real (length seen)"
    by (cases "0 < r") simp_all
  note so = stats_ordered [OF assms(1,2,3) p, of u]
  note sw = stats_within_rounding [OF assms(1,2), of u ds]
  have "r \<le> 2 \<Longrightarrow> length seen \<le> 2"
    using assms(5) by simp
  with so sw show ?thesis
    unfolding assms(6) stat_value_report r assms(5) [symmetric] by blast
qed

text \<open>
  C6, as stated, fails in three ways.  When the clock is set back during the only read, the
  maximum stays at its initial value 0, so ``Min'' is a division by zero, infinity, while
  ``Avg'' is negative.  With three writes of a tenth of a second each, the sum of the
  three equal samples is rounded up, the average duration exceeds the maximum, and ``Avg''
  is below ``Min''.  And a buffer of 0 bytes with a sample of 0 seconds gives \<open>0 / 0\<close>,
  which compares with nothing.
\<close>

theorem throughput_order_counterexample:
  "fst (round_loop config_both_once runtime_set_back 1048576 0 init_accum
          \<lparr>ncalls = 0, trace = []\<rparr>) = accum_set_back
   \<and> seenD2H accum_set_back = [- 1]
   \<and> stat_value ''Min'' (report_D2H config_both_once 1048576 accum_set_back) = Some PlusInf
   \<and> stat_value ''Avg'' (report_D2H config_both_once 1048576 accum_set_back)
       = Some (Finite (- (1 / 1024)))
   \<and> \<not> double_le PlusInf (Finite (- (1 / 1024)))
   \<and> fst (round_loop config_h2d_3 runtime_tenth 1048576 0 init_accum
          \<lparr>ncalls = 0, trace = []\<rparr>) = accum_tenth
   \<and> seenH2D accum_tenth = [tenth, tenth, tenth] \<and> 0 < tenth
   \<and> stat_value ''Min'' (report_H2D config_h2d_3 1048576 accum_tenth) = Some (Finite (5 / 512))
   \<and> stat_value ''Avg'' (report_H2D config_h2d_3 1048576 accum_tenth)
       = Some (Finite (5629499534213119 / 576460752303423488))
   \<and> \<not> double_le (Finite (5 / 512)) (Finite (5629499534213119 / 576460752303423488))
   \<and> fst (round_loop config_d2h_once runtime_instant 0 0 init_accum
          \<lparr>ncalls = 0, trace = []\<rparr>) = accum_read_instant
   \<and> seenD2H accum_read_instant = [0]
   \<and> stat_value ''Min'' (report_D2H config_d2h_once 0 accum_read_instant) = Some NaN
   \<and> stat_value ''Max'' (report_D2H config_d2h_once 0 accum_read_instant) = Some NaN
   \<and> \<not> double_le NaN NaN"
proof -
  have a: "stat_value ''Min'' (report_D2H config_both_once 1048576 accum_set_back) = Some PlusInf"
    "stat_value ''Avg'' (report_D2H config_both_once 1048576 accum_set_back)
       = Some (Finite (- (1 / 1024)))"
    by (simp_all add: report_D2H_def config_both_once_simps accum_set_back_def
        rnd_minus rnd_1 convert_examples)
  have avg: "fdiv (1351079888211149 / 4503599627370496) (Finite 3)
      = Finite (7205759403792795 / 72057594037927936)"
    using rnd_tenth_average by simp
  have b: "stat_value ''Min'' (report_H2D config_h2d_3 1048576 accum_tenth) = Some (Finite (5 / 512))"
    "stat_value ''Avg'' (report_H2D config_h2d_3 1048576 accum_tenth)
       = Some (Finite (5629499534213119 / 576460752303423488))"
    by (simp_all add: report_H2D_def config_h2d_3_simps accum_tenth_def avg
        convert_tenth_examples del: fdiv.simps)
  have c: "stat_value ''Min'' (report_D2H config_d2h_once 0 accum_read_instant) = Some NaN"
    "stat_value ''Max'' (report_D2H config_d2h_once 0 accum_read_instant) = Some NaN"
    by (simp_all add: report_D2H_def config_d2h_once_simps accum_read_instant_def
        convert_tenth_examples del: fdiv.simps)
  show ?thesis
    using a b c round_loop_set_back round_loop_tenth round_loop_instant tenth_bounds(1)
    by (simp add: accum_set_back_def accum_tenth_def accum_read_instant_def)
qed

text \<open>
  C6, amended.  Let the round loop of one buffer size end with the accumulators \<open>acc\<close>.
  For each direction that has at least one sample, none of them negative, and for which
  the buffer size and the least sample are not both 0, the value reported under ``Min'' is
  at most the value reported under ``Max''; when there are at most two rounds, the value
  reported under ``Avg'' lies between them; and for any number \<open>n\<close> of rounds, when every
  sample is positive, the three values are finite and ``Avg'' lies between ``Min'' and
  ``Max'' up to rounding: with \<open>e = 1 / 2 ^ 53\<close>,
  \<open>Min * (1 - e) \<le> Avg * (1 + e) ^ (n + 2)\<close> and \<open>Avg * (1 - e) ^ (n + 2) \<le> Max * (1 + e)\<close>.
\<close>

theorem reported_throughputs_ordered:
  assumes run: "round_loop cfg rt dataSize 0 init_accum w = (acc, w')"
  shows "(seenH2D acc \<noteq> [] \<and> list_all (\<lambda>t. 0 \<le> t) (seenH2D acc)
          \<and> (0 < dataSize \<or> list_all (\<lambda>t. 0 < t) (seenH2D acc)) \<longrightarrow>
      (\<exists>mn av mx.
          stat_value ''Min'' (report_H2D cfg dataSize acc) = Some mn
        \<and> stat_value ''Avg'' (report_H2D cfg dataSize acc) = Some av
        \<and> stat_value ''Max'' (report_H2D cfg dataSize acc) = Some mx
        \<and> double_le mn mx
        \<and> (rounds cfg \<le> 2 \<longrightarrow> double_le mn av \<and> double_le av mx)
        \<and> (list_all (\<lambda>t. 0 < t) (seenH2D acc) \<longrightarrow>
             (\<exists>m a M. mn = Finite m \<and> av = Finite a \<and> mx = Finite M
                \<and> m * (1 - unit_roundoff) \<le> a * (1 + unit_roundoff) ^ (nat (rounds cfg) + 2)
                \<and> a * (1 - unit_roundoff) ^ (nat (rounds cfg) + 2)
                    \<le> M * (1 + unit_roundoff)))))
   \<and> (seenD2H acc \<noteq> [] \<and> list_all (\<lambda>t. 0 \<le> t) (seenD2H acc)
          \<and> (0 < dataSize \<or> list_all (\<lambda>t. 0 < t) (seenD2H acc)) \<longrightarrow>
      (\<exists>mn av mx.
          stat_value ''Min'' (report_D2H cfg dataSize acc) = Some mn
        \<and> stat_value ''Avg'' (report_D2H cfg dataSize acc) = Some av
        \<and> stat_value ''Max'' (report_D2H cfg dataSize acc) = Some mx
        \<and> double_le mn mx
        \<and> (rounds cfg \<le> 2 \<longrightarrow> double_le mn av \<and> double_le av mx)
        \<and> (list_all (\<lambda>t. 0 < t) (seenD2H acc) \<longrightarrow>
             (\<exists>m a M. mn = Finite m \<and> av = Finite a \<and> mx = Finite M
                \<and> m * (1 - unit_roundoff) \<le> a * (1 + unit_roundoff) ^ (nat (rounds cfg) + 2)
                \<and> a * (1 - unit_roundoff) ^ (nat (rounds cfg) + 2)
                    \<le> M * (1 + unit_roundoff)))))"
proof -
  note facts = round_loop_accum [OF run accum_inv_init]
  from facts have inv: "accum_inv acc"
    by blast
  have h2d: "(direction cfg = HostToDevice \<or> direction cfg = Both)
      \<and> length (seenH2D acc) = nat (rounds cfg)" if "seenH2D acc \<noteq> []"
    using facts that by (auto simp: init_accum_def split: if_splits)
  have d2h: "(direction cfg = DeviceToHost \<or> direction cfg = Both)
      \<and> length (seenD2H acc) = nat (rounds cfg)" if "seenD2H acc \<noteq> []"
    using facts that by (auto simp: init_accum_def split: if_splits)
  have "\<exists>mn av mx.
          stat_value ''Min'' (report_H2D cfg dataSize acc) = Some mn
        \<and> stat_value ''Avg'' (report_H2D cfg dataSize acc) = Some av
        \<and> stat_value ''Max'' (report_H2D cfg dataSize acc) = Some mx
        \<and> double_le mn mx
        \<and> (rounds cfg \<le> 2 \<longrightarrow> double_le mn av \<and> double_le av mx)
        \<and> (list_all (\<lambda>t. 0 < t) (seenH2D acc) \<longrightarrow>
             (\<exists>m a M. mn = Finite m \<and> av = Finite a \<and> mx = Finite M
                \<and> m * (1 - unit_roundoff) \<le> a * (1 + unit_roundoff) ^ (nat (rounds cfg) + 2)
                \<and> a * (1 - unit_roundoff) ^ (nat (rounds cfg) + 2)
                    \<le> M * (1 + unit_roundoff)))"
    if a: "seenH2D acc \<noteq> []" "list_all (\<lambda>t. 0 \<le> t) (seenH2D acc)"
      "0 < dataSize \<or> list_all (\<lambda>t. 0 < t) (seenH2D acc)"
  proof (rule direction_stats_ordered [OF a(1) _ a(2,3)])
    show "list_all is_sample (seenH2D acc)"
      using inv by (simp add: accum_inv_def)
    show "length (seenH2D acc) = nat (rounds cfg)"
      using h2d [OF a(1)] by blast
    show "report_H2D cfg dataSize acc =
      [Cout (DirectionHeader ''Host to Device:''),
       Cout (StatLine ''Avg''
               (convert (unit cfg) dataSize
                  (fdiv (foldl (\<lambda>s t. rnd (s + t)) 0 (seenH2D acc))
                     (Finite (real_of_int (rounds cfg))))) (unit_label (unit cfg))),
       Cout (StatLine ''Min'' (convert (unit cfg) dataSize (Finite (foldl max 0 (seenH2D acc))))
               (unit_label (unit cfg))),
       Cout (StatLine ''Max''
               (convert (unit cfg) dataSize (Finite (foldl min 10000000000 (seenH2D acc))))
               (unit_label (unit cfg)))]"
      using inv h2d [OF a(1)] by (auto simp: report_H2D_def accum_inv_def)
  qed
  moreover have "\<exists>mn av mx.
          stat_value ''Min'' (report_D2H cfg dataSize acc) = Some mn
        \<and> stat_value ''Avg'' (report_D2H cfg dataSize acc) = Some av
        \<and> stat_value ''Max'' (report_D2H cfg dataSize acc) = Some mx
        \<and> double_le mn mx
        \<and> (rounds cfg \<le> 2 \<longrightarrow> double_le mn av \<and> double_le av mx)
        \<and> (list_all (\<lambda>t. 0 < t) (seenD2H acc) \<longrightarrow>
             (\<exists>m a M. mn = Finite m \<and> av = Finite a \<and> mx = Finite M
                \<and> m * (1 - unit_roundoff) \<le> a * (1 + unit_roundoff) ^ (nat (rounds cfg) + 2)
                \<and> a * (1 - unit_roundoff) ^ (nat (rounds cfg) + 2)
                    \<le> M * (1 + unit_roundoff)))"
    if a: "seenD2H acc \<noteq> []" "list_all (\<lambda>t. 0 \<le> t) (seenD2H acc)"
      "0 < dataSize \<or> list_all (\<lambda>t. 0 < t) (seenD2H acc)"
  proof (rule direction_stats_ordered [OF a(1) _ a(2,3)])
    show "list_all is_sample (seenD2H acc)"
      using inv by (simp add: accum_inv_def)
    show "length (seenD2H acc) = nat (rounds cfg)"
      using d2h [OF a(1)] by blast
    show "report_D2H cfg dataSize acc =
      [Cout (DirectionHeader ''Device to Host:''),
       Cout (StatLine ''Avg''
               (convert (unit cfg) dataSize
                  (fdiv (foldl (\<lambda>s t. rnd (s + t)) 0 (seenD2H acc))
                     (Finite (real_of_int (rounds cfg))))) (unit_label (unit cfg))),
       Cout (StatLine ''Min'' (convert (unit cfg) dataSize (Finite (foldl max 0 (seenD2H acc))))
               (unit_label (unit cfg))),
       Cout (StatLine ''Max''
               (convert (unit cfg) dataSize (Finite (foldl min 10000000000 (seenD2H acc))))
               (unit_label (unit cfg)))]"
      using inv d2h [OF a(1)] by (auto simp: report_D2H_def accum_inv_def)
  qed
  ultimately show ?thesis
    by blast
qed

lemma convert_average_examples:
  "convert GBps (1048576 :: 64 word) (fdiv 5 (Finite 2))
     = Finite (3602879701896397 / 9223372036854775808)"
  "convert GBps (1048576 :: 64 word) (fdiv 10 (Finite 2))
     = Finite (3602879701896397 / 18446744073709551616)"
proof -
  have r: "rnd (1 / 2560) = 3602879701896397 / 9223372036854775808"
    by (rule trans [OF rnd_eval [of "- 12" _ 7205759403792794]])
       (simp_all add: pow2_def powr_neg_numeral round_even_def)
  have h: "rnd (5 / 2) = 5 / 2" "rnd 5 = 5"
    by (simp_all add: rnd_half rnd_numeral)
  have a: "fdiv 5 (Finite 2) = Finite (5 / 2)" "fdiv 10 (Finite 2) = Finite 5"
    using h by simp_all
  show "convert GBps (1048576 :: 64 word) (fdiv 5 (Finite 2))
     = Finite (3602879701896397 / 9223372036854775808)"
    unfolding a convert_Finite using r by (simp add: rnd_numeral h)
  have "rnd (1 / 2560 / 2) = 3602879701896397 / 9223372036854775808 / 2"
    by (simp only: rnd_half r)
  then show "convert GBps (1048576 :: 64 word) (fdiv 10 (Finite 2))
     = Finite (3602879701896397 / 18446744073709551616)"
    unfolding a convert_Finite by (simp add: rnd_numeral h)
qed

text \<open>
  Two rounds in both directions with writes of 1 s and 4 s and reads of 2 s and 8 s on a
  buffer of 1 MiB.
\<close>

theorem reported_throughputs_ordered_witness:
  "round_loop config_both_twice runtime_doubling 1048576 0 init_accum \<lparr>ncalls = 0, trace = []\<rparr>
     = (accum_doubling, world_both_twice)
   \<and> rounds config_both_twice = 2 \<and> (0 :: 64 word) < 1048576
   \<and> seenH2D accum_doubling = [1, 4]
   \<and> stat_value ''Min'' (report_H2D config_both_twice 1048576 accum_doubling)
       = Some (Finite (1 / 4096))
   \<and> stat_value ''Avg'' (report_H2D config_both_twice 1048576 accum_doubling)
       = Some (Finite (3602879701896397 / 9223372036854775808))
   \<and> stat_value ''Max'' (report_H2D config_both_twice 1048576 accum_doubling)
       = Some (Finite (1 / 1024))
   \<and> double_le (Finite (1 / 4096)) (Finite (1 / 1024))
   \<and> double_le (Finite (1 / 4096)) (Finite (3602879701896397 / 9223372036854775808))
   \<and> double_le (Finite (3602879701896397 / 9223372036854775808)) (Finite (1 / 1024))
   \<and> 1 / 4096 * (1 - unit_roundoff)
       \<le> 3602879701896397 / 9223372036854775808 * (1 + unit_roundoff) ^ 4
   \<and> 3602879701896397 / 9223372036854775808 * (1 - unit_roundoff) ^ 4
       \<le> 1 / 1024 * (1 + unit_roundoff)
   \<and> seenD2H accum_doubling = [2, 8]
   \<and> stat_value ''Min'' (report_D2H config_both_twice 1048576 accum_doubling)
       = Some (Finite (1 / 8192))
   \<and> stat_value ''Avg'' (report_D2H config_both_twice 1048576 accum_doubling)
       = Some (Finite (3602879701896397 / 18446744073709551616))
   \<and> stat_value ''Max'' (report_D2H config_both_twice 1048576 accum_doubling)
       = Some (Finite (1 / 2048))
   \<and> double_le (Finite (1 / 8192)) (Finite (1 / 2048))
   \<and> double_le (Finite (1 / 8192)) (Finite (3602879701896397 / 18446744073709551616))
   \<and> double_le (Finite (3602879701896397 / 18446744073709551616)) (Finite (1 / 2048))
   \<and> 1 / 8192 * (1 - unit_roundoff)
       \<le> 3602879701896397 / 18446744073709551616 * (1 + unit_roundoff) ^ 4
   \<and> 3602879701896397 / 18446744073709551616 * (1 - unit_roundoff) ^ 4
       \<le> 1 / 2048 * (1 + unit_roundoff)"
proof -
  have st: "stat_value ''Min'' (report_H2D config_both_twice 1048576 accum_doubling)
       = Some (Finite (1 / 4096))"
    "stat_value ''Avg'' (report_H2D config_both_twice 1048576 accum_doubling)
       = Some (Finite (3602879701896397 / 9223372036854775808))"
    "stat_value ''Max'' (report_H2D config_both_twice 1048576 accum_doubling)
       = Some (Finite (1 / 1024))"
    "stat_value ''Min'' (report_D2H config_both_twice 1048576 accum_doubling)
       = Some (Finite (1 / 8192))"
    "stat_value ''Avg'' (report_D2H config_both_twice 1048576 accum_doubling)
       = Some (Finite (3602879701896397 / 18446744073709551616))"
    "stat_value ''Max'' (report_D2H config_both_twice 1048576 accum_doubling)
       = Some (Finite (1 / 2048))"
    by (simp_all add: report_H2D_def report_D2H_def config_both_twice_simps accum_doubling_def
        convert_examples convert_average_examples del: fdiv.simps)
  have seen: "seenH2D accum_doubling = [1, 4]" "seenD2H accum_doubling = [2, 8]"
    by (simp_all add: accum_doubling_def)
  have four: "nat (rounds config_both_twice) + 2 = 4"
    by (simp add: config_both_twice_simps)
  note inst = reported_throughputs_ordered [OF round_loop_doubling, unfolded st four]
  have h: "seenH2D accum_doubling \<noteq> [] \<and> list_all (\<lambda>t. 0 \<le> t) (seenH2D accum_doubling)
      \<and> ((0 :: 64 word) < 1048576 \<or> list_all (\<lambda>t. 0 < t) (seenH2D accum_doubling))"
    "list_all (\<lambda>t. 0 < t) (seenH2D accum_doubling)"
    "seenD2H accum_doubling \<noteq> [] \<and> list_all (\<lambda>t. 0 \<le> t) (seenD2H accum_doubling)
      \<and> ((0 :: 64 word) < 1048576 \<or> list_all (\<lambda>t. 0 < t) (seenD2H accum_doubling))"
    "list_all (\<lambda>t. 0 < t) (seenD2H accum_doubling)"
    by (simp_all add: seen)
  from inst [THEN conjunct1, THEN mp, OF h(1)] obtain mn av mx where
    v: "Some (Finite (1 / 4096)) = Some mn"
      "Some (Finite (3602879701896397 / 9223372036854775808)) = Some av"
      "Some (Finite (1 / 1024)) = Some mx"
    and t: "list_all (\<lambda>t. 0 < t) (seenH2D accum_doubling) \<longrightarrow>
      (\<exists>m a M. mn = Finite m \<and> av = Finite a \<and> mx = Finite M
         \<and> m * (1 - unit_roundoff) \<le> a * (1 + unit_roundoff) ^ 4
         \<and> a * (1 - unit_roundoff) ^ 4 \<le> M * (1 + unit_roundoff))"
    by blast
  from t h(2) obtain m a M where
    f: "mn = Finite m" "av = Finite a" "mx = Finite M"
    and i: "m * (1 - unit_roundoff) \<le> a * (1 + unit_roundoff) ^ 4"
      "a * (1 - unit_roundoff) ^ 4 \<le> M * (1 + unit_roundoff)"
    by blast
  have e: "m = 1 / 4096" "a = 3602879701896397 / 9223372036854775808" "M = 1 / 1024"
    using v f by (simp_all only: option.inject double.inject)
  have tol_h2d:
    "1 / 4096 * (1 - unit_roundoff)
       \<le> 3602879701896397 / 9223372036854775808 * (1 + unit_roundoff) ^ 4"
    "3602879701896397 / 9223372036854775808 * (1 - unit_roundoff) ^ 4
       \<le> 1 / 1024 * (1 + unit_roundoff)"
    using i unfolding e by blast+
  from inst [THEN conjunct2, THEN mp, OF h(3)] obtain mn av mx where
    v: "Some (Finite (1 / 8192)) = Some mn"
      "Some (Finite (3602879701896397 / 18446744073709551616)) = Some av"
      "Some (Finite (1 / 2048)) = Some mx"
    and t: "list_all (\<lambda>t. 0 < t) (seenD2H accum_doubling) \<longrightarrow>
      (\<exists>m a M. mn = Finite m \<and> av = Finite a \<and> mx = Finite M
         \<and> m * (1 - unit_roundoff) \<le> a * (1 + unit_roundoff) ^ 4
         \<and> a * (1 - unit_roundoff) ^ 4 \<le> M * (1 + unit_roundoff))"
    by blast
  from t h(4) obtain m a M where
    f: "mn = Finite m" "av = Finite a" "mx = Finite M"
    and i: "m * (1 - unit_roundoff) \<le> a * (1 + unit_roundoff) ^ 4"
      "a * (1 - unit_roundoff) ^ 4 \<le> M * (1 + unit_roundoff)"
    by blast
  have e: "m = 1 / 8192" "a = 3602879701896397 / 18446744073709551616" "M = 1 / 2048"
    using v f by (simp_all only: option.inject double.inject)
  have tol_d2h:
    "1 / 8192 * (1 - unit_roundoff)
       \<le> 3602879701896397 / 18446744073709551616 * (1 + unit_roundoff) ^ 4"
    "3602879701896397 / 18446744073709551616 * (1 - unit_roundoff) ^ 4
       \<le> 1 / 2048 * (1 + unit_roundoff)"
    using i unfolding e by blast+
  have le: "double_le (Finite (1 / 4096)) (Finite (1 / 1024))"
    "double_le (Finite (1 / 4096)) (Finite (3602879701896397 / 9223372036854775808))"
    "double_le (Finite (3602879701896397 / 9223372036854775808)) (Finite (1 / 1024))"
    "double_le (Finite (1 / 8192)) (Finite (1 / 2048))"
    "double_le (Finite (1 / 8192)) (Finite (3602879701896397 / 18446744073709551616))"
    "double_le (Finite (3602879701896397 / 18446744073709551616)) (Finite (1 / 2048))"
    by simp_all
  have rest: "rounds config_both_twice = 2" "(0 :: 64 word) < 1048576"
    by (simp_all add: config_both_twice_simps)
  show ?thesis
    using round_loop_doubling rest seen st le tol_h2d tol_d2h by blast
qed

section \<open>A transfer that fails\<close>

lemma runtime_write_fails_simps:
  "status_of runtime_write_fails = write_fails_status"
  "start_of runtime_write_fails = clock_zero"
  "end_of runtime_write_fails = one_second"
  "numPlatforms runtime_write_fails = 1"
  "numDevices runtime_write_fails = 1"
  "gpuMemSize runtime_write_fails = 8589934592"
  by (simp_all add: runtime_write_fails_def runtime_ok_def)

lemma config_one_write_simps:
  "rounds config_one_write = 1"
  "targetDevice config_one_write = 0"
  "direction config_one_write = HostToDevice"
  "unit config_one_write = GBps"
  "userSpecifiedSizes config_one_write"
  "sizes config_one_write = [1048576]"
  by (simp_all add: config_one_write_def)

text \<open>
  Whenever the enqueued transfer reports a status other than \<^verbatim>\<open>CL_SUCCESS\<close>, \<^verbatim>\<open>measure\<close>
  writes the message and hands \<open>1\<close> back to the round loop as if it were an elapsed time.
\<close>

lemma measure_transfer_failure:
  assumes "status_of rt (ncalls w) \<noteq> CL_SUCCESS"
  shows "measure_transfer rt sz wr w =
     (1, \<lparr>ncalls = ncalls w + 2,
          trace = trace w @
            [Call (if wr then clEnqueueWriteBuffer (unat sz) else clEnqueueReadBuffer (unat sz)),
             Call clFinish,
             Cerr (CheckFailed (if wr then ''Write failed'' else ''Read failed'')
                     (status_of rt (ncalls w)))]\<rparr>)"
  using assms by (simp add: measure_transfer_def cl_def CHECK_def var_def emit_def Let_def)

lemma round_loop_write_fails:
  "round_loop config_one_write runtime_write_fails 1048576 0 init_accum \<lparr>ncalls = 14, trace = tr\<rparr>
     = (\<lparr>sumH2D = 1, minH2D = 1, maxH2D = 1, sumD2H = 0, minD2H = 10 ^ 10, maxD2H = 0,
         seenH2D = [1], seenD2H = []\<rparr>,
        \<lparr>ncalls = 16,
         trace = tr @ [Cout (IterationLine 1 1), Call (clEnqueueWriteBuffer 1048576), Call clFinish,
                       Cerr (CheckFailed ''Write failed'' (- 5))]\<rparr>)"
proof -
  have fails: "status_of runtime_write_fails (ncalls \<lparr>ncalls = 14, trace = tr'\<rparr>) \<noteq> CL_SUCCESS"
    for tr'
    by (simp add: runtime_write_fails_simps write_fails_status_def CL_SUCCESS_def)
  show ?thesis
    by (simp add: round_loop.simps [of _ _ _ 0] round_loop.simps [of _ _ _ 1] round_body_def
        config_one_write_simps emit_def init_accum_def measure_transfer_failure [OF fails]
        runtime_write_fails_simps write_fails_status_def rnd_1)
qed

lemma bench_size_write_fails:
  "bench_size config_one_write runtime_write_fails 1048576 \<lparr>ncalls = 9, trace = tr\<rparr>
     = (None,
        \<lparr>ncalls = 21,
         trace = tr @
           [Cout (BufferSizeLine 1048576), Call (clCreateBuffer 1048576),
            Call (clCreateBuffer 1048576), Call (clEnqueueMapBuffer 1048576),
            Call (clEnqueueMapBuffer 1048576), Call (clCreateBuffer 1048576),
            Cout (IterationLine 1 1), Call (clEnqueueWriteBuffer 1048576), Call clFinish,
            Cerr (CheckFailed ''Write failed'' (- 5)), Cout Endl,
            Cout (DirectionHeader ''Host to Device:''),
            Cout (StatLine ''Avg'' (Finite (1 / 1024)) ''GB/s''),
            Cout (StatLine ''Min'' (Finite (1 / 1024)) ''GB/s''),
            Cout (StatLine ''Max'' (Finite (1 / 1024)) ''GB/s''),
            Call clEnqueueUnmapMemObject, Call clEnqueueUnmapMemObject,
            Call clReleaseMemObject, Call clReleaseMemObject, Call clReleaseMemObject]\<rparr>)"
  by (simp add: bench_size_def cl_def CHECK_def var_def emit_def emits_def
      runtime_write_fails_simps config_one_write_simps write_fails_status_def CL_SUCCESS_def
      round_loop_write_fails report_H2D_def report_D2H_def convert_examples rnd_1
      unit_label_def Let_def)

lemma discover_write_fails:
  "discover config_one_write runtime_write_fails \<lparr>ncalls = 0, trace = []\<rparr> =
     (None,
      \<lparr>ncalls = 7,
       trace = [Cout CpuLine, Call clGetPlatformIDs, Call clGetPlatformIDs, Call clGetDeviceIDs,
                Call clGetDeviceIDs, Call clGetDeviceInfo, Call clGetDeviceInfo,
                Call clGetDeviceInfo, Cout (GpuLine 8192)]\<rparr>)"
  by (simp add: discover_def CHECK_def cl_def emit_def runtime_write_fails_simps
      config_one_write_simps write_fails_status_def CL_SUCCESS_def Let_def)

lemma run_write_fails:
  "run config_one_write runtime_write_fails \<lparr>ncalls = 0, trace = []\<rparr> =
     (Exit 0,
      \<lparr>ncalls = 23,
       trace =
         [Cout CpuLine, Call clGetPlatformIDs, Call clGetPlatformIDs, Call clGetDeviceIDs,
          Call clGetDeviceIDs, Call clGetDeviceInfo, Call clGetDeviceInfo, Call clGetDeviceInfo,
          Cout (GpuLine 8192), Call clCreateContext, Call clCreateCommandQueue,
          Cout (BufferSizeLine 1048576), Call (clCreateBuffer 1048576),
          Call (clCreateBuffer 1048576), Call (clEnqueueMapBuffer 1048576),
          Call (clEnqueueMapBuffer 1048576), Call (clCreateBuffer 1048576),
          Cout (IterationLine 1 1), Call (clEnqueueWriteBuffer 1048576), Call clFinish,
          Cerr (CheckFailed ''Write failed'' (- 5)), Cout Endl,
          Cout (DirectionHeader ''Host to Device:''),
          Cout (StatLine ''Avg'' (Finite (1 / 1024)) ''GB/s''),
          Cout (StatLine ''Min'' (Finite (1 / 1024)) ''GB/s''),
          Cout (StatLine ''Max'' (Finite (1 / 1024)) ''GB/s''),
          Call clEnqueueUnmapMemObject, Call clEnqueueUnmapMemObject,
          Call clReleaseMemObject, Call clReleaseMemObject, Call clReleaseMemObject,
          Call clReleaseCommandQueue, Call clReleaseContext]\<rparr>)"
  by (simp add: run_def discover_write_fails final_sizes_def config_one_write_simps cl_def
      CHECK_def var_def runtime_write_fails_simps write_fails_status_def CL_SUCCESS_def
      bench_size_write_fails)

lemma parse_args_one_write:
  "parse_args [''--sizes'', ''1M'', ''--rounds'', ''1'', ''--direction'', ''host2dev'']
     (initial_config :: 64 word config) [] = Proceed config_one_write []"
  by (simp add: parse_defs config_one_write_def)

text \<open>
  C1: the claim is right and the code misses it.  The macro \<^verbatim>\<open>CHECK\<close> is expanded inside
  \<^verbatim>\<open>measure\<close>, which returns \<^verbatim>\<open>double\<close>, so its \<^verbatim>\<open>return 1\<close> does not leave \<^verbatim>\<open>main\<close>.
  In the run of \<^verbatim>\<open>gpu-pcie-bench --sizes 1M --rounds 1 --direction host2dev\<close> in which the
  write reports \<^verbatim>\<open>CL_OUT_OF_RESOURCES\<close>, the message is written, the round loop goes on
  with a sample of one second, the statistics of the buffer size are printed from it
  (1 MiB in one second is \<open>1 / 1024\<close> GB/s), the buffers are released and the process
  ends with exit code 0.
\<close>

theorem failed_write_is_not_fatal:
  "main TYPE(64)
     [''gpu-pcie-bench'', ''--sizes'', ''1M'', ''--rounds'', ''1'', ''--direction'', ''host2dev'']
     runtime_write_fails =
   (Exit 0,
    [Cout CpuLine, Call clGetPlatformIDs, Call clGetPlatformIDs, Call clGetDeviceIDs,
     Call clGetDeviceIDs, Call clGetDeviceInfo, Call clGetDeviceInfo, Call clGetDeviceInfo,
     Cout (GpuLine 8192), Call clCreateContext, Call clCreateCommandQueue,
     Cout (BufferSizeLine 1048576), Call (clCreateBuffer 1048576),
     Call (clCreateBuffer 1048576), Call (clEnqueueMapBuffer 1048576),
     Call (clEnqueueMapBuffer 1048576), Call (clCreateBuffer 1048576),
     Cout (IterationLine 1 1), Call (clEnqueueWriteBuffer 1048576), Call clFinish,
     Cerr (CheckFailed ''Write failed'' (- 5)), Cout Endl,
     Cout (DirectionHeader ''Host to Device:''),
     Cout (StatLine ''Avg'' (Finite (1 / 1024)) ''GB/s''),
     Cout (StatLine ''Min'' (Finite (1 / 1024)) ''GB/s''),
     Cout (StatLine ''Max'' (Finite (1 / 1024)) ''GB/s''),
     Call clEnqueueUnmapMemObject, Call clEnqueueUnmapMemObject,
     Call clReleaseMemObject, Call clReleaseMemObject, Call clReleaseMemObject,
     Call clReleaseCommandQueue, Call clReleaseContext])"
  by (simp add: main_def parse_args_one_write run_write_fails del: parse_args.simps)

end
